(* ===== verification/Prelude.thy ===== *)
theory Prelude
  imports Main "HOL-Library.Word"
begin

text \<open>
  Shared vocabulary of the development: the machine integer types of the C code, the
  wrap-safe clock comparison, C's truncating division, return codes, the table of pending
  work items, and the list and word lemmas the components share.
\<close>

unbundle bit_operations_syntax

named_theorems wq_simps \<open>equations of the pending-work table\<close>
named_theorems clock_intros \<open>facts on the wrap-safe 32-bit clock comparison\<close>

type_synonym u8 = "8 word"
type_synonym u16 = "16 word"
type_synonym u32 = "32 word"
type_synonym bytes = "u8 list"

section \<open>Signed integers of the C code\<close>

text \<open>
  A value of a signed C type is an \<open>int\<close>; storing a wider value into the type truncates it
  to its two's complement range.
\<close>

definition i8 :: "int \<Rightarrow> int" where
  "i8 x = signed_take_bit 7 x"

definition i16 :: "int \<Rightarrow> int" where
  "i16 x = signed_take_bit 15 x"

definition i32 :: "int \<Rightarrow> int" where
  "i32 x = signed_take_bit 31 x"

definition in_i8 :: "int \<Rightarrow> bool" where
  "in_i8 x \<longleftrightarrow> - 128 \<le> x \<and> x \<le> 127"

definition in_i16 :: "int \<Rightarrow> bool" where
  "in_i16 x \<longleftrightarrow> - 32768 \<le> x \<and> x \<le> 32767"

definition in_i32 :: "int \<Rightarrow> bool" where
  "in_i32 x \<longleftrightarrow> - 2147483648 \<le> x \<and> x \<le> 2147483647"

lemma i8_id [simp]: "in_i8 x \<Longrightarrow> i8 x = x"
  by (simp add: i8_def in_i8_def signed_take_bit_int_eq_self_iff)

lemma i16_id [simp]: "in_i16 x \<Longrightarrow> i16 x = x"
  by (simp add: i16_def in_i16_def signed_take_bit_int_eq_self_iff)

lemma i32_id [simp]: "in_i32 x \<Longrightarrow> i32 x = x"
  by (simp add: i32_def in_i32_def signed_take_bit_int_eq_self_iff)

lemma in_i8_i8 [simp]: "in_i8 (i8 x)"
  using signed_take_bit_int_greater_eq_minus_exp [of 7 x] signed_take_bit_int_less_exp [of 7 x]
  by (simp add: i8_def in_i8_def)

lemma in_i16_i16 [simp]: "in_i16 (i16 x)"
  using signed_take_bit_int_greater_eq_minus_exp [of 15 x] signed_take_bit_int_less_exp [of 15 x]
  by (simp add: i16_def in_i16_def)

lemma in_i32_i32 [simp]: "in_i32 (i32 x)"
  using signed_take_bit_int_greater_eq_minus_exp [of 31 x] signed_take_bit_int_less_exp [of 31 x]
  by (simp add: i32_def in_i32_def)

lemma in_i32_of_i16 [intro]: "in_i16 x \<Longrightarrow> in_i32 x"
  by (simp add: in_i16_def in_i32_def)

text \<open>C division truncates towards zero.\<close>

definition cdiv :: "int \<Rightarrow> int \<Rightarrow> int" where
  "cdiv a b = sgn a * sgn b * (\<bar>a\<bar> div \<bar>b\<bar>)"

lemma cdiv_nonneg: "0 \<le> a \<Longrightarrow> 0 < b \<Longrightarrow> cdiv a b = a div b"
  by (cases "a = 0") (simp_all add: cdiv_def)

lemma cdiv_neg: "a < 0 \<Longrightarrow> 0 < b \<Longrightarrow> cdiv a b = - ((- a) div b)"
  by (simp add: cdiv_def)

lemma le_div_of_mult: "0 < b \<Longrightarrow> m * b \<le> a \<Longrightarrow> m \<le> a div (b :: int)"
  using zdiv_mono1 [of "m * b" a b] by simp

lemma div_le_of_mult: "0 < b \<Longrightarrow> a \<le> m * b \<Longrightarrow> a div (b :: int) \<le> m"
  using zdiv_mono1 [of a "m * b" b] by simp

lemma cdiv_ge:
  assumes "0 < b" and "m * b \<le> a"
  shows "m \<le> cdiv a b"
proof (cases "0 \<le> a")
  case True
  with assms show ?thesis by (simp add: cdiv_nonneg le_div_of_mult)
next
  case False
  have "(- a) div b \<le> - m"
    using assms by (intro div_le_of_mult) auto
  with False assms(1) show ?thesis by (simp add: cdiv_neg)
qed

lemma cdiv_le:
  assumes "0 < b" and "a \<le> m * b"
  shows "cdiv a b \<le> m"
proof (cases "0 \<le> a")
  case True
  with assms show ?thesis by (simp add: cdiv_nonneg div_le_of_mult)
next
  case False
  have "- m \<le> (- a) div b"
    using assms by (intro le_div_of_mult) auto
  with False assms(1) show ?thesis by (simp add: cdiv_neg)
qed

section \<open>The 32-bit millisecond clock\<close>

text \<open>
  \<open>k_uptime_get_32()\<close> is an unsigned 32-bit counter that wraps after about 49.7 days. The
  code compares a deadline with it by \<open>(int32_t)(deadline - now) > 0\<close>.
\<close>

definition before_deadline :: "u32 \<Rightarrow> u32 \<Rightarrow> bool" where
  "before_deadline deadline now \<longleftrightarrow> 0 < sint (deadline - now)"

lemma half_range_pos:
  "x = (if y < 2 ^ 31 then y else y - 2 ^ 32) \<Longrightarrow> 0 \<le> y \<Longrightarrow> y < 2 ^ 32
    \<Longrightarrow> 0 < x \<longleftrightarrow> 0 < y \<and> y < (2 ^ 31 :: int)"
  by (cases "y < 2 ^ 31") auto

lemma sint_pos_iff32: "0 < sint (w :: u32) \<longleftrightarrow> 0 < unat w \<and> unat w < 2 ^ 31"
proof -
  have s: "sint w = signed_take_bit 31 (uint w)"
    by (simp add: sint_uint)
  have b: "0 \<le> uint w" "uint w < 2 ^ 32"
    using uint_lt2p [of w] by simp_all
  have t: "signed_take_bit 31 (uint w) = (if uint w < 2 ^ 31 then uint w else uint w - 2 ^ 32)"
  proof (cases "uint w < 2 ^ 31")
    case True
    moreover have "- (2 ^ 31) \<le> uint w" by (rule order_trans [OF _ b(1)]) simp
    ultimately show ?thesis by (simp add: signed_take_bit_int_eq_self_iff)
  next
    case False
    have "signed_take_bit 31 (uint w) = signed_take_bit 31 (uint w - 2 ^ 32)"
      by (simp add: signed_take_bit_eq_iff_take_bit_eq take_bit_eq_mod)
    also have "\<dots> = uint w - 2 ^ 32"
      using False b by (intro signed_take_bit_int_eq_self) simp_all
    finally show ?thesis using False by simp
  qed
  have "sint w = (if uint w < 2 ^ 31 then uint w else uint w - 2 ^ 32)"
    by (rule trans [OF s t])
  then have "0 < sint w \<longleftrightarrow> 0 < uint w \<and> uint w < 2 ^ 31"
    using b by (rule half_range_pos)
  then show ?thesis
    by (simp only: unat_eq_nat_uint zless_nat_eq_int_zless nat_less_iff b) simp
qed

lemma before_deadline_add [simp]:
  "before_deadline (now + hold) now \<longleftrightarrow> 0 < unat hold \<and> unat hold < 2 ^ 31"
  by (simp add: before_deadline_def sint_pos_iff32)

lemma not_before_deadline_self [simp]: "\<not> before_deadline now now"
  by (simp add: before_deadline_def)

text \<open>Timestamps use 0 as "unset", so the code stores 1 when the clock happens to read 0.\<close>

definition nz_stamp :: "u32 \<Rightarrow> u32" where
  "nz_stamp now = (if now = 0 then 1 else now)"

lemma nz_stamp_nonzero [simp]: "nz_stamp now \<noteq> 0"
  by (simp add: nz_stamp_def)

section \<open>Return codes\<close>

datatype errno = EAGAIN | ENOMEM | EMSGSIZE | EBUSY | EINVAL | EACCES | ENODEV | ENODATA
  | ETIMEDOUT | EIO | ENOTSUP | ENOTCONN

datatype rc = OK | Err errno

section \<open>Pending work items\<close>

text \<open>
  Each component owns some Zephyr work items. The model records, per item, the delay of the
  request that is pending (\<open>None\<close> when nothing is pending); when an item runs is left to the
  environment, so every theorem on handlers holds for every scheduling.
  \<open>resched\<close> replaces a pending request, \<open>sched\<close> keeps the earlier one, \<open>submit\<close> requests an
  immediate run, \<open>cancel\<close> withdraws.
\<close>

type_synonym 'w workq = "'w \<Rightarrow> u32 option"

definition resched :: "'w \<Rightarrow> u32 \<Rightarrow> 'w workq \<Rightarrow> 'w workq" where
  "resched w d q = q(w := Some d)"

definition sched :: "'w \<Rightarrow> u32 \<Rightarrow> 'w workq \<Rightarrow> 'w workq" where
  "sched w d q = (case q w of None \<Rightarrow> q(w := Some d) | Some _ \<Rightarrow> q)"

definition submit :: "'w \<Rightarrow> 'w workq \<Rightarrow> 'w workq" where
  "submit w q = q(w := Some 0)"

definition cancel :: "'w \<Rightarrow> 'w workq \<Rightarrow> 'w workq" where
  "cancel w q = q(w := None)"

definition no_work :: "'w workq" where
  "no_work = (\<lambda>_. None)"

lemma resched_apply [simp, wq_simps]: "resched w d q v = (if v = w then Some d else q v)"
  by (simp add: resched_def)

lemma submit_apply [simp, wq_simps]: "submit w q v = (if v = w then Some 0 else q v)"
  by (simp add: submit_def)

lemma cancel_apply [simp, wq_simps]: "cancel w q v = (if v = w then None else q v)"
  by (simp add: cancel_def)

lemma sched_apply [simp, wq_simps]:
  "sched w d q v = (if v = w \<and> q w = None then Some d else q v)"
  by (auto simp: sched_def split: option.splits)

lemma no_work_apply [simp, wq_simps]: "no_work v = None"
  by (simp add: no_work_def)

section \<open>Invariants of step relations\<close>

text \<open>
  A property that every step keeps holds after any number of steps, and after any run of operations
  each of which is a step. The components state their invariants through this.
\<close>

locale step_invariant =
  fixes step :: "'s \<Rightarrow> 's \<Rightarrow> bool" and inv :: "'s \<Rightarrow> bool"
  assumes step_keeps: "step s s' \<Longrightarrow> inv s \<Longrightarrow> inv s'"
begin

lemma reached_keeps: "step\<^sup>*\<^sup>* s s' \<Longrightarrow> inv s \<Longrightarrow> inv s'"
  by (induction rule: rtranclp_induct) (auto intro: step_keeps)

lemma run_keeps:
  assumes "\<And>e s. step s (f e s)" "inv s"
  shows "inv (fold f es s)"
  using assms(2) by (induction es arbitrary: s) (simp_all add: step_keeps [OF assms(1)])

end

end
