(* ===== verification/Config.thy ===== *)
theory Config
  imports Prelude
begin

text \<open>
  The Kconfig options the modelled code reads (\<open>src/Kconfig\<close>), as one record that every
  operation takes as its first argument. \<open>kconfig_ok\<close> collects the Kconfig ranges and the
  BUILD_ASSERTs the proofs use; \<open>default_kconfig\<close> holds the default values.
  The build modelled has CHANNEL_HOP, COOP_HOP, RENDEZVOUS, ADAPTIVE_RETRY,
  CRITICAL_MAX_RETRANSMIT, CHANNEL_RSSI_WEIGHT, CHANNEL_QUARANTINE_PERSIST and BENCH on and
  SHELL_RELAY and ADAPTIVE_FEEDBACK off; HID_NOACK is a field. RUNTIME_CONFIG is off when
  \<open>c_persist_rt\<close> is \<open>None\<close>; otherwise it is the value that \<open>ZRC_GET\<close> answers for the one key used.
\<close>

record kconfig =
  c_max_payload :: nat
  c_tx_fifo :: nat
  c_rx_fifo :: nat
  c_pipe_count :: nat
  c_hid_noack :: bool
  c_retransmit_count :: nat
  c_retransmit_delay_us :: nat
  c_pointer_retransmit :: nat
  c_critical_retransmit :: nat
  c_motion_ring :: nat
  c_crit_ring :: nat
  c_noack_ring :: nat
  c_inflight_cap :: nat
  c_refund_stale_ms :: u32
  c_lq_window :: nat
  c_degraded_threshold :: nat
  c_degraded_rearm :: nat
  c_degraded_fast :: nat
  c_adaptive_low :: nat
  c_adaptive_high :: nat
  c_adaptive_min :: nat
  c_adaptive_max :: nat
  c_adaptive_interval_ms :: u32
  c_hid_resync_delay_ms :: u32
  c_tx_fail_window_ms :: u32
  c_weak_link_ms :: u32
  c_post_quiet_ms :: u32
  c_stop_tx_after_busy :: nat
  c_hop_retry_delay_ms :: u32
  c_hop_cooldown_ms :: u32
  c_quarantine_ms :: u32
  c_min_distance :: nat
  c_persist_n :: nat
  c_persist_rt :: "nat option"
  c_persist_threshold :: nat
  c_persist_interval_ms :: u32
  c_persist_decay_s :: u32
  c_rssi_scale :: int
  c_rssi_min :: int
  c_rssi_max :: int
  c_rssi_alpha :: int
  c_rssi_persist_ms :: u32
  c_negotiate_interval_ms :: u32
  c_negotiate_retry_ms :: u32
  c_request_burst :: nat
  c_idle_threshold_ms :: u32
  c_burst_count :: nat
  c_burst_interval_ms :: u32
  c_burst_rdv_every :: nat
  c_rdv_fallback_ms :: u32
  c_rdv_hold_ms :: u32
  c_coop_hop_in_ms :: nat
  c_coop_cooldown_ms :: u32
  c_coop_quarantine_ms :: u32
  c_beacon_interval_ms :: u32
  c_beacon_initial_ms :: u32
  c_verify_interval_ms :: u32
  c_kb_depth :: nat
  c_cons_depth :: nat
  c_hid_retry_ms :: u32
  c_btn_depth :: nat
  c_ip_retry_ms :: u32
  c_motion_stale_ms :: u32
  c_flush_quiet_ms :: u32
  c_flush_force_ms :: u32
  c_bench_duration_s :: nat
  c_bench_poll_ms :: u32
  c_bench_timeout_ms :: u32

definition default_kconfig :: kconfig where
  "default_kconfig = \<lparr>
     c_max_payload = 32, c_tx_fifo = 8, c_rx_fifo = 8, c_pipe_count = 2,
     c_hid_noack = False, c_retransmit_count = 5, c_retransmit_delay_us = 610,
     c_pointer_retransmit = 4, c_critical_retransmit = 14,
     c_motion_ring = 48, c_crit_ring = 16, c_noack_ring = 16, c_inflight_cap = 5,
     c_refund_stale_ms = 200, c_lq_window = 24, c_degraded_threshold = 5,
     c_degraded_rearm = 3, c_degraded_fast = 3,
     c_adaptive_low = 12, c_adaptive_high = 30, c_adaptive_min = 3, c_adaptive_max = 12,
     c_adaptive_interval_ms = 25, c_hid_resync_delay_ms = 12,
     c_tx_fail_window_ms = 85, c_weak_link_ms = 135, c_post_quiet_ms = 1,
     c_stop_tx_after_busy = 2, c_hop_retry_delay_ms = 2, c_hop_cooldown_ms = 360,
     c_quarantine_ms = 300000, c_min_distance = 5, c_persist_n = 5, c_persist_rt = None,
     c_persist_threshold = 3, c_persist_interval_ms = 1200000, c_persist_decay_s = 86400,
     c_rssi_scale = 1000, c_rssi_min = 500, c_rssi_max = 2000, c_rssi_alpha = 200,
     c_rssi_persist_ms = 1200000, c_negotiate_interval_ms = 15000,
     c_negotiate_retry_ms = 50, c_request_burst = 2, c_idle_threshold_ms = 50,
     c_burst_count = 7, c_burst_interval_ms = 25, c_burst_rdv_every = 4,
     c_rdv_fallback_ms = 330, c_rdv_hold_ms = 685, c_coop_hop_in_ms = 4,
     c_coop_cooldown_ms = 1200, c_coop_quarantine_ms = 120000,
     c_beacon_interval_ms = 50, c_beacon_initial_ms = 10, c_verify_interval_ms = 250,
     c_kb_depth = 8, c_cons_depth = 5, c_hid_retry_ms = 1, c_btn_depth = 20,
     c_ip_retry_ms = 1, c_motion_stale_ms = 1000,
     c_flush_quiet_ms = 0, c_flush_force_ms = 1, c_bench_duration_s = 10,
     c_bench_poll_ms = 50, c_bench_timeout_ms = 1500 \<rparr>"

text \<open>The default values, field by field, so that closed witnesses never unfold the whole record.\<close>

lemma default_sel [simp]:
  "c_max_payload default_kconfig = 32" "c_tx_fifo default_kconfig = 8"
  "c_rx_fifo default_kconfig = 8" "c_pipe_count default_kconfig = 2"
  "\<not> c_hid_noack default_kconfig" "c_retransmit_count default_kconfig = 5"
  "c_retransmit_delay_us default_kconfig = 610" "c_pointer_retransmit default_kconfig = 4"
  "c_critical_retransmit default_kconfig = 14" "c_motion_ring default_kconfig = 48"
  "c_crit_ring default_kconfig = 16" "c_noack_ring default_kconfig = 16"
  "c_inflight_cap default_kconfig = 5" "c_refund_stale_ms default_kconfig = 200"
  "c_lq_window default_kconfig = 24" "c_degraded_threshold default_kconfig = 5"
  "c_degraded_rearm default_kconfig = 3" "c_degraded_fast default_kconfig = 3"
  "c_adaptive_low default_kconfig = 12" "c_adaptive_high default_kconfig = 30"
  "c_adaptive_min default_kconfig = 3" "c_adaptive_max default_kconfig = 12"
  "c_adaptive_interval_ms default_kconfig = 25" "c_hid_resync_delay_ms default_kconfig = 12"
  "c_tx_fail_window_ms default_kconfig = 85" "c_weak_link_ms default_kconfig = 135"
  "c_post_quiet_ms default_kconfig = 1" "c_stop_tx_after_busy default_kconfig = 2"
  "c_hop_retry_delay_ms default_kconfig = 2" "c_hop_cooldown_ms default_kconfig = 360"
  "c_quarantine_ms default_kconfig = 300000" "c_min_distance default_kconfig = 5"
  "c_persist_rt default_kconfig = None" "c_persist_n default_kconfig = 5" "c_persist_threshold default_kconfig = 3"
  "c_persist_interval_ms default_kconfig = 1200000" "c_persist_decay_s default_kconfig = 86400"
  "c_rssi_scale default_kconfig = 1000" "c_rssi_min default_kconfig = 500"
  "c_rssi_max default_kconfig = 2000" "c_rssi_alpha default_kconfig = 200"
  "c_rssi_persist_ms default_kconfig = 1200000" "c_negotiate_interval_ms default_kconfig = 15000"
  "c_negotiate_retry_ms default_kconfig = 50" "c_request_burst default_kconfig = 2"
  "c_idle_threshold_ms default_kconfig = 50" "c_burst_count default_kconfig = 7"
  "c_burst_interval_ms default_kconfig = 25" "c_burst_rdv_every default_kconfig = 4"
  "c_rdv_fallback_ms default_kconfig = 330" "c_rdv_hold_ms default_kconfig = 685"
  "c_coop_hop_in_ms default_kconfig = 4" "c_coop_cooldown_ms default_kconfig = 1200"
  "c_coop_quarantine_ms default_kconfig = 120000" "c_beacon_interval_ms default_kconfig = 50"
  "c_beacon_initial_ms default_kconfig = 10" "c_verify_interval_ms default_kconfig = 250"
  "c_kb_depth default_kconfig = 8" "c_cons_depth default_kconfig = 5"
  "c_hid_retry_ms default_kconfig = 1" "c_btn_depth default_kconfig = 20"
  "c_ip_retry_ms default_kconfig = 1" "c_motion_stale_ms default_kconfig = 1000"
  "c_flush_quiet_ms default_kconfig = 0" "c_flush_force_ms default_kconfig = 1"
  "c_bench_duration_s default_kconfig = 10" "c_bench_poll_ms default_kconfig = 50"
  "c_bench_timeout_ms default_kconfig = 1500"
  by (simp_all add: default_kconfig_def)

definition is_pow2 :: "nat \<Rightarrow> bool" where
  "is_pow2 n \<longleftrightarrow> n \<in> {2, 4, 8, 16, 32, 64}"

text \<open>
  Kconfig ranges (\<open>src/Kconfig\<close>) and the BUILD_ASSERTs of \<open>channel_hop_ep.c\<close> and
  \<open>esb_transport.c\<close>. A power of two in the range 2..64 is written out as a set.
\<close>

definition kconfig_ok :: "kconfig \<Rightarrow> bool" where
  "kconfig_ok c \<longleftrightarrow>
     c_max_payload c = 32 \<and> 1 \<le> c_tx_fifo c \<and> 1 \<le> c_rx_fifo c \<and> 2 \<le> c_pipe_count c
   \<and> c_retransmit_count c \<le> 15 \<and> c_pointer_retransmit c \<le> 15 \<and> c_critical_retransmit c \<le> 15
   \<and> 2 \<le> c_motion_ring c \<and> c_motion_ring c \<le> 64
   \<and> is_pow2 (c_crit_ring c) \<and> is_pow2 (c_noack_ring c)
   \<and> 1 \<le> c_inflight_cap c \<and> c_inflight_cap c \<le> 32
   \<and> 8 \<le> c_lq_window c \<and> c_lq_window c \<le> 32
   \<and> 10 \<le> c_adaptive_low c \<and> c_adaptive_low c \<le> 100
   \<and> 11 \<le> c_adaptive_high c \<and> c_adaptive_high c \<le> 200
   \<and> c_adaptive_min c \<le> 15 \<and> c_adaptive_max c \<le> 15
   \<and> unat (c_hop_cooldown_ms c) \<le> 10000
   \<and> (c_weak_link_ms c = 0 \<or> c_tx_fail_window_ms c < c_weak_link_ms c)
   \<and> (c_rdv_fallback_ms c = 0 \<or> c_rdv_fallback_ms c < c_hop_cooldown_ms c)
   \<and> c_post_quiet_ms c \<le> c_motion_stale_ms c
   \<and> unat (c_post_quiet_ms c) \<le> 1000 \<and> unat (c_motion_stale_ms c) \<le> 5000
   \<and> 1000 \<le> unat (c_quarantine_ms c) \<and> unat (c_quarantine_ms c) \<le> 600000
   \<and> 100 \<le> unat (c_coop_quarantine_ms c) \<and> unat (c_coop_quarantine_ms c) \<le> 600000
   \<and> c_min_distance c \<le> 20
   \<and> 1 \<le> c_persist_n c \<and> c_persist_n c \<le> 32
   \<and> 1 \<le> c_persist_threshold c \<and> c_persist_threshold c \<le> 255
   \<and> 10 \<le> c_rssi_scale c \<and> c_rssi_scale c \<le> 100000
   \<and> 1 \<le> c_rssi_min c \<and> c_rssi_min c < c_rssi_max c \<and> c_rssi_max c \<le> 100000
   \<and> 1 \<le> c_rssi_alpha c \<and> c_rssi_alpha c \<le> c_rssi_scale c
   \<and> 1 \<le> c_request_burst c \<and> c_request_burst c \<le> 50
   \<and> c_burst_count c \<le> 50 \<and> c_burst_rdv_every c \<le> 50
   \<and> unat (c_rdv_hold_ms c) \<le> 60000
   \<and> 2 \<le> c_coop_hop_in_ms c \<and> c_coop_hop_in_ms c \<le> 50
   \<and> 100 \<le> unat (c_coop_cooldown_ms c) \<and> unat (c_coop_cooldown_ms c) \<le> 30000
   \<and> 1 \<le> c_kb_depth c \<and> c_kb_depth c \<le> 64
   \<and> 1 \<le> c_cons_depth c \<and> c_cons_depth c \<le> 64
   \<and> 1 \<le> c_btn_depth c \<and> c_btn_depth c \<le> 32
   \<and> 1 \<le> c_bench_duration_s c \<and> c_bench_duration_s c \<le> 60
   \<and> 1 \<le> c_stop_tx_after_busy c \<and> c_stop_tx_after_busy c \<le> 20"

lemma kconfig_ok_default [simp]: "kconfig_ok default_kconfig"
  by (simp add: kconfig_ok_def default_kconfig_def is_pow2_def)

lemma kconfig_okD:
  assumes "kconfig_ok c"
  shows "c_max_payload c = 32" and "1 \<le> c_tx_fifo c" and "2 \<le> c_pipe_count c"
    and "2 \<le> c_motion_ring c" and "8 \<le> c_lq_window c" and "c_lq_window c \<le> 32"
    and "1 \<le> c_persist_n c" and "c_persist_n c \<le> 32" and "1 \<le> c_persist_threshold c"
    and "1 \<le> c_rssi_min c" and "c_rssi_min c < c_rssi_max c" and "c_rssi_max c \<le> 100000"
    and "1 \<le> c_rssi_alpha c" and "c_rssi_alpha c \<le> c_rssi_scale c"
    and "1 \<le> c_kb_depth c" and "1 \<le> c_cons_depth c" and "1 \<le> c_btn_depth c"
  using assms by (simp_all add: kconfig_ok_def)

lemma kconfig_small:
  assumes "kconfig_ok c"
  shows "c_retransmit_count c \<le> 15" "c_adaptive_min c \<le> 15" "c_adaptive_max c \<le> 15" "c_motion_ring c \<le> 64"
    "c_coop_hop_in_ms c \<le> 50" "c_request_burst c \<le> 50" "c_burst_count c \<le> 50"
  using assms by (simp_all add: kconfig_ok_def)

lemma kconfig_depths:
  assumes "kconfig_ok c"
  shows "1 \<le> c_kb_depth c" "1 \<le> c_cons_depth c" "1 \<le> c_btn_depth c"
  using assms by (simp_all add: kconfig_ok_def)

end
