(* ===== verification/Protocol.thy ===== *)
theory Protocol
  imports Config
begin

text \<open>
  The packets of \<open>src/include/zmk_esb/protocol.h\<close>: one constructor per packed struct, its layout in
  memory (\<open>layout\<close>, the bytes handed to the radio). The receivers read received frames at the offsets
  of these structs, after the checks of their own. Multi-byte fields are little endian.
\<close>

section \<open>Little-endian fields\<close>

definition le32 :: "u32 \<Rightarrow> bytes" where
  "le32 w = [ucast w, ucast (drop_bit 8 w), ucast (drop_bit 16 w), ucast (drop_bit 24 w)]"

definition rd32 :: "bytes \<Rightarrow> u32" where
  "rd32 b = ucast (b ! 0) OR push_bit 8 (ucast (b ! 1)) OR push_bit 16 (ucast (b ! 2))
            OR push_bit 24 (ucast (b ! 3))"

lemma length_le32 [simp]: "length (le32 w) = 4"
  by (simp add: le32_def)

lemma rd32_le32 [simp]: "rd32 (le32 w @ rest) = w"
proof (rule bit_word_eqI)
  fix n assume "n < LENGTH(32)"
  then have "n < 8 \<or> 8 \<le> n \<and> n < 16 \<or> 16 \<le> n \<and> n < 24 \<or> 24 \<le> n \<and> n < 32" by auto
  then show "bit (rd32 (le32 w @ rest)) n = bit w n"
    by (auto simp: rd32_def le32_def bit_simps)
qed

lemma rd32_le32_nil [simp]: "rd32 (le32 w) = w"
  using rd32_le32 [of w "[]"] by simp

text \<open>A byte read through an \<open>int8_t\<close> pointer, and an \<open>int8_t\<close> stored in a byte.\<close>

definition as_i8 :: "u8 \<Rightarrow> int" where
  "as_i8 b = sint b"

definition of_i8 :: "int \<Rightarrow> u8" where
  "of_i8 x = word_of_int x"

lemma in_i8_as_i8 [simp]: "in_i8 (as_i8 b)"
  using sint_ge [of b] sint_lt [of b] by (simp add: as_i8_def in_i8_def)

lemma as_i8_of_i8 [simp]: "in_i8 x \<Longrightarrow> as_i8 (of_i8 x) = x"
  by (simp add: as_i8_def of_i8_def in_i8_def sint_sbintrunc' signed_take_bit_int_eq_self)

section \<open>Constants\<close>

abbreviation (input) pkt_beacon :: u8 where "pkt_beacon \<equiv> 0x01"
abbreviation (input) pkt_pair_req :: u8 where "pkt_pair_req \<equiv> 0x02"
abbreviation (input) pkt_pair_resp :: u8 where "pkt_pair_resp \<equiv> 0x03"
abbreviation (input) pkt_hid_report :: u8 where "pkt_hid_report \<equiv> 0x06"
abbreviation (input) pkt_disconnect :: u8 where "pkt_disconnect \<equiv> 0x07"
abbreviation (input) pkt_shell_req :: u8 where "pkt_shell_req \<equiv> 0x08"
abbreviation (input) pkt_shell_stop :: u8 where "pkt_shell_stop \<equiv> 0x09"
abbreviation (input) pkt_shell_data :: u8 where "pkt_shell_data \<equiv> 0x0A"
abbreviation (input) pkt_shell_poll :: u8 where "pkt_shell_poll \<equiv> 0x0B"
abbreviation (input) pkt_bench_ping :: u8 where "pkt_bench_ping \<equiv> 0x0C"
abbreviation (input) pkt_bench_stop :: u8 where "pkt_bench_stop \<equiv> 0x0D"
abbreviation (input) pkt_bench_result :: u8 where "pkt_bench_result \<equiv> 0x0E"
abbreviation (input) pkt_shell_bg_poll :: u8 where "pkt_shell_bg_poll \<equiv> 0x0F"
abbreviation (input) pkt_verify_req :: u8 where "pkt_verify_req \<equiv> 0x10"
abbreviation (input) pkt_verify_resp :: u8 where "pkt_verify_resp \<equiv> 0x11"
abbreviation (input) pkt_shell_start :: u8 where "pkt_shell_start \<equiv> 0x12"
abbreviation (input) pkt_resync :: u8 where "pkt_resync \<equiv> 0x13"
abbreviation (input) pkt_hop_proposal :: u8 where "pkt_hop_proposal \<equiv> 0x14"
abbreviation (input) pkt_hop_confirm :: u8 where "pkt_hop_confirm \<equiv> 0x15"
abbreviation (input) pkt_hop_request :: u8 where "pkt_hop_request \<equiv> 0x16"
abbreviation (input) pkt_idle :: u8 where "pkt_idle \<equiv> 0x17"
abbreviation (input) pkt_hop_offer :: u8 where "pkt_hop_offer \<equiv> 0x18"
abbreviation (input) pkt_hop_accept :: u8 where "pkt_hop_accept \<equiv> 0x19"
abbreviation (input) pkt_link_stats :: u8 where "pkt_link_stats \<equiv> 0x1A"

abbreviation (input) report_keyboard :: u8 where "report_keyboard \<equiv> 0x00"
abbreviation (input) report_consumer :: u8 where "report_consumer \<equiv> 0x01"
abbreviation (input) report_mouse :: u8 where "report_mouse \<equiv> 0x02"

abbreviation (input) pipe_pairing :: nat where "pipe_pairing \<equiv> 0"
abbreviation (input) pipe_data :: nat where "pipe_data \<equiv> 1"

section \<open>The packed structs\<close>

datatype pkt =
    Beacon bytes u8
  | Pair_Req bytes
  | Pair_Resp bytes u8
  | Hid_Report u8 bytes
  | Disconnect
  | Shell_Req | Shell_Stop | Shell_Poll | Shell_Bg_Poll | Shell_Start
  | Shell_Data u8 bytes
  | Verify_Req bytes
  | Verify_Resp bytes
  | Resync
  | Bench_Ping u8 bytes
  | Bench_Stop
  | Bench_Result int int int u32
  | Hop_Proposal u8 u8
  | Hop_Confirm u8 u8
  | Hop_Request
  | Idle
  | Hop_Offer u8 u8 u8
  | Hop_Accept u8 u8 u8
  | Link_Stats int int

fun layout :: "pkt \<Rightarrow> bytes" where
  "layout (Beacon dev caps) = pkt_beacon # dev @ [caps]"
| "layout (Pair_Req dev) = pkt_pair_req # dev"
| "layout (Pair_Resp dev caps) = pkt_pair_resp # dev @ [caps]"
| "layout (Hid_Report rt body) = pkt_hid_report # rt # body"
| "layout Disconnect = [pkt_disconnect]"
| "layout Shell_Req = [pkt_shell_req]"
| "layout Shell_Stop = [pkt_shell_stop]"
| "layout Shell_Poll = [pkt_shell_poll]"
| "layout Shell_Bg_Poll = [pkt_shell_bg_poll]"
| "layout Shell_Start = [pkt_shell_start]"
| "layout (Shell_Data n body) = pkt_shell_data # n # body"
| "layout (Verify_Req dev) = pkt_verify_req # dev"
| "layout (Verify_Resp dev) = pkt_verify_resp # dev"
| "layout Resync = [pkt_resync]"
| "layout (Bench_Ping sq rnd) = pkt_bench_ping # sq # rnd"
| "layout Bench_Stop = [pkt_bench_stop]"
| "layout (Bench_Result avg lo hi n) =
     pkt_bench_result # of_i8 avg # of_i8 lo # of_i8 hi # le32 n"
| "layout (Hop_Proposal p c) = [pkt_hop_proposal, p, c]"
| "layout (Hop_Confirm a acc) = [pkt_hop_confirm, a, acc]"
| "layout Hop_Request = [pkt_hop_request]"
| "layout Idle = [pkt_idle]"
| "layout (Hop_Offer t h s) = [pkt_hop_offer, t, h, s]"
| "layout (Hop_Accept a acc s) = [pkt_hop_accept, a, acc, s]"
| "layout (Link_Stats l e) = [pkt_link_stats, of_i8 l, of_i8 e]"

text \<open>The values a struct can hold: six-byte ids, bodies within the struct, signed bytes.\<close>

fun pkt_ok :: "pkt \<Rightarrow> bool" where
  "pkt_ok (Beacon dev _) \<longleftrightarrow> length dev = 6"
| "pkt_ok (Pair_Req dev) \<longleftrightarrow> length dev = 6"
| "pkt_ok (Pair_Resp dev _) \<longleftrightarrow> length dev = 6"
| "pkt_ok (Hid_Report _ body) \<longleftrightarrow> length body \<le> 30"
| "pkt_ok (Shell_Data n body) \<longleftrightarrow> length body \<le> 30"
| "pkt_ok (Verify_Req dev) \<longleftrightarrow> length dev = 6"
| "pkt_ok (Verify_Resp dev) \<longleftrightarrow> length dev = 6"
| "pkt_ok (Bench_Ping _ rnd) \<longleftrightarrow> length rnd \<le> 30"
| "pkt_ok (Bench_Result a lo hi _) \<longleftrightarrow> in_i8 a \<and> in_i8 lo \<and> in_i8 hi"
| "pkt_ok (Link_Stats l e) \<longleftrightarrow> in_i8 l \<and> in_i8 e"
| "pkt_ok _ \<longleftrightarrow> True"

lemma length_layout_le: "pkt_ok p \<Longrightarrow> length (layout p) \<le> 32"
  by (cases p) auto

end
