(* ===== verification/ChannelHop.thy ===== *)
theory ChannelHop
  imports Config
begin

text \<open>
  The selection logic of \<open>src/src/esb/channel_hop.c\<close> and its header: the xorshift generator,
  the per-channel RSSI average, timed and persistent quarantine, and the picker that relaxes
  the distance to quarantined channels until a candidate remains. The clock and the cycle
  counter are arguments. Channel numbers are \<open>nat\<close> (the code's \<open>uint8_t\<close>).
\<close>

abbreviation (input) channel_count :: nat where "channel_count \<equiv> 101"
abbreviation (input) channel_invalid :: nat where "channel_invalid \<equiv> 255"
abbreviation (input) rssi_none :: int where "rssi_none \<equiv> 127"

section \<open>State\<close>

record persistent_quarantine =
  pq_channels :: "nat list"
  pq_count :: nat

record quarantine_state =
  expires_at :: "u32 list"
  persistent :: persistent_quarantine

type_synonym rssi_state = "int list"

section \<open>Pseudo-random numbers\<close>

definition prng_seed :: "u32 \<Rightarrow> u32 \<Rightarrow> u32 \<Rightarrow> u32" where
  "prng_seed now cyc s = (if s = 0 then
     (let s1 = now XOR (cyc * 2654435761) in if s1 = 0 then 0xdeadbeef else s1) else s)"

definition xorshift :: "u32 \<Rightarrow> u32" where
  "xorshift x0 = (let x1 = x0 XOR push_bit 13 x0;
                      x2 = x1 XOR drop_bit 17 x1
                  in x2 XOR push_bit 5 x2)"

text \<open>The drawn number is also the new state.\<close>

definition prng_next :: "u32 \<Rightarrow> u32 \<Rightarrow> u32 \<Rightarrow> u32" where
  "prng_next now cyc s = xorshift (prng_seed now cyc s)"

section \<open>Per-channel RSSI average\<close>

definition channel_rssi_reset :: rssi_state where
  "channel_rssi_reset = replicate channel_count rssi_none"

definition ewma_blend :: "kconfig \<Rightarrow> int \<Rightarrow> int \<Rightarrow> int" where
  "ewma_blend cfg sample old =
     cdiv (c_rssi_alpha cfg * sample + (c_rssi_scale cfg - c_rssi_alpha cfg) * old) (c_rssi_scale cfg)"

definition channel_rssi_update :: "kconfig \<Rightarrow> rssi_state \<Rightarrow> nat \<Rightarrow> int \<Rightarrow> rssi_state" where
  "channel_rssi_update cfg r channel sample =
     (if channel_count \<le> channel then r
      else if r ! channel = rssi_none then r[channel := sample]
      else r[channel := i8 (ewma_blend cfg sample (r ! channel))])"

definition channel_rssi_get :: "rssi_state \<Rightarrow> nat \<Rightarrow> int option" where
  "channel_rssi_get r channel =
     (if channel_count \<le> channel \<or> r ! channel = rssi_none then None else Some (r ! channel))"

section \<open>Quarantine\<close>

definition persistent_quarantine_contains :: "persistent_quarantine \<Rightarrow> nat \<Rightarrow> bool" where
  "persistent_quarantine_contains p channel =
     list_ex (\<lambda>c. c = channel) (take (pq_count p) (pq_channels p))"

definition quarantine_reset :: "quarantine_state \<Rightarrow> quarantine_state" where
  "quarantine_reset q = q\<lparr>expires_at := replicate channel_count 0,
                          persistent := (persistent q)\<lparr>pq_count := 0\<rparr>\<rparr>"

definition quarantine_add :: "u32 \<Rightarrow> quarantine_state \<Rightarrow> nat \<Rightarrow> u32 \<Rightarrow> quarantine_state" where
  "quarantine_add now q channel hold =
     (if channel_count \<le> channel then q
      else let new_expiry = now + hold in
        if expires_at q ! channel < new_expiry
        then q\<lparr>expires_at := (expires_at q)[channel := new_expiry]\<rparr>
        else q)"

definition timed_quarantine_is :: "u32 \<Rightarrow> quarantine_state \<Rightarrow> nat \<Rightarrow> bool" where
  "timed_quarantine_is now q channel =
     (let e = expires_at q ! channel in if e = 0 then False else before_deadline e now)"

definition quarantine_is :: "u32 \<Rightarrow> quarantine_state \<Rightarrow> nat \<Rightarrow> bool" where
  "quarantine_is now q channel =
     (if channel_count \<le> channel then True
      else if persistent_quarantine_contains (persistent q) channel then True
      else timed_quarantine_is now q channel)"

definition quarantine_count :: "u32 \<Rightarrow> quarantine_state \<Rightarrow> nat" where
  "quarantine_count now q =
     fold (\<lambda>ch n. if quarantine_is now q ch then n + 1 else n) [0..<channel_count] 0"

definition within_distance_of_quarantine :: "u32 \<Rightarrow> quarantine_state \<Rightarrow> nat \<Rightarrow> nat \<Rightarrow> bool" where
  "within_distance_of_quarantine now q channel distance =
     list_ex (\<lambda>i. \<not> (i < 0 \<or> int channel_count \<le> i) \<and> i \<noteq> int channel
                   \<and> timed_quarantine_is now q (nat i))
       [int channel - int distance .. int channel + int distance]"

definition within_distance_of_persistent :: "quarantine_state \<Rightarrow> nat \<Rightarrow> nat \<Rightarrow> bool" where
  "within_distance_of_persistent q channel distance =
     list_ex (\<lambda>i. \<not> (i < 0 \<or> int channel_count \<le> i \<or> i = int channel)
                   \<and> persistent_quarantine_contains (persistent q) (nat i))
       [int channel - int distance .. int channel + int distance]"

section \<open>The weighted draw\<close>

definition candidate_weight :: "kconfig \<Rightarrow> rssi_state \<Rightarrow> int \<Rightarrow> int \<Rightarrow> nat \<Rightarrow> int" where
  "candidate_weight cfg rssi lo hi channel =
     (let w_min = c_rssi_min cfg; w_max = c_rssi_max cfg in
      case channel_rssi_get rssi channel of
        None \<Rightarrow> cdiv (w_min + w_max) 2
      | Some s \<Rightarrow> if hi = lo then cdiv (w_min + w_max) 2
                   else w_min + cdiv ((w_max - w_min) * (s - lo)) (hi - lo))"

text \<open>First pass: lowest and highest sample among the candidates (\<open>None\<close> while \<open>any\<close> is false).\<close>

fun rssi_range :: "rssi_state \<Rightarrow> (int \<times> int) option \<Rightarrow> nat list \<Rightarrow> (int \<times> int) option" where
  "rssi_range rssi acc [] = acc"
| "rssi_range rssi acc (c # cs) =
     (case channel_rssi_get rssi c of
        None \<Rightarrow> rssi_range rssi acc cs
      | Some s \<Rightarrow> rssi_range rssi
          (case acc of None \<Rightarrow> Some (s, s)
           | Some (lo, hi) \<Rightarrow> Some (if s < lo then s else lo, if s > hi then s else hi)) cs)"

fun weight_walk :: "(nat \<Rightarrow> int) \<Rightarrow> int \<Rightarrow> nat \<Rightarrow> nat list \<Rightarrow> nat" where
  "weight_walk w r i [] = i - 1"
| "weight_walk w r i (c # cs) =
     (let r' = r - w c in if r' < 0 then i else weight_walk w r' (Suc i) cs)"

definition total_weight :: "(nat \<Rightarrow> int) \<Rightarrow> nat list \<Rightarrow> int" where
  "total_weight w cs = foldl (\<lambda>t c. t + w c) 0 cs"

definition weighted_index :: "kconfig \<Rightarrow> u32 \<Rightarrow> nat list \<Rightarrow> rssi_state \<Rightarrow> nat" where
  "weighted_index cfg drawn candidates rssi =
     (case rssi_range rssi None candidates of
        None \<Rightarrow> unat drawn mod length candidates
      | Some (lo, hi) \<Rightarrow>
          let w = candidate_weight cfg rssi lo hi;
              total = total_weight w candidates
          in weight_walk w (int (unat drawn) mod total) 0 candidates)"

section \<open>The picker\<close>

definition candidate_ok :: "u32 \<Rightarrow> quarantine_state \<Rightarrow> nat \<Rightarrow> nat \<Rightarrow> nat \<Rightarrow> bool" where
  "candidate_ok now q avoid d ch =
     (if quarantine_is now q ch then False
      else if ch = avoid then False
      else if 0 < d \<and> within_distance_of_quarantine now q ch d then False
      else if 1 < d \<and> within_distance_of_persistent q ch (d div 2) then False
      else if 0 < d \<and> avoid < channel_count \<and> \<bar>int ch - int avoid\<bar> \<le> int d then False
      else True)"

definition candidates :: "u32 \<Rightarrow> quarantine_state \<Rightarrow> nat \<Rightarrow> nat \<Rightarrow> nat list" where
  "candidates now q avoid d = filter (candidate_ok now q avoid d) [0..<channel_count]"

text \<open>The loop over the distance: the first non-empty candidate array, from \<open>d\<close> downwards.\<close>

fun relax :: "(nat \<Rightarrow> nat list) \<Rightarrow> nat \<Rightarrow> nat list" where
  "relax cs 0 = cs 0"
| "relax cs (Suc d) = (if cs (Suc d) \<noteq> [] then cs (Suc d) else relax cs d)"

definition channel_hop_pick_weighted ::
  "kconfig \<Rightarrow> u32 \<Rightarrow> u32 \<Rightarrow> u32 \<Rightarrow> quarantine_state \<Rightarrow> nat \<Rightarrow> nat \<Rightarrow> rssi_state option
   \<Rightarrow> nat \<times> u32" where
  "channel_hop_pick_weighted cfg now cyc prng q min_distance avoid rssi =
     (let cs = relax (candidates now q avoid) min_distance in
      if cs = [] then (channel_invalid, prng)
      else let drawn = prng_next now cyc prng in
        case rssi of
          Some r \<Rightarrow> (cs ! weighted_index cfg drawn cs r, drawn)
        | None \<Rightarrow> (cs ! (unat drawn mod length cs), drawn))"

definition channel_hop_pick ::
  "kconfig \<Rightarrow> u32 \<Rightarrow> u32 \<Rightarrow> u32 \<Rightarrow> quarantine_state \<Rightarrow> nat \<Rightarrow> nat \<Rightarrow> nat \<times> u32" where
  "channel_hop_pick cfg now cyc prng q min_distance avoid =
     channel_hop_pick_weighted cfg now cyc prng q min_distance avoid None"

section \<open>Well-formed state\<close>

definition quarantine_wf :: "kconfig \<Rightarrow> quarantine_state \<Rightarrow> bool" where
  "quarantine_wf cfg q \<longleftrightarrow>
     length (expires_at q) = channel_count
   \<and> length (pq_channels (persistent q)) = c_persist_n cfg
   \<and> pq_count (persistent q) \<le> c_persist_n cfg"

definition rssi_wf :: "rssi_state \<Rightarrow> bool" where
  "rssi_wf r \<longleftrightarrow> length r = channel_count \<and> (\<forall>x \<in> set r. in_i8 x)"

lemma rssi_wf_nth: "rssi_wf r \<Longrightarrow> ch < channel_count \<Longrightarrow> in_i8 (r ! ch)"
  by (simp add: rssi_wf_def)

lemma rssi_wf_update: "rssi_wf r \<Longrightarrow> in_i8 x \<Longrightarrow> rssi_wf (r[ch := x])"
  using set_update_subset_insert [of r ch x] by (auto simp: rssi_wf_def)

lemma rssi_wf_reset [simp]: "rssi_wf channel_rssi_reset"
  by (simp add: rssi_wf_def channel_rssi_reset_def in_i8_def)

lemma rssi_get_i8: "rssi_wf r \<Longrightarrow> channel_rssi_get r ch = Some s \<Longrightarrow> in_i8 s"
  by (auto simp: channel_rssi_get_def rssi_wf_nth split: if_splits)

lemma quarantine_wf_add [simp]: "quarantine_wf cfg q \<Longrightarrow> quarantine_wf cfg (quarantine_add now q ch hold)"
  by (simp add: quarantine_wf_def quarantine_add_def Let_def)

lemma quarantine_wf_reset: "quarantine_wf cfg q \<Longrightarrow> quarantine_wf cfg (quarantine_reset q)"
  by (simp add: quarantine_wf_def quarantine_reset_def)

lemma persistent_add [simp]: "persistent (quarantine_add now q ch hold) = persistent q"
  by (simp add: quarantine_add_def Let_def)

section \<open>RSSI average\<close>

lemma ewma_blend_between:
  assumes cfg: "kconfig_ok cfg" and "lo \<le> sample" "lo \<le> old" "sample \<le> hi" "old \<le> hi"
  shows "lo \<le> ewma_blend cfg sample old \<and> ewma_blend cfg sample old \<le> hi"
proof -
  let ?a = "c_rssi_alpha cfg" and ?s = "c_rssi_scale cfg"
  have a: "0 \<le> ?a" "0 \<le> ?s - ?a" "0 < ?s"
    using kconfig_okD [OF cfg] by simp_all
  have "lo * ?s = ?a * lo + (?s - ?a) * lo" by (simp add: algebra_simps)
  also have "\<dots> \<le> ?a * sample + (?s - ?a) * old"
    using a assms by (intro add_mono mult_left_mono)
  finally have l: "lo * ?s \<le> ?a * sample + (?s - ?a) * old" .
  have "?a * sample + (?s - ?a) * old \<le> ?a * hi + (?s - ?a) * hi"
    using a assms by (intro add_mono mult_left_mono)
  also have "\<dots> = hi * ?s" by (simp add: algebra_simps)
  finally have u: "?a * sample + (?s - ?a) * old \<le> hi * ?s" .
  show ?thesis
    unfolding ewma_blend_def using a l u by (intro conjI cdiv_ge cdiv_le)
qed

lemma ewma_blend_i8:
  assumes "kconfig_ok cfg" "in_i8 sample" "in_i8 old"
  shows "in_i8 (ewma_blend cfg sample old)"
  using ewma_blend_between [of cfg "-128" sample old 127] assms by (auto simp: in_i8_def)

lemma channel_rssi_update_wf:
  assumes "kconfig_ok cfg" "rssi_wf r" "in_i8 sample"
  shows "rssi_wf (channel_rssi_update cfg r ch sample)"
  using assms by (auto simp: channel_rssi_update_def intro: rssi_wf_update)

section \<open>Quarantine\<close>

lemma quarantine_is_out_of_range [simp]: "channel_count \<le> ch \<Longrightarrow> quarantine_is now q ch"
  by (simp add: quarantine_is_def)

lemma timed_quarantine_add_other:
  "ch' \<noteq> ch \<Longrightarrow> timed_quarantine_is t (quarantine_add now q ch hold) ch' = timed_quarantine_is t q ch'"
  by (simp add: timed_quarantine_is_def quarantine_add_def Let_def)

lemma quarantine_add_expiry:
  assumes "quarantine_wf cfg q" "ch < channel_count"
  shows "expires_at (quarantine_add now q ch hold) ! ch = max (expires_at q ! ch) (now + hold)"
  using assms by (auto simp: quarantine_add_def Let_def quarantine_wf_def max_def)

lemma quarantine_count_card:
  "quarantine_count now q = card {ch. ch < channel_count \<and> quarantine_is now q ch}"
proof -
  have "fold (\<lambda>ch n. if P ch then n + 1 else n) xs n = n + length (filter P xs)" for P :: "nat \<Rightarrow> bool" and xs n
    by (induction xs arbitrary: n) auto
  then have "quarantine_count now q = length (filter (quarantine_is now q) [0..<channel_count])"
    by (simp add: quarantine_count_def)
  also have "\<dots> = card (set (filter (quarantine_is now q) [0..<channel_count]))"
    by (rule distinct_card [symmetric]) simp
  also have "set (filter (quarantine_is now q) [0..<channel_count])
      = {ch. ch < channel_count \<and> quarantine_is now q ch}" by auto
  finally show ?thesis .
qed

section \<open>The relaxing loop\<close>

lemma relax_empty_iff: "relax cs d = [] \<longleftrightarrow> (\<forall>k \<le> d. cs k = [])"
  by (induction d) (auto simp: le_Suc_eq)

lemma relax_largest:
  "relax cs d \<noteq> [] \<Longrightarrow> \<exists>k \<le> d. relax cs d = cs k \<and> (\<forall>j. k < j \<and> j \<le> d \<longrightarrow> cs j = [])"
proof (induction d)
  case (Suc d)
  show ?case
  proof (cases "cs (Suc d) = []")
    case True
    with Suc obtain k where "k \<le> d" "relax cs d = cs k" "\<forall>j. k < j \<and> j \<le> d \<longrightarrow> cs j = []"
      by auto
    with True show ?thesis by (intro exI [of _ k]) (auto simp: le_Suc_eq)
  qed auto
qed auto

lemma set_candidates:
  "set (candidates now q avoid d) = {ch. ch < channel_count \<and> candidate_ok now q avoid d ch}"
  by (auto simp: candidates_def)

lemma candidate_ok_zero:
  "candidate_ok now q avoid 0 ch \<longleftrightarrow> \<not> quarantine_is now q ch \<and> ch \<noteq> avoid"
  by (simp add: candidate_ok_def)

lemma candidate_ok_basic:
  "candidate_ok now q avoid d ch \<Longrightarrow> \<not> quarantine_is now q ch \<and> ch \<noteq> avoid"
  by (auto simp: candidate_ok_def split: if_splits)

lemma candidates_subset_zero: "set (candidates now q avoid d) \<subseteq> set (candidates now q avoid 0)"
  by (auto simp: set_candidates candidate_ok_zero dest: candidate_ok_basic)

lemma relax_candidates_empty:
  "relax (candidates now q avoid) d = [] \<longleftrightarrow>
     (\<forall>ch < channel_count. quarantine_is now q ch \<or> ch = avoid)"
proof -
  have "(\<forall>k \<le> d. candidates now q avoid k = []) \<longleftrightarrow> candidates now q avoid 0 = []"
    using candidates_subset_zero [of now q avoid] by (metis le0 list.set(1) set_empty subset_empty)
  also have "\<dots> \<longleftrightarrow> set (candidates now q avoid 0) = {}" by simp
  also have "\<dots> \<longleftrightarrow> (\<forall>ch < channel_count. quarantine_is now q ch \<or> ch = avoid)"
    by (auto simp: set_candidates candidate_ok_zero)
  finally show ?thesis by (simp add: relax_empty_iff)
qed

section \<open>The weighted draw\<close>

lemma total_weight_sum: "total_weight w cs = (\<Sum>c\<leftarrow>cs. w c)"
proof -
  have "foldl (\<lambda>t c. t + w c) a cs = a + (\<Sum>c\<leftarrow>cs. w c)" for a
    by (induction cs arbitrary: a) auto
  then show ?thesis by (simp add: total_weight_def)
qed

text \<open>
  The walk stops at the candidate whose slice of the line \<open>[0, total)\<close> holds the draw: the
  slices are laid end to end, candidate \<open>k\<close> having the width of its weight.
\<close>

lemma weight_walk_slice:
  assumes "0 \<le> r" "r < (\<Sum>c\<leftarrow>cs. w c)"
  shows "\<exists>k < length cs. weight_walk w r i cs = i + k
           \<and> (\<Sum>c\<leftarrow>take k cs. w c) \<le> r \<and> r < (\<Sum>c\<leftarrow>take (Suc k) cs. w c)"
  using assms
proof (induction cs arbitrary: r i)
  case (Cons c cs)
  show ?case
  proof (cases "r - w c < 0")
    case True
    with Cons.prems show ?thesis by (intro exI [of _ 0]) simp
  next
    case False
    with Cons.prems obtain k where "k < length cs" "weight_walk w (r - w c) (Suc i) cs = Suc i + k"
      "(\<Sum>c\<leftarrow>take k cs. w c) \<le> r - w c" "r - w c < (\<Sum>c\<leftarrow>take (Suc k) cs. w c)"
      using Cons.IH [of "r - w c" "Suc i"] by auto
    with False show ?thesis by (intro exI [of _ "Suc k"]) simp
  qed
qed simp

lemma rssi_range_bounds:
  assumes "rssi_range rssi acc cs = Some (lo, hi)"
    and "\<forall>l h. acc = Some (l, h) \<longrightarrow> l \<le> h"
  shows "lo \<le> hi \<and> (\<forall>l h. acc = Some (l, h) \<longrightarrow> lo \<le> l \<and> h \<le> hi)
       \<and> (\<forall>c \<in> set cs. \<forall>s. channel_rssi_get rssi c = Some s \<longrightarrow> lo \<le> s \<and> s \<le> hi)"
  using assms
proof (induction rssi acc cs rule: rssi_range.induct)
  case (2 rssi acc c cs)
  show ?case
  proof (cases "channel_rssi_get rssi c")
    case None
    with 2 show ?thesis by auto
  next
    case (Some s)
    let ?acc = "case acc of None \<Rightarrow> Some (s, s)
       | Some (lo, hi) \<Rightarrow> Some (if s < lo then s else lo, if s > hi then s else hi)"
    have "\<forall>l h. ?acc = Some (l, h) \<longrightarrow> l \<le> h"
      using 2(4) by (auto split: option.splits)
    with 2(2) [OF Some] 2(3) Some
    have IH: "lo \<le> hi" "\<forall>l h. ?acc = Some (l, h) \<longrightarrow> lo \<le> l \<and> h \<le> hi"
      "\<forall>c \<in> set cs. \<forall>s. channel_rssi_get rssi c = Some s \<longrightarrow> lo \<le> s \<and> s \<le> hi"
      by auto
    show ?thesis
    proof (cases acc)
      case None
      with IH Some show ?thesis by auto
    next
      case (Some p)
      obtain l h where p: "p = (l, h)" by (cases p)
      from IH(2) have "lo \<le> (if s < l then s else l)" "(if h < s then s else h) \<le> hi"
        by (auto simp: Some p)
      then have "lo \<le> s" "lo \<le> l" "s \<le> hi" "h \<le> hi" by (auto split: if_splits)
      with IH Some p \<open>channel_rssi_get rssi c = Some s\<close> show ?thesis by auto
    qed
  qed
qed auto

lemma candidate_weight_bounds:
  assumes cfg: "kconfig_ok cfg"
    and s: "\<And>s. channel_rssi_get rssi c = Some s \<Longrightarrow> lo \<le> s \<and> s \<le> hi"
  shows "c_rssi_min cfg \<le> candidate_weight cfg rssi lo hi c
       \<and> candidate_weight cfg rssi lo hi c \<le> c_rssi_max cfg"
proof -
  let ?m = "c_rssi_min cfg" and ?M = "c_rssi_max cfg"
  have mM: "?m < ?M" using kconfig_okD [OF cfg] by simp
  have mid: "?m \<le> cdiv (?m + ?M) 2 \<and> cdiv (?m + ?M) 2 \<le> ?M"
    using mM by (intro conjI cdiv_ge cdiv_le) auto
  show ?thesis
  proof (cases "channel_rssi_get rssi c")
    case None
    with mid show ?thesis by (simp add: candidate_weight_def Let_def)
  next
    case (Some v)
    show ?thesis
    proof (cases "hi = lo")
      case True
      with mid Some show ?thesis by (simp add: candidate_weight_def Let_def)
    next
      case False
      with s [OF Some] have v: "lo \<le> v" "v \<le> hi" "0 < hi - lo" by auto
      have "0 * (hi - lo) \<le> (?M - ?m) * (v - lo)" using mM v by simp
      moreover have "(?M - ?m) * (v - lo) \<le> (?M - ?m) * (hi - lo)"
        using mM v by (intro mult_left_mono) auto
      ultimately have "0 \<le> cdiv ((?M - ?m) * (v - lo)) (hi - lo)
          \<and> cdiv ((?M - ?m) * (v - lo)) (hi - lo) \<le> ?M - ?m"
        using v by (intro conjI cdiv_ge cdiv_le) auto
      with Some False show ?thesis by (simp add: candidate_weight_def Let_def)
    qed
  qed
qed

lemma sum_list_weight_bounds:
  assumes "\<And>c. c \<in> set cs \<Longrightarrow> m \<le> w c \<and> w c \<le> (M :: int)"
  shows "m * int (length cs) \<le> (\<Sum>c\<leftarrow>cs. w c) \<and> (\<Sum>c\<leftarrow>cs. w c) \<le> M * int (length cs)"
  using assms by (induction cs) (force simp: algebra_simps)+

lemma candidates_weight_bounds:
  assumes cfg: "kconfig_ok cfg" and r: "rssi_range rssi None cs = Some (lo, hi)" and c: "c \<in> set cs"
  shows "c_rssi_min cfg \<le> candidate_weight cfg rssi lo hi c
       \<and> candidate_weight cfg rssi lo hi c \<le> c_rssi_max cfg"
  using rssi_range_bounds [OF r] c by (intro candidate_weight_bounds cfg) simp

lemma total_weight_bounds:
  assumes cfg: "kconfig_ok cfg" and r: "rssi_range rssi None cs = Some (lo, hi)" and ne: "cs \<noteq> []"
  shows "0 < total_weight (candidate_weight cfg rssi lo hi) cs
       \<and> total_weight (candidate_weight cfg rssi lo hi) cs \<le> 100000 * int (length cs)"
proof -
  have m: "1 \<le> c_rssi_min cfg" "c_rssi_max cfg \<le> 100000" using kconfig_okD [OF cfg] by simp_all
  have "1 \<le> candidate_weight cfg rssi lo hi c \<and> candidate_weight cfg rssi lo hi c \<le> 100000"
    if "c \<in> set cs" for c
    using candidates_weight_bounds [OF cfg r that] m by linarith
  from sum_list_weight_bounds [of cs 1 "candidate_weight cfg rssi lo hi" 100000, OF this]
  have "int (length cs) \<le> (\<Sum>c\<leftarrow>cs. candidate_weight cfg rssi lo hi c)
      \<and> (\<Sum>c\<leftarrow>cs. candidate_weight cfg rssi lo hi c) \<le> 100000 * int (length cs)" by simp
  moreover have "0 < int (length cs)" using ne by simp
  ultimately show ?thesis unfolding total_weight_sum by linarith
qed

text \<open>
  The index drawn, as a slice of the line \<open>[0, total)\<close>, when some candidate has a sample.
\<close>

lemma weighted_index_slice:
  assumes cfg: "kconfig_ok cfg" and ne: "cs \<noteq> []" and r: "rssi_range rssi None cs = Some (lo, hi)"
  defines "w \<equiv> candidate_weight cfg rssi lo hi"
  shows "weighted_index cfg drawn cs rssi < length cs
       \<and> total_weight w (take (weighted_index cfg drawn cs rssi) cs) \<le> int (unat drawn) mod total_weight w cs
       \<and> int (unat drawn) mod total_weight w cs < total_weight w (take (Suc (weighted_index cfg drawn cs rssi)) cs)"
proof -
  let ?r = "int (unat drawn) mod total_weight w cs"
  have t: "0 < total_weight w cs" using total_weight_bounds [OF cfg r ne] by (simp add: w_def)
  have "0 \<le> ?r" "?r < (\<Sum>c\<leftarrow>cs. w c)"
    using t by (simp_all only: pos_mod_bound pos_mod_sign total_weight_sum [symmetric])
  from weight_walk_slice [OF this, of 0]
  obtain k where k: "k < length cs" "weight_walk w ?r 0 cs = k"
    "(\<Sum>c\<leftarrow>take k cs. w c) \<le> ?r" "?r < (\<Sum>c\<leftarrow>take (Suc k) cs. w c)"
    by (metis add_0)
  have "weighted_index cfg drawn cs rssi = weight_walk w ?r 0 cs"
    by (simp add: weighted_index_def r w_def Let_def)
  with k show ?thesis by (simp only: total_weight_sum simp_thms)
qed

lemma weighted_index_less:
  assumes cfg: "kconfig_ok cfg" and ne: "cs \<noteq> []"
  shows "weighted_index cfg drawn cs rssi < length cs"
proof (cases "rssi_range rssi None cs")
  case None
  with ne show ?thesis by (simp add: weighted_index_def)
next
  case (Some p)
  obtain lo hi where "p = (lo, hi)" by (cases p)
  with weighted_index_slice [OF cfg ne] Some show ?thesis by blast
qed

section \<open>Non-zero generator state\<close>

lemma xor_zero_eq: "x XOR y = 0 \<Longrightarrow> x = (y :: u32)"
  by (rule bit_word_eqI) (metis bit_xor_iff bit_0_eq bot_apply bot_bool_def)

lemma xorshift_left_zero: "x XOR push_bit k x = 0 \<Longrightarrow> 0 < k \<Longrightarrow> x = (0 :: u32)"
proof (rule bit_word_eqI)
  fix n assume x: "x XOR push_bit k x = 0" and k: "0 < k" and n: "n < LENGTH(32)"
  have e: "x = push_bit k x" using x by (rule xor_zero_eq)
  show "bit x n = bit (0 :: u32) n" using n
  proof (induction n rule: less_induct)
    case (less n)
    have "bit x n \<longleftrightarrow> bit (push_bit k x) n" using e by simp
    also have "\<dots> \<longleftrightarrow> k \<le> n \<and> bit x (n - k)" using less.prems by (auto simp: bit_simps)
    finally show ?case using less.IH [of "n - k"] less.prems k by auto
  qed
qed

lemma xorshift_right_zero: "x XOR drop_bit k x = 0 \<Longrightarrow> 0 < k \<Longrightarrow> x = (0 :: u32)"
proof (rule bit_word_eqI)
  fix n assume x: "x XOR drop_bit k x = 0" and k: "0 < k" and n: "n < LENGTH(32)"
  have e: "x = drop_bit k x" using x by (rule xor_zero_eq)
  have "\<not> bit x n" for n
  proof (induction "32 - n" arbitrary: n rule: less_induct)
    case less
    show ?case
    proof (cases "n < 32")
      case True
      have "bit x n \<longleftrightarrow> bit (drop_bit k x) n" using e by simp
      also have "\<dots> \<longleftrightarrow> bit x (n + k)" by (simp add: bit_simps ac_simps)
      finally show ?thesis using less.hyps [of "n + k"] True k by auto
    qed (use bit_imp_le_length [of x n] in auto)
  qed
  then show "bit x n = bit (0 :: u32) n" by simp
qed

lemma xorshift_nonzero: "x \<noteq> 0 \<Longrightarrow> xorshift x \<noteq> 0"
  unfolding xorshift_def Let_def
  by (metis xorshift_left_zero xorshift_right_zero zero_less_numeral)

lemma prng_next_nonzero: "prng_next now cyc s \<noteq> 0"
  by (rule xorshift_nonzero [of "prng_seed now cyc s", folded prng_next_def])
     (simp add: prng_seed_def Let_def)

section \<open>Properties\<close>

text \<open>
  The reference for the filter inside the picker: \<open>ch\<close> is usable at distance \<open>d\<close> when it is
  itself neither quarantined nor the channel to avoid, every channel under timed quarantine is
  more than \<open>d\<close> away, every persistent offender more than \<open>d div 2\<close>, and so is the avoided one.
\<close>

definition usable_at :: "u32 \<Rightarrow> quarantine_state \<Rightarrow> nat \<Rightarrow> nat \<Rightarrow> nat \<Rightarrow> bool" where
  "usable_at now q avoid d ch \<longleftrightarrow>
     ch < channel_count \<and> \<not> quarantine_is now q ch \<and> ch \<noteq> avoid
   \<and> (\<forall>c < channel_count. timed_quarantine_is now q c \<longrightarrow> int d < \<bar>int c - int ch\<bar>)
   \<and> (\<forall>c < channel_count. persistent_quarantine_contains (persistent q) c
        \<longrightarrow> int (d div 2) < \<bar>int c - int ch\<bar>)
   \<and> (avoid < channel_count \<longrightarrow> int d < \<bar>int ch - int avoid\<bar>)"

lemma within_distance_timed:
  "within_distance_of_quarantine now q ch d \<longleftrightarrow>
     (\<exists>c < channel_count. c \<noteq> ch \<and> \<bar>int c - int ch\<bar> \<le> int d \<and> timed_quarantine_is now q c)"
  (is "?L \<longleftrightarrow> ?R")
proof
  assume ?L
  then obtain i where "int ch - int d \<le> i" "i \<le> int ch + int d" "0 \<le> i" "i < int channel_count"
    "i \<noteq> int ch" "timed_quarantine_is now q (nat i)"
    by (auto simp: within_distance_of_quarantine_def list_ex_iff)
  then show ?R by (intro exI [of _ "nat i"]) auto
next
  assume ?R
  then obtain c where "c < channel_count" "c \<noteq> ch" "\<bar>int c - int ch\<bar> \<le> int d" "timed_quarantine_is now q c"
    by auto
  then show ?L
    unfolding within_distance_of_quarantine_def list_ex_iff by (intro bexI [of _ "int c"]) auto
qed

lemma within_distance_pers:
  "within_distance_of_persistent q ch d \<longleftrightarrow>
     (\<exists>c < channel_count. c \<noteq> ch \<and> \<bar>int c - int ch\<bar> \<le> int d
        \<and> persistent_quarantine_contains (persistent q) c)"
  (is "?L \<longleftrightarrow> ?R")
proof
  assume ?L
  then obtain i where "int ch - int d \<le> i" "i \<le> int ch + int d" "0 \<le> i" "i < int channel_count"
    "i \<noteq> int ch" "persistent_quarantine_contains (persistent q) (nat i)"
    by (auto simp: within_distance_of_persistent_def list_ex_iff)
  then show ?R by (intro exI [of _ "nat i"]) auto
next
  assume ?R
  then obtain c where "c < channel_count" "c \<noteq> ch" "\<bar>int c - int ch\<bar> \<le> int d"
    "persistent_quarantine_contains (persistent q) c" by auto
  then show ?L
    unfolding within_distance_of_persistent_def list_ex_iff by (intro bexI [of _ "int c"]) auto
qed

lemma persistent_is_quarantined:
  "persistent_quarantine_contains (persistent q) ch \<Longrightarrow> quarantine_is now q ch"
  by (simp add: quarantine_is_def)

lemma timed_is_quarantined: "timed_quarantine_is now q ch \<Longrightarrow> quarantine_is now q ch"
  by (simp add: quarantine_is_def)

lemma far_iff:
  assumes "\<not> P ch"
  shows "\<not> (0 < d \<and> (\<exists>c < n. c \<noteq> ch \<and> \<bar>int c - int ch\<bar> \<le> int d \<and> P c))
     \<longleftrightarrow> (\<forall>c < n. P c \<longrightarrow> int d < \<bar>int c - int ch\<bar>)"
proof (cases "d = 0")
  case True
  with assms show ?thesis by (auto dest: spec)
next
  case False
  with assms show ?thesis by (force simp: not_le)
qed

lemma candidate_ok_usable:
  assumes "ch < channel_count"
  shows "candidate_ok now q avoid d ch \<longleftrightarrow> usable_at now q avoid d ch"
proof (cases "quarantine_is now q ch \<or> ch = avoid")
  case True
  then show ?thesis by (auto simp: candidate_ok_def usable_at_def)
next
  case False
  then have np: "\<not> persistent_quarantine_contains (persistent q) ch"
    and nt: "\<not> timed_quarantine_is now q ch"
    using persistent_is_quarantined timed_is_quarantined by auto
  have p: "1 < d \<longleftrightarrow> 0 < d div 2" by (simp add: div_greater_zero_iff) auto
  have a: "\<not> (0 < d \<and> avoid < channel_count \<and> \<bar>int ch - int avoid\<bar> \<le> int d)
     \<longleftrightarrow> (avoid < channel_count \<longrightarrow> int d < \<bar>int ch - int avoid\<bar>)"
    using False by (cases "d = 0") auto
  have "candidate_ok now q avoid d ch \<longleftrightarrow>
      \<not> (0 < d \<and> within_distance_of_quarantine now q ch d)
    \<and> \<not> (0 < d div 2 \<and> within_distance_of_persistent q ch (d div 2))
    \<and> \<not> (0 < d \<and> avoid < channel_count \<and> \<bar>int ch - int avoid\<bar> \<le> int d)"
    using False p by (auto simp: candidate_ok_def)
  also have "\<dots> \<longleftrightarrow> usable_at now q avoid d ch"
    unfolding within_distance_timed within_distance_pers far_iff [of "timed_quarantine_is now q", OF nt] a
      far_iff [of "persistent_quarantine_contains (persistent q)", OF np]
    using False assms by (simp add: usable_at_def)
  finally show ?thesis .
qed

lemma set_candidates_usable: "set (candidates now q avoid d) = {ch. usable_at now q avoid d ch}"
  by (auto simp: set_candidates candidate_ok_usable usable_at_def)

lemma pick_member:
  assumes "kconfig_ok cfg"
  shows "let cs = relax (candidates now q avoid) d in
    if cs = [] then fst (channel_hop_pick_weighted cfg now cyc prng q d avoid rssi) = channel_invalid
    else fst (channel_hop_pick_weighted cfg now cyc prng q d avoid rssi) \<in> set cs"
  using weighted_index_less [OF assms]
  by (auto simp: channel_hop_pick_weighted_def Let_def split: option.splits)

lemma pick_usable:
  assumes "kconfig_ok cfg" and "fst (channel_hop_pick_weighted cfg now cyc prng q d avoid rssi) = ch"
  shows "ch = channel_invalid \<and> relax (candidates now q avoid) d = [] \<or>
    (\<exists>k \<le> d. usable_at now q avoid k ch \<and> (\<forall>j c. k < j \<and> j \<le> d \<longrightarrow> \<not> usable_at now q avoid j c))"
proof (cases "relax (candidates now q avoid) d = []")
  case True
  with pick_member [OF assms(1), of now q avoid d cyc prng rssi] assms(2) show ?thesis
    by simp
next
  case False
  with pick_member [OF assms(1), of now q avoid d cyc prng rssi] assms(2)
  have "ch \<in> set (relax (candidates now q avoid) d)" by (simp add: Let_def)
  with relax_largest [OF False] set_candidates_usable [of now q avoid] show ?thesis
    by (metis empty_iff empty_set mem_Collect_eq)
qed

text \<open>
  C26. The picker is total and safe: it returns the invalid mark exactly when every channel is
  quarantined or avoided; otherwise it returns a channel in range that is neither quarantined
  nor avoided, usable at the largest distance (up to the requested one) at which any channel is
  usable at all, whatever the generator and the RSSI weights draw.
\<close>

theorem channel_hop_pick_correct:
  assumes "kconfig_ok cfg"
    and "fst (channel_hop_pick_weighted cfg now cyc prng q min_distance avoid rssi) = ch"
  shows "(ch = channel_invalid \<longleftrightarrow> (\<forall>c < channel_count. quarantine_is now q c \<or> c = avoid))
    \<and> (ch \<noteq> channel_invalid \<longrightarrow>
        (\<exists>k \<le> min_distance. usable_at now q avoid k ch
           \<and> (\<forall>j c. k < j \<and> j \<le> min_distance \<longrightarrow> \<not> usable_at now q avoid j c)))"
proof -
  have "usable_at now q avoid k ch \<Longrightarrow> ch \<noteq> channel_invalid \<and> ch < channel_count
      \<and> \<not> quarantine_is now q ch \<and> ch \<noteq> avoid" for k
    by (auto simp: usable_at_def)
  with pick_usable [OF assms] show ?thesis
    by (metis relax_candidates_empty)
qed

theorem channel_hop_pick_correct_witness:
  "fst (channel_hop_pick_weighted default_kconfig 5 7 1
      \<lparr>expires_at = replicate 101 0, persistent = \<lparr>pq_channels = replicate 5 0, pq_count = 0\<rparr>\<rparr>
      5 40 None) \<noteq> 255"
proof -
  let ?q = "\<lparr>expires_at = replicate 101 0, persistent = \<lparr>pq_channels = replicate 5 0, pq_count = 0\<rparr>\<rparr>"
  have "\<not> quarantine_is 5 ?q 0"
    by (simp add: quarantine_is_def persistent_quarantine_contains_def timed_quarantine_is_def)
  then have "\<not> (\<forall>c < channel_count. quarantine_is 5 ?q c \<or> c = 40)"
    by (metis zero_less_numeral zero_neq_numeral)
  then show ?thesis
    using channel_hop_pick_correct [of default_kconfig 5 7 1 ?q 5 40 None, OF kconfig_ok_default refl]
    by blast
qed

text \<open>
  C28. The weighted draw: every candidate's weight lies between the configured minimum and
  maximum, the running total stays inside \<open>int32_t\<close> for a full candidate array, and the index
  drawn is the one whose slice of \<open>[0, total)\<close> (slices as wide as the weights, laid end to end)
  holds the random number, so candidate \<open>i\<close> is drawn by exactly \<open>weight i\<close> of the residues.
\<close>

theorem weighted_index_correct:
  assumes "kconfig_ok cfg" and "cs \<noteq> []" and "length cs \<le> channel_count"
    and "rssi_range rssi None cs = Some (lo, hi)"
  shows "(\<forall>c \<in> set cs. c_rssi_min cfg \<le> candidate_weight cfg rssi lo hi c
                     \<and> candidate_weight cfg rssi lo hi c \<le> c_rssi_max cfg)
    \<and> 0 < total_weight (candidate_weight cfg rssi lo hi) cs
    \<and> in_i32 (total_weight (candidate_weight cfg rssi lo hi) cs)
    \<and> (let i = weighted_index cfg drawn cs rssi; w = candidate_weight cfg rssi lo hi;
           r = int (unat drawn) mod total_weight w cs
       in i < length cs \<and> total_weight w (take i cs) \<le> r
        \<and> r < total_weight w (take i cs) + w (cs ! i))"
proof -
  note b = total_weight_bounds [OF assms(1,4,2)]
  note s = weighted_index_slice [OF assms(1,2,4), of drawn]
  have "total_weight w (take (Suc i) cs) = total_weight w (take i cs) + w (cs ! i)"
    if "i < length cs" for i w
    using that by (simp add: total_weight_sum take_Suc_conv_app_nth)
  with s b assms(3) candidates_weight_bounds [OF assms(1,4)] show ?thesis
    by (auto simp: Let_def in_i32_def)
qed

theorem weighted_index_correct_witness:
  "weighted_index default_kconfig 1700 [3, 9]
     ((replicate 101 127)[3 := - 80, 9 := - 40]) = 1"
  using weighted_index_correct [of default_kconfig "[3, 9]" "(replicate 101 127)[3 := - 80, 9 := - 40]"
      "- 80" "- 40" 1700]
  by (auto simp: Let_def channel_rssi_get_def total_weight_def candidate_weight_def
      default_kconfig_def kconfig_ok_default [unfolded default_kconfig_def] cdiv_def
      less_Suc_eq take_Cons' split: if_splits)

text \<open>
  The RSSI average never leaves the interval spanned by the stored value and the new
  sample, so the cast to \<open>int8_t\<close> never changes it; the other channels keep their averages, and
  the table stays a table of \<open>int8_t\<close>.
\<close>

lemma channel_rssi_update_correct:
  assumes "kconfig_ok cfg" and "rssi_wf r" and "in_i8 sample" and "ch < channel_count"
  shows "rssi_wf (channel_rssi_update cfg r ch sample)
    \<and> (\<forall>c < channel_count. c \<noteq> ch \<longrightarrow> channel_rssi_update cfg r ch sample ! c = r ! c)
    \<and> (r ! ch = rssi_none \<longrightarrow> channel_rssi_update cfg r ch sample ! ch = sample)
    \<and> (r ! ch \<noteq> rssi_none \<longrightarrow>
         channel_rssi_update cfg r ch sample ! ch = ewma_blend cfg sample (r ! ch)
       \<and> min sample (r ! ch) \<le> channel_rssi_update cfg r ch sample ! ch
       \<and> channel_rssi_update cfg r ch sample ! ch \<le> max sample (r ! ch))"
proof -
  have len: "length r = channel_count" using assms(2) by (simp add: rssi_wf_def)
  have i: "in_i8 (ewma_blend cfg sample (r ! ch))"
    using assms by (intro ewma_blend_i8 rssi_wf_nth)
  have "min sample (r ! ch) \<le> ewma_blend cfg sample (r ! ch)
      \<and> ewma_blend cfg sample (r ! ch) \<le> max sample (r ! ch)"
    by (rule ewma_blend_between) (use assms in auto)
  with i len assms channel_rssi_update_wf [OF assms(1-3), of ch] show ?thesis
    by (simp add: channel_rssi_update_def)
qed

text \<open>
  While the clock does not wrap inside the hold, a channel that is quarantined stays
  quarantined for the whole hold, an earlier but longer quarantine is not shortened, and no
  other channel is touched.
\<close>

lemma quarantine_add_holds:
  assumes "quarantine_wf cfg q" and "ch < channel_count"
    and "0 < unat hold" and "unat hold < 2 ^ 31" and "unat now + unat hold < 2 ^ 32"
    and "unat (expires_at q ! ch) < unat now + 2 ^ 31"
    and "unat now \<le> unat t" and "unat t < unat now + unat hold"
  shows "quarantine_is t (quarantine_add now q ch hold) ch
    \<and> expires_at q ! ch \<le> expires_at (quarantine_add now q ch hold) ! ch
    \<and> (\<forall>c t. c \<noteq> ch \<longrightarrow> quarantine_is t (quarantine_add now q ch hold) c = quarantine_is t q c)"
proof -
  let ?e = "expires_at (quarantine_add now q ch hold) ! ch"
  have e: "?e = max (expires_at q ! ch) (now + hold)" using assms by (intro quarantine_add_expiry)
  have nh: "unat (now + hold) = unat now + unat hold"
    using assms(5) by (simp add: unat_word_ariths)
  have ge: "unat now + unat hold \<le> unat ?e" "unat ?e < unat now + 2 ^ 31"
    using assms(4,6) nh by (auto simp: e max_def word_le_nat_alt)
  then have lt: "unat t < unat ?e" using assms(8) by simp
  then have "unat (?e - t) = unat ?e - unat t" by (simp add: unat_sub word_le_nat_alt)
  with lt ge assms(7) have "0 < unat (?e - t) \<and> unat (?e - t) < 2 ^ 31" by auto
  moreover have "?e \<noteq> 0" using lt by (metis less_nat_zero_code unat_0)
  ultimately have "timed_quarantine_is t (quarantine_add now q ch hold) ch"
    by (simp add: timed_quarantine_is_def Let_def before_deadline_def sint_pos_iff32)
  moreover have "expires_at q ! ch \<le> ?e" by (simp add: e)
  ultimately show ?thesis
    using assms(2) by (auto simp: quarantine_is_def timed_quarantine_add_other)
qed

text \<open>
  The stored expiry is compared unsigned, so the guarantee above fails once \<open>now + hold\<close> wraps:
  the fresh quarantine compares smaller than an old expiry and is dropped.
\<close>

lemma quarantine_add_lost_on_wrap:
  "\<not> quarantine_is 100
     (quarantine_add 0xFFFFFF00
        \<lparr>expires_at = (replicate 101 0)[40 := 0xFFFFFF80],
         persistent = \<lparr>pq_channels = replicate 5 0, pq_count = 0\<rparr>\<rparr> 40 300000) 40"
  by (simp add: quarantine_is_def quarantine_add_def persistent_quarantine_contains_def
      timed_quarantine_is_def before_deadline_def Let_def sint_pos_iff32)

text \<open>
  The generator never gets stuck: whatever the seed and the clock, the state after a draw is
  not zero, so no later draw reseeds it; and a pick draws exactly when it has a candidate.
\<close>

lemma pick_prng_progress:
  "snd (channel_hop_pick_weighted cfg now cyc prng q d avoid rssi) =
     (if relax (candidates now q avoid) d = [] then prng else prng_next now cyc prng)
   \<and> prng_next now cyc prng \<noteq> 0
   \<and> prng_seed now' cyc' (prng_next now cyc prng) = prng_next now cyc prng"
  by (auto simp: channel_hop_pick_weighted_def Let_def prng_next_nonzero prng_seed_def
      split: option.splits)

end
