(* ===== verification/Queues.thy ===== *)
theory Queues
  imports Prelude
begin

text \<open>
  The queue shapes of the firmware: the array FIFO of the radio library (front, back and count
  with an explicit wrap) and the bookkeeping rings of the transport (free-running head and tail
  counters reduced to a slot index). Both promise the same bounded FIFO contract, stated as a
  locale over an abstraction to lists; the clients' facts are proved once inside it.
\<close>

section \<open>The bounded FIFO contract\<close>

locale bounded_queue =
  fixes wf :: "'q \<Rightarrow> bool" and cap :: "'q \<Rightarrow> nat" and abs :: "'q \<Rightarrow> 'a list"
    and enq :: "'a \<Rightarrow> 'q \<Rightarrow> 'q" and deq :: "'q \<Rightarrow> 'q"
  assumes enq_law: "wf q \<Longrightarrow> length (abs q) < cap q \<Longrightarrow>
            wf (enq x q) \<and> abs (enq x q) = abs q @ [x] \<and> cap (enq x q) = cap q"
    and deq_law: "wf q \<Longrightarrow> abs q \<noteq> [] \<Longrightarrow>
            wf (deq q) \<and> abs (deq q) = tl (abs q) \<and> cap (deq q) = cap q"
begin

lemma enq_all:
  assumes "wf q" "length (abs q) + length xs \<le> cap q"
  shows "wf (fold enq xs q) \<and> abs (fold enq xs q) = abs q @ xs \<and> cap (fold enq xs q) = cap q"
  using assms
proof (induction xs arbitrary: q)
  case (Cons x xs)
  then have e: "wf (enq x q) \<and> abs (enq x q) = abs q @ [x] \<and> cap (enq x q) = cap q"
    by (intro enq_law) auto
  with Cons.IH [of "enq x q"] Cons.prems show ?case by simp
qed simp

lemma deq_many:
  assumes "wf q" "n \<le> length (abs q)"
  shows "wf ((deq ^^ n) q) \<and> abs ((deq ^^ n) q) = drop n (abs q) \<and> cap ((deq ^^ n) q) = cap q"
  using assms
proof (induction n)
  case (Suc n)
  then have "wf ((deq ^^ n) q)" "abs ((deq ^^ n) q) = drop n (abs q)" "cap ((deq ^^ n) q) = cap q"
    by auto
  with deq_law [of "(deq ^^ n) q"] Suc.prems show ?case by (simp add: drop_Suc tl_drop)
qed simp

lemma fifo_order:
  assumes "wf q" "abs q = []" "length xs \<le> cap q" "n \<le> length xs"
  shows "abs ((deq ^^ n) (fold enq xs q)) = drop n xs"
  using enq_all [of q xs] deq_many [of "fold enq xs q" n] assms by simp

end

section \<open>Array FIFO with front, back and count\<close>

record 'a fifo =
  slots :: "'a list"
  fback :: nat
  ffront :: nat
  fcount :: nat

text \<open>\<open>if (++i >= SIZE) i = 0\<close>\<close>

definition bump :: "nat \<Rightarrow> nat \<Rightarrow> nat" where
  "bump n i = (if n \<le> i + 1 then 0 else i + 1)"

definition fifo_empty :: "'a fifo \<Rightarrow> 'a fifo" where
  "fifo_empty f = f\<lparr>fback := 0, ffront := 0, fcount := 0\<rparr>"

definition fifo_put :: "'a \<Rightarrow> 'a fifo \<Rightarrow> 'a fifo" where
  "fifo_put x f = f\<lparr>slots := (slots f)[fback f := x],
                    fback := bump (length (slots f)) (fback f), fcount := fcount f + 1\<rparr>"

definition fifo_drop :: "'a fifo \<Rightarrow> 'a fifo" where
  "fifo_drop f = f\<lparr>ffront := bump (length (slots f)) (ffront f), fcount := fcount f - 1\<rparr>"

text \<open>Queue order, front first: the walk \<open>idx\<close> of the stash loop.\<close>

fun fifo_walk :: "'a list \<Rightarrow> nat \<Rightarrow> nat \<Rightarrow> 'a list" where
  "fifo_walk xs idx 0 = []"
| "fifo_walk xs idx (Suc n) = xs ! idx # fifo_walk xs (bump (length xs) idx) n"

definition fifo_list :: "'a fifo \<Rightarrow> 'a list" where
  "fifo_list f = fifo_walk (slots f) (ffront f) (fcount f)"

definition fifo_wf :: "'a fifo \<Rightarrow> bool" where
  "fifo_wf f \<longleftrightarrow> 0 < length (slots f) \<and> ffront f < length (slots f) \<and> fcount f \<le> length (slots f)
     \<and> fback f = (ffront f + fcount f) mod length (slots f)"

lemma bump_mod: "i < n \<Longrightarrow> bump n i = (i + 1) mod n"
  by (cases "i + 1 = n") (auto simp: bump_def)

lemma bump_less: "0 < n \<Longrightarrow> bump n i < n"
  by (auto simp: bump_def)

lemma fifo_walk_nth:
  "idx < length xs \<Longrightarrow> fifo_walk xs idx n = map (\<lambda>i. xs ! ((idx + i) mod length xs)) [0..<n]"
proof (induction n arbitrary: idx)
  case (Suc n)
  have "fifo_walk xs idx (Suc n) = xs ! idx # fifo_walk xs (bump (length xs) idx) n" by simp
  also have "fifo_walk xs (bump (length xs) idx) n
      = map (\<lambda>i. xs ! ((bump (length xs) idx + i) mod length xs)) [0..<n]"
    using Suc.prems by (intro Suc.IH bump_less) auto
  also have "\<dots> = map (\<lambda>i. xs ! ((idx + Suc i) mod length xs)) [0..<n]"
    using Suc.prems by (intro map_cong refl) (simp add: bump_mod mod_simps)
  finally show ?case
    using Suc.prems by (simp add: upt_conv_Cons map_Suc_upt [symmetric] del: upt_Suc)
qed simp

lemma fifo_list_nth:
  "ffront f < length (slots f) \<Longrightarrow>
     fifo_list f = map (\<lambda>i. slots f ! ((ffront f + i) mod length (slots f))) [0..<fcount f]"
  by (simp add: fifo_list_def fifo_walk_nth)

lemma length_fifo_list [simp]: "length (fifo_list f) = fcount f"
proof -
  have "length (fifo_walk xs idx n) = n" for xs :: "'a list" and idx n
    by (induction n arbitrary: idx) auto
  then show ?thesis by (simp add: fifo_list_def)
qed

lemma fifo_list_nil_iff [simp]: "fifo_list f = [] \<longleftrightarrow> fcount f = 0"
  by (metis length_0_conv length_fifo_list)

lemma fifo_empty_wf: "fifo_wf f \<Longrightarrow> fifo_wf (fifo_empty f)"
  by (auto simp: fifo_wf_def fifo_empty_def)

lemma fifo_empty_list [simp]: "fifo_list (fifo_empty f) = []"
  by (simp add: fifo_empty_def)

lemma length_slots_fifo [simp]:
  "length (slots (fifo_empty f)) = length (slots f)"
  "length (slots (fifo_put x f)) = length (slots f)"
  "length (slots (fifo_drop f)) = length (slots f)"
  by (simp_all add: fifo_empty_def fifo_put_def fifo_drop_def)

lemma fcount_fifo [simp]:
  "fcount (fifo_empty f) = 0" "fcount (fifo_put x f) = fcount f + 1"
  "fcount (fifo_drop f) = fcount f - 1"
  by (simp_all add: fifo_empty_def fifo_put_def fifo_drop_def)

lemma fifo_put_law:
  assumes w: "fifo_wf f" and c: "fcount f < length (slots f)"
  shows "fifo_wf (fifo_put x f) \<and> fifo_list (fifo_put x f) = fifo_list f @ [x]"
proof -
  let ?n = "length (slots f)"
  have b: "fback f < ?n" "fback f = (ffront f + fcount f) mod ?n" "ffront f < ?n"
    using w by (auto simp: fifo_wf_def)
  have "(ffront f + i) mod ?n \<noteq> fback f" if "i < fcount f" for i
  proof
    assume "(ffront f + i) mod ?n = fback f"
    then have "(ffront f + i) mod ?n = (ffront f + fcount f) mod ?n" using b by simp
    then have "?n dvd (ffront f + fcount f) - (ffront f + i)"
      by (metis mod_eq_dvd_iff_nat add_le_cancel_left less_imp_le that)
    then have "?n dvd fcount f - i" by simp
    with that c show False by (auto dest: dvd_imp_le)
  qed
  moreover have "fifo_list (fifo_put x f)
      = map (\<lambda>i. (slots f)[fback f := x] ! ((ffront f + i) mod ?n)) [0..<fcount f + 1]"
    using b by (subst fifo_list_nth) (simp_all add: fifo_put_def)
  ultimately have "fifo_list (fifo_put x f) = fifo_list f @ [x]"
    using b by (simp add: fifo_list_nth nth_list_update_neq [OF not_sym] cong: map_cong)
  moreover have "fifo_wf (fifo_put x f)"
    using w c b by (auto simp: fifo_wf_def fifo_put_def bump_mod mod_simps)
  ultimately show ?thesis by simp
qed

lemma fifo_drop_law:
  assumes w: "fifo_wf f" and c: "0 < fcount f"
  shows "fifo_wf (fifo_drop f) \<and> fifo_list (fifo_drop f) = tl (fifo_list f)"
proof -
  obtain n where n: "fcount f = Suc n" using c by (cases "fcount f") auto
  have "fifo_list (fifo_drop f) = tl (fifo_list f)"
    by (simp add: fifo_list_def fifo_drop_def n)
  moreover have "fifo_wf (fifo_drop f)"
    using w n by (auto simp: fifo_wf_def fifo_drop_def bump_mod mod_simps)
  ultimately show ?thesis by simp
qed

interpretation ff: bounded_queue fifo_wf "\<lambda>f. length (slots f)" fifo_list fifo_put fifo_drop
  by unfold_locales (simp_all add: fifo_put_law fifo_drop_law)

lemma fifo_list_hd: "0 < fcount f \<Longrightarrow> fifo_list f ! 0 = slots f ! ffront f"
  by (cases "fcount f") (simp_all add: fifo_list_def)

lemma fifo_wf_all_empty: "0 < length xs \<Longrightarrow> fifo_wf \<lparr>slots = xs, fback = 0, ffront = 0, fcount = 0\<rparr>"
  by (simp add: fifo_wf_def)

section \<open>Rings with free-running counters\<close>

text \<open>
  The transport's rings keep a head and a tail counter of a machine width and reduce them to a
  slot when they access the array. The counters wrap at \<open>2 ^ LENGTH('w)\<close>, which the reduction
  respects only when the size of the ring divides it.
\<close>

record (overloaded) ('a, 'w::len) ring =
  rslots :: "'a list"
  rhead :: "'w word"
  rtail :: "'w word"

definition ring_put :: "'a \<Rightarrow> ('a, 'w::len) ring \<Rightarrow> ('a, 'w) ring" where
  "ring_put x r = r\<lparr>rslots := (rslots r)[unat (rhead r) mod length (rslots r) := x],
                    rhead := rhead r + 1\<rparr>"

definition ring_nonempty :: "('a, 'w::len) ring \<Rightarrow> bool" where
  "ring_nonempty r \<longleftrightarrow> rtail r \<noteq> rhead r"

definition ring_peek :: "('a, 'w::len) ring \<Rightarrow> 'a" where
  "ring_peek r = rslots r ! (unat (rtail r) mod length (rslots r))"

definition ring_drop :: "('a, 'w::len) ring \<Rightarrow> ('a, 'w) ring" where
  "ring_drop r = r\<lparr>rtail := rtail r + 1\<rparr>"

text \<open>\<open>tail = head\<close>\<close>

definition ring_snap :: "('a, 'w::len) ring \<Rightarrow> ('a, 'w) ring" where
  "ring_snap r = r\<lparr>rtail := rhead r\<rparr>"

definition ring_gap :: "('a, 'w::len) ring \<Rightarrow> nat" where
  "ring_gap r = unat (rhead r - rtail r)"

definition ring_list :: "('a, 'w::len) ring \<Rightarrow> 'a list" where
  "ring_list r = map (\<lambda>i. rslots r ! (unat (rtail r + of_nat i) mod length (rslots r)))
                   [0..<ring_gap r]"

text \<open>
  A ring is sound while the gap fits the array and the slot reduction agrees across the
  counter's wrap-around, i.e. the size of the array divides the counter's modulus.
\<close>

definition ring_wf :: "('a, 'w::len) ring \<Rightarrow> bool" where
  "ring_wf r \<longleftrightarrow> 0 < length (rslots r) \<and> length (rslots r) dvd 2 ^ LENGTH('w)
     \<and> ring_gap r \<le> length (rslots r) \<and> length (rslots r) < 2 ^ LENGTH('w)"

lemma length_ring_list [simp]: "length (ring_list r) = ring_gap r"
  by (simp add: ring_list_def)

lemma ring_nonempty_iff: "ring_nonempty r \<longleftrightarrow> 0 < ring_gap r"
  by (auto simp: ring_nonempty_def ring_gap_def unat_gt_0)

lemma ring_list_nil_iff [simp]: "ring_list r = [] \<longleftrightarrow> \<not> ring_nonempty r"
  by (simp add: ring_nonempty_iff ring_list_def)

lemma unat_mod_dvd:
  "n dvd 2 ^ LENGTH('w) \<Longrightarrow> unat (a + b :: 'w::len word) mod n = (unat a + unat b) mod n"
  by (simp add: unat_word_ariths mod_mod_cancel)

lemma length_rslots [simp]:
  "length (rslots (ring_put x r)) = length (rslots r)"
  "length (rslots (ring_drop r)) = length (rslots r)"
  "length (rslots (ring_snap r)) = length (rslots r)"
  by (simp_all add: ring_put_def ring_drop_def ring_snap_def)

lemma ring_gap_put:
  assumes "ring_gap r + 1 < 2 ^ LENGTH('w)"
  shows "ring_gap (ring_put x (r :: ('a, 'w::len) ring)) = ring_gap r + 1"
proof -
  have "rhead r + 1 - rtail r = (rhead r - rtail r) + 1" by simp
  moreover have "unat ((rhead r - rtail r) + 1) = unat (rhead r - rtail r) + 1"
    using assms by (simp add: ring_gap_def unat_word_ariths)
  moreover have "ring_gap (ring_put x r) = unat (rhead r + 1 - rtail r)"
    by (simp add: ring_gap_def ring_put_def)
  ultimately show ?thesis by (simp only: ring_gap_def)
qed

lemma ring_gap_drop:
  assumes "ring_nonempty r"
  shows "ring_gap (ring_drop r) = ring_gap r - 1"
proof -
  have "rhead r - (rtail r + 1) = (rhead r - rtail r) - 1" by simp
  moreover have "rhead r - rtail r \<noteq> 0" using assms by (simp add: ring_nonempty_def)
  moreover have "ring_gap (ring_drop r) = unat (rhead r - (rtail r + 1))"
    by (simp add: ring_gap_def ring_drop_def)
  ultimately show ?thesis by (simp only: ring_gap_def unat_minus_one simp_thms not_False_eq_True)
qed

lemma ring_snap_gap [simp]: "ring_gap (ring_snap r) = 0"
  by (simp add: ring_gap_def ring_snap_def)

lemma ring_snap_list [simp]: "ring_list (ring_snap r) = []"
  by (simp add: ring_list_def)

lemma ring_snap_wf: "ring_wf r \<Longrightarrow> ring_wf (ring_snap r)"
  by (simp add: ring_wf_def)

lemma ring_put_law:
  fixes r :: "('a, 'w::len) ring"
  assumes w: "ring_wf r" and g: "ring_gap r < length (rslots r)"
  shows "ring_wf (ring_put x r) \<and> ring_list (ring_put x r) = ring_list r @ [x]"
proof -
  let ?n = "length (rslots r)"
  let ?g = "ring_gap r"
  have n: "0 < ?n" "?n dvd 2 ^ LENGTH('w)" "?n < 2 ^ LENGTH('w)" using w by (auto simp: ring_wf_def)
  have gap: "ring_gap (ring_put x r) = ?g + 1" using g n by (intro ring_gap_put) simp
  have hd: "rhead r = rtail r + of_nat ?g" by (simp add: ring_gap_def)
  have ix: "unat (rtail r + of_nat i) mod ?n = (unat (rtail r) + i) mod ?n"
    if "i \<le> ?g" for i
    using n that g by (subst unat_mod_dvd) (simp_all add: unat_of_nat)
  have ne: "unat (rtail r + of_nat i) mod ?n \<noteq> unat (rhead r) mod ?n" if "i < ?g" for i
  proof
    assume "unat (rtail r + of_nat i) mod ?n = unat (rhead r) mod ?n"
    then have "(unat (rtail r) + i) mod ?n = (unat (rtail r) + ?g) mod ?n"
      using ix [of i] ix [of ?g] that hd by simp
    then have "?n dvd (unat (rtail r) + ?g) - (unat (rtail r) + i)"
      by (metis mod_eq_dvd_iff_nat add_le_cancel_left less_imp_le that)
    then have "?n dvd ?g - i" by simp
    with that g show False by (auto dest: dvd_imp_le)
  qed
  have sl: "rslots (ring_put x r) = (rslots r)[unat (rhead r) mod ?n := x]"
    and tl: "rtail (ring_put x r) = rtail r"
    by (simp_all add: ring_put_def)
  have "ring_list (ring_put x r)
      = map (\<lambda>i. (rslots r)[unat (rhead r) mod ?n := x] ! (unat (rtail r + of_nat i) mod ?n)) [0..<?g + 1]"
    unfolding ring_list_def gap sl tl by simp
  also have "\<dots> = map (\<lambda>i. rslots r ! (unat (rtail r + of_nat i) mod ?n)) [0..<?g] @ [x]"
    using ne n by (simp add: nth_list_update_neq [OF not_sym] flip: hd cong: map_cong)
  finally have "ring_list (ring_put x r) = ring_list r @ [x]" by (simp add: ring_list_def)
  moreover have "ring_wf (ring_put x r)" using w g gap by (simp add: ring_wf_def)
  ultimately show ?thesis by simp
qed

lemma ring_list_Cons:
  assumes "ring_nonempty r"
  shows "ring_list r = ring_peek r # ring_list (ring_drop r)"
proof -
  obtain g where g: "ring_gap r = Suc g" using assms by (cases "ring_gap r") (auto simp: ring_nonempty_iff)
  have "ring_gap (ring_drop r) = g" using ring_gap_drop [OF assms] g by simp
  then show ?thesis
    by (simp add: ring_list_def g ring_peek_def upt_conv_Cons map_Suc_upt [symmetric] ring_drop_def
        add.assoc del: upt_Suc)
qed

lemma ring_drop_law:
  assumes "ring_wf r" and "ring_nonempty r"
  shows "ring_wf (ring_drop r) \<and> ring_list (ring_drop r) = tl (ring_list r)"
  using assms ring_list_Cons [OF assms(2)] ring_gap_drop [OF assms(2)]
  by (auto simp: ring_wf_def)

interpretation rg: bounded_queue ring_wf "\<lambda>r. length (rslots r)" ring_list ring_put ring_drop
  by unfold_locales (simp_all add: ring_put_law ring_drop_law)

text \<open>
  With the default motion ring of 48 slots the wrap of the 32-bit counter does move the slot:
  two pushes on either side of the wrap do not land in neighbouring slots.
\<close>

lemma ring_index_jumps_at_wrap:
  "unat (0xFFFFFFFF :: 32 word) mod 48 = 15 \<and> unat (0xFFFFFFFF + 1 :: 32 word) mod 48 = 0"
  by simp

end
