(* ===== verification/EsbRadio.thy ===== *)
theory EsbRadio
  imports Config Queues
begin

text \<open>
  The transmitter side of the vendored radio library \<open>src/vendor/nrf-esb/subsys/esb.c\<close> (PTX
  mode, dynamic payload length, automatic start, \<open>CONFIG_ESB_NEVER_DISABLE_TX\<close> on, fast
  switching off, as \<open>esb_transport.c\<close> configures it): the TX and RX payload FIFOs, the parking
  area of \<open>esb_stash_tx\<close>, the transmit state machine and its interrupt handlers, and the
  configuration setters with their state guards. What the hardware answers (whether a frame was
  acknowledged and with which payload, whether the timer and PPI initialise) is an argument;
  register writes without an effect on this state are left out. A payload's \<open>length\<close> field is
  the length of its data list.
\<close>

section \<open>State\<close>

datatype esb_state =
  ESB_IDLE | PTX_TX | PTX_TX_ACK | PTX_RX_ACK | PRX | PRX_SEND_ACK | PTX_TXIDLE

record payload =
  pl_pipe :: nat
  pl_data :: bytes
  pl_noack :: bool
  pl_pid :: nat
  pl_rssi :: int

datatype esb_evt = Tx_Success nat | Tx_Failed nat | Rx_Received

record esb_config =
  ec_retransmit_count :: nat
  ec_retransmit_delay :: nat
  ec_selective_auto_ack :: bool
  ec_tx_auto :: bool

record esb =
  esb_initialized :: bool
  esb_st :: esb_state
  tx_fifo :: "payload fifo"
  rx_fifo :: "payload fifo"
  esb_pids :: "nat list"
  esb_cfg :: esb_config
  rf_channel :: nat
  base0 :: bytes
  base1 :: bytes
  prefixes :: bytes
  current_payload :: "payload option"
  retransmits_remaining :: nat
  last_tx_attempts :: nat
  tx_stash :: "payload list"
  int_tx_success :: bool
  int_tx_failed :: bool
  int_rx_received :: bool

abbreviation (input) tx_queue :: "esb \<Rightarrow> payload list" where
  "tx_queue s \<equiv> fifo_list (tx_fifo s)"

abbreviation (input) tx_size :: "esb \<Rightarrow> nat" where
  "tx_size s \<equiv> length (slots (tx_fifo s))"

section \<open>Initialisation\<close>

definition reset_fifos :: "esb \<Rightarrow> esb" where
  "reset_fifos s = s\<lparr>tx_fifo := fifo_empty (tx_fifo s), rx_fifo := fifo_empty (rx_fifo s)\<rparr>"

definition esb_disable :: "esb \<Rightarrow> esb" where
  "esb_disable s =
     (let s1 = s\<lparr>esb_st := ESB_IDLE, esb_initialized := False\<rparr>;
          s2 = reset_fifos s1
      in s2\<lparr>esb_pids := map (\<lambda>_. 0) (esb_pids s2)\<rparr>)"

text \<open>\<open>timer_rc\<close> and \<open>ppi_rc\<close> are the results of \<open>sys_timer_init\<close> and \<open>esb_ppi_init\<close>.\<close>

definition esb_init :: "esb_config \<Rightarrow> rc \<Rightarrow> rc \<Rightarrow> esb \<Rightarrow> rc \<times> esb" where
  "esb_init config timer_rc ppi_rc s =
     (let s1 = (if esb_initialized s then esb_disable s else s);
          s2 = s1\<lparr>esb_cfg := config, int_tx_success := False, int_tx_failed := False,
                  int_rx_received := False, esb_pids := map (\<lambda>_. 0) (esb_pids s1)\<rparr>;
          s3 = reset_fifos s2
      in case timer_rc of Err e \<Rightarrow> (Err e, s3) | OK \<Rightarrow>
         (case ppi_rc of Err e \<Rightarrow> (Err e, s3) | OK \<Rightarrow>
            (OK, s3\<lparr>esb_st := ESB_IDLE, esb_initialized := True\<rparr>)))"

section \<open>The transmit state machine\<close>

definition start_tx_transaction :: "esb \<Rightarrow> esb" where
  "start_tx_transaction s =
     (let cur = slots (tx_fifo s) ! ffront (tx_fifo s);
          s1 = s\<lparr>last_tx_attempts := 1, current_payload := Some cur\<rparr>;
          ack = (\<not> pl_noack cur \<or> \<not> ec_selective_auto_ack (esb_cfg s))
      in if ack then s1\<lparr>retransmits_remaining := ec_retransmit_count (esb_cfg s),
                        esb_st := PTX_TX_ACK\<rparr>
         else s1\<lparr>esb_st := PTX_TX\<rparr>)"

definition tx_fifo_remove_last :: "esb \<Rightarrow> esb" where
  "tx_fifo_remove_last s =
     (if fcount (tx_fifo s) = 0 then s else s\<lparr>tx_fifo := fifo_drop (tx_fifo s)\<rparr>)"

definition rx_fifo_push_rfbuf :: "kconfig \<Rightarrow> payload \<Rightarrow> esb \<Rightarrow> bool \<times> esb" where
  "rx_fifo_push_rfbuf cfg p s =
     (if length (slots (rx_fifo s)) \<le> fcount (rx_fifo s) then (False, s)
      else if c_max_payload cfg < length (pl_data p) then (False, s)
      else (True, s\<lparr>rx_fifo := fifo_put p (rx_fifo s)\<rparr>))"

text \<open>End of a transmission without acknowledgement (\<open>CONFIG_ESB_NEVER_DISABLE_TX\<close>).\<close>

definition on_radio_end_tx_noack :: "esb \<Rightarrow> esb" where
  "on_radio_end_tx_noack s =
     (let s1 = tx_fifo_remove_last (s\<lparr>int_tx_success := True\<rparr>) in
      if fcount (tx_fifo s1) = 0 then s1\<lparr>esb_st := PTX_TXIDLE\<rparr> else start_tx_transaction s1)"

definition on_radio_disabled_tx :: "esb \<Rightarrow> esb" where
  "on_radio_disabled_tx s = s\<lparr>esb_st := PTX_RX_ACK\<rparr>"

text \<open>
  End of the acknowledge window: \<open>ack\<close> is the frame received with a good checksum, if any
  (its data is empty for a plain acknowledge). The retry counter is counted down after it is tested, so
  that it wraps when the last retry has failed; the next transaction loads it again.
\<close>

definition on_radio_disabled_tx_wait_for_ack :: "kconfig \<Rightarrow> payload option \<Rightarrow> esb \<Rightarrow> esb" where
  "on_radio_disabled_tx_wait_for_ack cfg ack s = (case ack of
     Some frame \<Rightarrow>
       (let s1 = s\<lparr>int_tx_success := True, last_tx_attempts :=
                    ec_retransmit_count (esb_cfg s) - retransmits_remaining s + 1\<rparr>;
            s2 = tx_fifo_remove_last s1;
            s3 = (if 0 < length (pl_data frame)
                  then (let (ok, s') = rx_fifo_push_rfbuf cfg frame s2
                        in if ok then s'\<lparr>int_rx_received := True\<rparr> else s')
                  else s2)
        in if fcount (tx_fifo s3) = 0 \<or> \<not> ec_tx_auto (esb_cfg s3) then s3\<lparr>esb_st := ESB_IDLE\<rparr>
           else start_tx_transaction s3)
   | None \<Rightarrow>
       (if retransmits_remaining s = 0
        then s\<lparr>retransmits_remaining := 2 ^ 32 - 1, last_tx_attempts := ec_retransmit_count (esb_cfg s) + 1,
               int_tx_failed := True, esb_st := ESB_IDLE\<rparr>
        else s\<lparr>retransmits_remaining := retransmits_remaining s - 1, esb_st := PTX_TX_ACK\<rparr>))"

text \<open>The event interrupt: one event per flag that is set, in this order, and the flags are cleared.\<close>

definition esb_evt_irq_handler :: "esb \<Rightarrow> esb_evt list \<times> esb" where
  "esb_evt_irq_handler s =
     ((if int_tx_success s then [Tx_Success (last_tx_attempts s)] else [])
      @ (if int_tx_failed s then [Tx_Failed (last_tx_attempts s)] else [])
      @ (if int_rx_received s then [Rx_Received] else []),
      s\<lparr>int_tx_success := False, int_tx_failed := False, int_rx_received := False\<rparr>)"

section \<open>The interface to the transport\<close>

definition esb_write_payload :: "kconfig \<Rightarrow> payload \<Rightarrow> esb \<Rightarrow> rc \<times> esb" where
  "esb_write_payload cfg p s =
     (if \<not> esb_initialized s then (Err EACCES, s)
      else if length (pl_data p) = 0 \<or> c_max_payload cfg < length (pl_data p) then (Err EMSGSIZE, s)
      else if tx_size s \<le> fcount (tx_fifo s) then (Err ENOMEM, s)
      else if c_pipe_count cfg \<le> pl_pipe p then (Err EINVAL, s)
      else
        let pid = (esb_pids s ! pl_pipe p + 1) mod 4;
            s1 = s\<lparr>esb_pids := (esb_pids s)[pl_pipe p := pid],
                   tx_fifo := fifo_put (p\<lparr>pl_pid := pid\<rparr>) (tx_fifo s)\<rparr>
        in (OK, if ec_tx_auto (esb_cfg s1) \<and> (esb_st s1 = ESB_IDLE \<or> esb_st s1 = PTX_TXIDLE)
                then start_tx_transaction s1 else s1))"

definition esb_read_rx_payload :: "esb \<Rightarrow> (errno + payload) \<times> esb" where
  "esb_read_rx_payload s =
     (if \<not> esb_initialized s then (Inl EACCES, s)
      else if fcount (rx_fifo s) = 0 then (Inl ENODATA, s)
      else (Inr (slots (rx_fifo s) ! ffront (rx_fifo s)), s\<lparr>rx_fifo := fifo_drop (rx_fifo s)\<rparr>))"

definition esb_start_tx :: "esb \<Rightarrow> rc \<times> esb" where
  "esb_start_tx s =
     (if esb_st s \<noteq> ESB_IDLE then (Err EBUSY, s)
      else if fcount (tx_fifo s) = 0 then (Err ENODATA, s)
      else (OK, start_tx_transaction s))"

definition esb_stop_tx :: "esb \<Rightarrow> rc \<times> esb" where
  "esb_stop_tx s = (if esb_st s = ESB_IDLE then (OK, s) else (OK, s\<lparr>esb_st := ESB_IDLE\<rparr>))"

definition esb_flush_tx :: "esb \<Rightarrow> rc \<times> esb" where
  "esb_flush_tx s =
     (if \<not> esb_initialized s then (Err EACCES, s)
      else (OK, s\<lparr>tx_fifo := fifo_empty (tx_fifo s)\<rparr>))"

text \<open>The count returned on success is the length of the stash.\<close>

definition esb_stash_tx :: "esb \<Rightarrow> (errno + nat) \<times> esb" where
  "esb_stash_tx s =
     (if \<not> esb_initialized s then (Inl EACCES, s)
      else let parked = fifo_walk (slots (tx_fifo s)) (ffront (tx_fifo s)) (fcount (tx_fifo s))
        in (Inr (length parked), s\<lparr>tx_stash := parked, tx_fifo := fifo_empty (tx_fifo s)\<rparr>))"

definition esb_restore_tx :: "esb \<Rightarrow> (errno + nat) \<times> esb" where
  "esb_restore_tx s =
     (if \<not> esb_initialized s then (Inl EACCES, s)
      else if length (tx_stash s) = 0 then (Inr 0, s)
      else if tx_size s < fcount (tx_fifo s) + length (tx_stash s) then (Inl ENOMEM, s)
      else (Inr (length (tx_stash s)),
            s\<lparr>tx_fifo := fold fifo_put (tx_stash s) (tx_fifo s), tx_stash := []\<rparr>))"

definition esb_pop_tx :: "esb \<Rightarrow> rc \<times> esb" where
  "esb_pop_tx s =
     (if \<not> esb_initialized s then (Err EACCES, s)
      else if fcount (tx_fifo s) = 0 then (Err ENODATA, s)
      else (OK, s\<lparr>tx_fifo := (tx_fifo s)\<lparr>fback := bump (tx_size s) (fback (tx_fifo s)),
                                        fcount := fcount (tx_fifo s) - 1\<rparr>\<rparr>))"

definition esb_tx_full :: "esb \<Rightarrow> bool" where
  "esb_tx_full s \<longleftrightarrow> tx_size s \<le> fcount (tx_fifo s)"

definition esb_tx_count :: "esb \<Rightarrow> nat" where
  "esb_tx_count s = fcount (tx_fifo s)"

definition esb_set_base_address_0 :: "bytes \<Rightarrow> esb \<Rightarrow> rc \<times> esb" where
  "esb_set_base_address_0 addr s =
     (if esb_st s \<noteq> ESB_IDLE then (Err EBUSY, s) else (OK, s\<lparr>base0 := addr\<rparr>))"

definition esb_set_base_address_1 :: "bytes \<Rightarrow> esb \<Rightarrow> rc \<times> esb" where
  "esb_set_base_address_1 addr s =
     (if esb_st s \<noteq> ESB_IDLE then (Err EBUSY, s) else (OK, s\<lparr>base1 := addr\<rparr>))"

definition esb_set_prefixes :: "kconfig \<Rightarrow> bytes \<Rightarrow> nat \<Rightarrow> esb \<Rightarrow> rc \<times> esb" where
  "esb_set_prefixes cfg pfx num s =
     (if esb_st s \<noteq> ESB_IDLE then (Err EBUSY, s)
      else if c_pipe_count cfg < num then (Err EINVAL, s)
      else (OK, s\<lparr>prefixes := take num pfx @ drop num (prefixes s)\<rparr>))"

definition esb_set_rf_channel :: "nat \<Rightarrow> esb \<Rightarrow> rc \<times> esb" where
  "esb_set_rf_channel channel s =
     (if 100 < channel then (Err EINVAL, s)
      else if esb_st s \<noteq> ESB_IDLE then (Err EBUSY, s)
      else (OK, s\<lparr>rf_channel := channel\<rparr>))"

definition esb_set_retransmit_delay :: "nat \<Rightarrow> esb \<Rightarrow> rc \<times> esb" where
  "esb_set_retransmit_delay delay s =
     (if esb_st s \<noteq> ESB_IDLE then (Err EBUSY, s)
      else if delay < 435 then (Err EINVAL, s)
      else (OK, s\<lparr>esb_cfg := (esb_cfg s)\<lparr>ec_retransmit_delay := delay\<rparr>\<rparr>))"

definition esb_set_retransmit_count :: "nat \<Rightarrow> esb \<Rightarrow> rc \<times> esb" where
  "esb_set_retransmit_count cnt s =
     (if esb_st s \<noteq> ESB_IDLE then (Err EBUSY, s)
      else (OK, s\<lparr>esb_cfg := (esb_cfg s)\<lparr>ec_retransmit_count := cnt\<rparr>\<rparr>))"

section \<open>Well-formed radio state\<close>

definition payload_ok :: "kconfig \<Rightarrow> payload \<Rightarrow> bool" where
  "payload_ok cfg p \<longleftrightarrow> 0 < length (pl_data p) \<and> length (pl_data p) \<le> c_max_payload cfg
     \<and> pl_pipe p < c_pipe_count cfg \<and> pl_pid p < 4"

definition in_ack_cycle :: "esb \<Rightarrow> bool" where
  "in_ack_cycle s \<longleftrightarrow> esb_st s = PTX_TX_ACK \<or> esb_st s = PTX_RX_ACK"

definition esb_wf :: "kconfig \<Rightarrow> esb \<Rightarrow> bool" where
  "esb_wf cfg s \<longleftrightarrow>
     fifo_wf (tx_fifo s) \<and> fifo_wf (rx_fifo s) \<and> tx_size s = c_tx_fifo cfg
   \<and> length (esb_pids s) = c_pipe_count cfg
   \<and> (\<forall>p \<in> set (tx_queue s) \<union> set (tx_stash s). payload_ok cfg p)
   \<and> length (tx_stash s) \<le> c_tx_fifo cfg \<and> rf_channel s \<le> 100
   \<and> (in_ack_cycle s \<longrightarrow> retransmits_remaining s \<le> ec_retransmit_count (esb_cfg s))
   \<and> (in_ack_cycle s \<or> esb_st s = PTX_TX \<longrightarrow> (\<exists>p. current_payload s = Some p \<and> payload_ok cfg p))"

named_theorems esb_defs \<open>definitions of the radio operations\<close>

lemmas [esb_defs] = reset_fifos_def esb_disable_def tx_fifo_remove_last_def rx_fifo_push_rfbuf_def
  on_radio_disabled_tx_def esb_evt_irq_handler_def esb_read_rx_payload_def esb_start_tx_def
  esb_stop_tx_def esb_flush_tx_def esb_set_base_address_0_def esb_set_base_address_1_def
  esb_set_prefixes_def esb_set_rf_channel_def esb_set_retransmit_delay_def
  esb_set_retransmit_count_def

lemma start_tx_frame [simp]:
  "tx_fifo (start_tx_transaction s) = tx_fifo s" "rx_fifo (start_tx_transaction s) = rx_fifo s"
  "esb_pids (start_tx_transaction s) = esb_pids s" "tx_stash (start_tx_transaction s) = tx_stash s"
  "rf_channel (start_tx_transaction s) = rf_channel s" "esb_cfg (start_tx_transaction s) = esb_cfg s"
  "esb_initialized (start_tx_transaction s) = esb_initialized s"
  "int_tx_success (start_tx_transaction s) = int_tx_success s"
  "int_tx_failed (start_tx_transaction s) = int_tx_failed s"
  "int_rx_received (start_tx_transaction s) = int_rx_received s"
  by (simp_all add: start_tx_transaction_def Let_def)

lemma start_tx_not_idle [simp]: "esb_st (start_tx_transaction s) \<noteq> ESB_IDLE"
  by (simp add: start_tx_transaction_def Let_def)

lemma start_tx_current:
  "0 < fcount (tx_fifo s) \<Longrightarrow> current_payload (start_tx_transaction s) = Some (tx_queue s ! 0)"
  by (simp add: start_tx_transaction_def Let_def fifo_list_hd)

lemma start_tx_remaining:
  "in_ack_cycle (start_tx_transaction s) \<Longrightarrow>
     retransmits_remaining (start_tx_transaction s) = ec_retransmit_count (esb_cfg s)"
  by (auto simp: start_tx_transaction_def Let_def in_ack_cycle_def split: if_splits)

lemma esb_wf_start:
  assumes "esb_wf cfg s" "0 < fcount (tx_fifo s)"
  shows "esb_wf cfg (start_tx_transaction s)"
proof -
  have "tx_queue s ! 0 \<in> set (tx_queue s)" using assms(2) by (intro nth_mem) simp
  with assms show ?thesis
    by (auto simp: esb_wf_def start_tx_current start_tx_remaining)
qed

text \<open>Fields a change of which cannot break well-formedness.\<close>

lemma esb_wf_idle:
  "esb_wf cfg s \<Longrightarrow> esb_wf cfg (s\<lparr>esb_st := ESB_IDLE\<rparr>)"
  "esb_wf cfg s \<Longrightarrow> esb_wf cfg (s\<lparr>esb_st := PTX_TXIDLE\<rparr>)"
  by (simp_all add: esb_wf_def in_ack_cycle_def)

lemma esb_wf_flags [simp]:
  "esb_wf cfg (s\<lparr>int_tx_success := a\<rparr>) = esb_wf cfg s"
  "esb_wf cfg (s\<lparr>int_tx_failed := a\<rparr>) = esb_wf cfg s"
  "esb_wf cfg (s\<lparr>int_rx_received := a\<rparr>) = esb_wf cfg s"
  "esb_wf cfg (s\<lparr>last_tx_attempts := n\<rparr>) = esb_wf cfg s"
  "esb_wf cfg (s\<lparr>esb_initialized := a\<rparr>) = esb_wf cfg s"
  by (simp_all add: esb_wf_def in_ack_cycle_def)

lemma set_tl_subset: "set (tl xs) \<subseteq> set xs"
  by (cases xs) auto

lemma esb_wf_remove:
  assumes "esb_wf cfg s"
  shows "esb_wf cfg (tx_fifo_remove_last s)"
proof (cases "fcount (tx_fifo s) = 0")
  case False
  with fifo_drop_law [of "tx_fifo s"] assms set_tl_subset [of "tx_queue s"] show ?thesis
    by (auto simp: esb_wf_def tx_fifo_remove_last_def in_ack_cycle_def)
qed (use assms in \<open>simp add: tx_fifo_remove_last_def\<close>)

lemma remove_last_frame [simp]:
  "rx_fifo (tx_fifo_remove_last s) = rx_fifo s" "esb_st (tx_fifo_remove_last s) = esb_st s"
  "esb_cfg (tx_fifo_remove_last s) = esb_cfg s" "tx_stash (tx_fifo_remove_last s) = tx_stash s"
  "esb_initialized (tx_fifo_remove_last s) = esb_initialized s"
  "int_tx_success (tx_fifo_remove_last s) = int_tx_success s"
  "int_tx_failed (tx_fifo_remove_last s) = int_tx_failed s"
  "last_tx_attempts (tx_fifo_remove_last s) = last_tx_attempts s"
  "rf_channel (tx_fifo_remove_last s) = rf_channel s"
  by (simp_all add: tx_fifo_remove_last_def)

lemma remove_last_queue: "fifo_wf (tx_fifo s) \<Longrightarrow> tx_queue (tx_fifo_remove_last s) = tl (tx_queue s)"
  using fifo_drop_law [of "tx_fifo s"] fifo_list_nil_iff [of "tx_fifo s"]
  by (auto simp: tx_fifo_remove_last_def simp del: fifo_list_nil_iff)

lemma esb_wf_fifos: "esb_wf cfg s \<Longrightarrow> fifo_wf (tx_fifo s) \<and> fifo_wf (rx_fifo s)"
  by (simp add: esb_wf_def)

lemma esb_wf_rx:
  assumes "esb_wf cfg s" "fifo_wf f"
  shows "esb_wf cfg (s\<lparr>rx_fifo := f\<rparr>)"
  using assms by (simp add: esb_wf_def in_ack_cycle_def)

lemma esb_wf_rx_push: "esb_wf cfg s \<Longrightarrow> esb_wf cfg (snd (rx_fifo_push_rfbuf cfg p s))"
  by (auto simp: rx_fifo_push_rfbuf_def fifo_put_law dest: esb_wf_fifos intro!: esb_wf_rx)

lemma rx_push_frame [simp]:
  "tx_fifo (snd (rx_fifo_push_rfbuf cfg p s)) = tx_fifo s"
  "esb_cfg (snd (rx_fifo_push_rfbuf cfg p s)) = esb_cfg s"
  "esb_initialized (snd (rx_fifo_push_rfbuf cfg p s)) = esb_initialized s"
  "tx_stash (snd (rx_fifo_push_rfbuf cfg p s)) = tx_stash s"
  "int_tx_success (snd (rx_fifo_push_rfbuf cfg p s)) = int_tx_success s"
  "int_tx_failed (snd (rx_fifo_push_rfbuf cfg p s)) = int_tx_failed s"
  "rf_channel (snd (rx_fifo_push_rfbuf cfg p s)) = rf_channel s"
  by (simp_all add: rx_fifo_push_rfbuf_def)

lemma esb_wf_noack:
  assumes "esb_wf cfg s"
  shows "esb_wf cfg (on_radio_end_tx_noack s)"
proof -
  let ?s1 = "tx_fifo_remove_last (s\<lparr>int_tx_success := True\<rparr>)"
  have "esb_wf cfg ?s1" using assms by (simp add: esb_wf_remove)
  then show ?thesis
    by (simp add: on_radio_end_tx_noack_def Let_def esb_wf_idle esb_wf_start)
qed

text \<open>The acknowledged branch, with the reception of the acknowledge payload factored out.\<close>

definition ack_reception :: "kconfig \<Rightarrow> payload \<Rightarrow> esb \<Rightarrow> esb" where
  "ack_reception cfg frame s2 =
     (if 0 < length (pl_data frame)
      then (let (ok, s') = rx_fifo_push_rfbuf cfg frame s2
            in if ok then s'\<lparr>int_rx_received := True\<rparr> else s')
      else s2)"

lemma wait_for_ack_Some:
  "on_radio_disabled_tx_wait_for_ack cfg (Some frame) s =
     (let s3 = ack_reception cfg frame (tx_fifo_remove_last (s\<lparr>int_tx_success := True,
                 last_tx_attempts := ec_retransmit_count (esb_cfg s) - retransmits_remaining s + 1\<rparr>))
      in if fcount (tx_fifo s3) = 0 \<or> \<not> ec_tx_auto (esb_cfg s3) then s3\<lparr>esb_st := ESB_IDLE\<rparr>
         else start_tx_transaction s3)"
  by (simp add: on_radio_disabled_tx_wait_for_ack_def ack_reception_def Let_def)

lemma ack_reception_frame [simp]:
  "tx_fifo (ack_reception cfg frame s) = tx_fifo s"
  "esb_cfg (ack_reception cfg frame s) = esb_cfg s"
  "esb_initialized (ack_reception cfg frame s) = esb_initialized s"
  "tx_stash (ack_reception cfg frame s) = tx_stash s"
  "int_tx_success (ack_reception cfg frame s) = int_tx_success s"
  "int_tx_failed (ack_reception cfg frame s) = int_tx_failed s"
  "rf_channel (ack_reception cfg frame s) = rf_channel s"
  by (auto simp: ack_reception_def rx_fifo_push_rfbuf_def Let_def)

lemma esb_wf_ack_reception: "esb_wf cfg s \<Longrightarrow> esb_wf cfg (ack_reception cfg frame s)"
  using esb_wf_rx_push [of cfg s frame]
  by (auto simp: ack_reception_def Let_def split_beta)

lemma esb_wf_wait_for_ack:
  assumes "esb_wf cfg s" "in_ack_cycle s"
  shows "esb_wf cfg (on_radio_disabled_tx_wait_for_ack cfg ack s)"
proof (cases ack)
  case None
  with assms show ?thesis
    by (auto simp: on_radio_disabled_tx_wait_for_ack_def esb_wf_def in_ack_cycle_def)
next
  case (Some frame)
  let ?s3 = "ack_reception cfg frame (tx_fifo_remove_last (s\<lparr>int_tx_success := True,
     last_tx_attempts := ec_retransmit_count (esb_cfg s) - retransmits_remaining s + 1\<rparr>))"
  have "esb_wf cfg ?s3" using assms by (intro esb_wf_ack_reception esb_wf_remove) simp
  with Some show ?thesis
    by (auto simp: wait_for_ack_Some Let_def esb_wf_idle esb_wf_start)
qed

lemma ack_queue:
  assumes "fifo_wf (tx_fifo s)"
  shows "tx_queue (on_radio_disabled_tx_wait_for_ack cfg (Some frame) s) = tl (tx_queue s)
    \<and> int_tx_success (on_radio_disabled_tx_wait_for_ack cfg (Some frame) s)
    \<and> int_tx_failed (on_radio_disabled_tx_wait_for_ack cfg (Some frame) s) = int_tx_failed s"
  using assms by (simp add: wait_for_ack_Some Let_def remove_last_queue)

text \<open>The write, branch by branch.\<close>

definition write_error :: "kconfig \<Rightarrow> payload \<Rightarrow> esb \<Rightarrow> errno option" where
  "write_error cfg p s =
     (if \<not> esb_initialized s then Some EACCES
      else if length (pl_data p) = 0 \<or> c_max_payload cfg < length (pl_data p) then Some EMSGSIZE
      else if esb_tx_full s then Some ENOMEM
      else if c_pipe_count cfg \<le> pl_pipe p then Some EINVAL else None)"

lemma write_error_iff:
  "esb_write_payload cfg p s = (case write_error cfg p s of Some e \<Rightarrow> (Err e, s)
     | None \<Rightarrow> (OK, snd (esb_write_payload cfg p s)))"
  by (simp add: esb_write_payload_def write_error_def esb_tx_full_def Let_def)

lemma write_ok:
  assumes "esb_wf cfg s" "write_error cfg p s = None"
  defines "pid \<equiv> (esb_pids s ! pl_pipe p + 1) mod 4"
  shows "tx_queue (snd (esb_write_payload cfg p s)) = tx_queue s @ [p\<lparr>pl_pid := pid\<rparr>]
       \<and> esb_wf cfg (snd (esb_write_payload cfg p s))"
proof -
  let ?s1 = "s\<lparr>esb_pids := (esb_pids s)[pl_pipe p := pid], tx_fifo := fifo_put (p\<lparr>pl_pid := pid\<rparr>) (tx_fifo s)\<rparr>"
  have e: "esb_initialized s" "0 < length (pl_data p)" "length (pl_data p) \<le> c_max_payload cfg"
    "fcount (tx_fifo s) < tx_size s" "pl_pipe p < c_pipe_count cfg"
    using assms(2) by (auto simp: write_error_def esb_tx_full_def split: if_splits)
  have p: "fifo_wf (fifo_put (p\<lparr>pl_pid := pid\<rparr>) (tx_fifo s))
      \<and> fifo_list (fifo_put (p\<lparr>pl_pid := pid\<rparr>) (tx_fifo s)) = tx_queue s @ [p\<lparr>pl_pid := pid\<rparr>]"
    using assms(1) e by (intro fifo_put_law) (simp_all add: esb_wf_def)
  have ok: "payload_ok cfg (p\<lparr>pl_pid := pid\<rparr>)" using e by (simp add: payload_ok_def pid_def)
  have w1: "esb_wf cfg ?s1" using assms(1) p ok by (auto simp: esb_wf_def in_ack_cycle_def)
  have eq: "snd (esb_write_payload cfg p s) =
      (if ec_tx_auto (esb_cfg s) \<and> (esb_st s = ESB_IDLE \<or> esb_st s = PTX_TXIDLE)
       then start_tx_transaction ?s1 else ?s1)"
    using e by (auto simp: esb_write_payload_def Let_def pid_def)
  have "esb_wf cfg (start_tx_transaction ?s1)" using w1 by (intro esb_wf_start) simp_all
  with w1 p eq show ?thesis by simp
qed

lemma esb_wf_write: "esb_wf cfg s \<Longrightarrow> esb_wf cfg (snd (esb_write_payload cfg p s))"
  using write_ok [of cfg s p] write_error_iff [of cfg p s]
  by (cases "write_error cfg p s") auto

lemma fifo_list_zero: "fcount f = 0 \<Longrightarrow> fifo_list f = []"
  by simp

lemma fifo_walk_tx_queue [simp]:
  "fifo_walk (slots (tx_fifo s)) (ffront (tx_fifo s)) (fcount (tx_fifo s)) = tx_queue s"
  by (simp add: fifo_list_def)

lemma esb_wf_stash: "esb_wf cfg s \<Longrightarrow> esb_wf cfg (snd (esb_stash_tx s))"
  by (auto simp: esb_stash_tx_def Let_def esb_wf_def in_ack_cycle_def fifo_empty_wf)
    (auto simp: fifo_wf_def)

lemma restore_law:
  assumes "esb_wf cfg s" "fcount (tx_fifo s) + length (tx_stash s) \<le> tx_size s"
  shows "fifo_wf (fold fifo_put (tx_stash s) (tx_fifo s))
       \<and> fifo_list (fold fifo_put (tx_stash s) (tx_fifo s)) = tx_queue s @ tx_stash s
       \<and> length (slots (fold fifo_put (tx_stash s) (tx_fifo s))) = tx_size s"
  using ff.enq_all [of "tx_fifo s" "tx_stash s"] assms by (simp add: esb_wf_def)

lemma esb_wf_restore: "esb_wf cfg s \<Longrightarrow> esb_wf cfg (snd (esb_restore_tx s))"
  using restore_law [of cfg s]
  by (auto simp: esb_restore_tx_def esb_wf_def in_ack_cycle_def)

lemma esb_wf_flush: "esb_wf cfg s \<Longrightarrow> esb_wf cfg (snd (esb_flush_tx s))"
  by (simp add: esb_flush_tx_def esb_wf_def in_ack_cycle_def fifo_empty_wf)

lemma esb_wf_disable: "esb_wf cfg s \<Longrightarrow> esb_wf cfg (esb_disable s)"
  by (simp add: esb_disable_def reset_fifos_def Let_def esb_wf_def in_ack_cycle_def fifo_empty_wf)

lemma esb_wf_init:
  assumes "esb_wf cfg s" and "\<not> in_ack_cycle s \<or> esb_initialized s"
  shows "esb_wf cfg (snd (esb_init config t p s))"
proof -
  let ?s1 = "if esb_initialized s then esb_disable s else s"
  have w: "esb_wf cfg ?s1" using assms(1) esb_wf_disable by simp
  have n: "\<not> in_ack_cycle ?s1"
    using assms(2) by (auto simp: esb_disable_def reset_fifos_def Let_def in_ack_cycle_def)
  have "esb_wf cfg (reset_fifos (?s1\<lparr>esb_cfg := config, int_tx_success := False, int_tx_failed := False,
          int_rx_received := False, esb_pids := map (\<lambda>_. 0) (esb_pids ?s1)\<rparr>))"
    using w n by (simp add: esb_wf_def in_ack_cycle_def reset_fifos_def fifo_empty_wf)
  then show ?thesis
    by (auto simp: esb_init_def Let_def esb_wf_idle split: rc.split)
qed

lemma esb_wf_setters:
  assumes "esb_wf cfg s"
  shows "esb_wf cfg (snd (esb_set_rf_channel ch s))"
    and "esb_wf cfg (snd (esb_set_retransmit_delay d s))"
    and "esb_wf cfg (snd (esb_set_retransmit_count n s))"
    and "esb_wf cfg (snd (esb_set_base_address_0 b s))"
    and "esb_wf cfg (snd (esb_set_base_address_1 b s))"
    and "esb_wf cfg (snd (esb_set_prefixes cfg b k s))"
    and "esb_wf cfg (snd (esb_stop_tx s))"
  using assms by (auto simp: esb_defs esb_wf_def in_ack_cycle_def)

lemma esb_wf_start_tx: "esb_wf cfg s \<Longrightarrow> esb_wf cfg (snd (esb_start_tx s))"
  by (simp add: esb_start_tx_def esb_wf_start)

lemma esb_wf_read_rx: "esb_wf cfg s \<Longrightarrow> esb_wf cfg (snd (esb_read_rx_payload s))"
  using fifo_drop_law [of "rx_fifo s"]
  by (auto simp: esb_read_rx_payload_def esb_wf_def in_ack_cycle_def)

lemma esb_wf_evt_irq: "esb_wf cfg s \<Longrightarrow> esb_wf cfg (snd (esb_evt_irq_handler s))"
  by (simp add: esb_evt_irq_handler_def)

lemma esb_wf_tx_done: "esb_wf cfg s \<Longrightarrow> in_ack_cycle s \<Longrightarrow> esb_wf cfg (on_radio_disabled_tx s)"
  by (auto simp: on_radio_disabled_tx_def esb_wf_def in_ack_cycle_def)

section \<open>Reachable radio states\<close>

definition blank_payload :: payload where
  "blank_payload = \<lparr>pl_pipe = 0, pl_data = [], pl_noack = False, pl_pid = 0, pl_rssi = 0\<rparr>"

text \<open>The static variables as the linker zeroes them.\<close>

definition esb_boot :: "kconfig \<Rightarrow> esb" where
  "esb_boot cfg = \<lparr>esb_initialized = False, esb_st = ESB_IDLE,
     tx_fifo = \<lparr>slots = replicate (c_tx_fifo cfg) blank_payload, fback = 0, ffront = 0, fcount = 0\<rparr>,
     rx_fifo = \<lparr>slots = replicate (c_rx_fifo cfg) blank_payload, fback = 0, ffront = 0, fcount = 0\<rparr>,
     esb_pids = replicate (c_pipe_count cfg) 0,
     esb_cfg = \<lparr>ec_retransmit_count = 0, ec_retransmit_delay = 0, ec_selective_auto_ack = False,
                ec_tx_auto = False\<rparr>,
     rf_channel = 2, base0 = replicate 4 0xE7, base1 = replicate 4 0xC2,
     prefixes = [0xE7, 0xC2, 0xC3, 0xC4, 0xC5, 0xC6, 0xC7, 0xC8],
     current_payload = None, retransmits_remaining = 0, last_tx_attempts = 0, tx_stash = [],
     int_tx_success = False, int_tx_failed = False, int_rx_received = False\<rparr>"

text \<open>
  The calls the transport makes and the interrupts the hardware raises, in any order. The state
  variable \<open>on_radio_disabled\<close> of the C code selects the interrupt handler; it always agrees
  with \<open>esb_state\<close>, which is the guard here.
\<close>

inductive radio_step :: "kconfig \<Rightarrow> esb \<Rightarrow> esb \<Rightarrow> bool" for cfg where
  r_init: "radio_step cfg s (snd (esb_init config t p s))"
| r_disable: "radio_step cfg s (esb_disable s)"
| r_write: "radio_step cfg s (snd (esb_write_payload cfg p s))"
| r_read: "radio_step cfg s (snd (esb_read_rx_payload s))"
| r_start: "radio_step cfg s (snd (esb_start_tx s))"
| r_stop: "radio_step cfg s (snd (esb_stop_tx s))"
| r_flush: "radio_step cfg s (snd (esb_flush_tx s))"
| r_stash: "radio_step cfg s (snd (esb_stash_tx s))"
| r_restore: "radio_step cfg s (snd (esb_restore_tx s))"
| r_channel: "radio_step cfg s (snd (esb_set_rf_channel ch s))"
| r_delay: "radio_step cfg s (snd (esb_set_retransmit_delay d s))"
| r_count: "radio_step cfg s (snd (esb_set_retransmit_count n s))"
| r_base0: "radio_step cfg s (snd (esb_set_base_address_0 b s))"
| r_base1: "radio_step cfg s (snd (esb_set_base_address_1 b s))"
| r_prefixes: "radio_step cfg s (snd (esb_set_prefixes cfg b k s))"
| r_end_noack: "esb_st s = PTX_TX \<Longrightarrow> radio_step cfg s (on_radio_end_tx_noack s)"
| r_tx_done: "esb_st s = PTX_TX_ACK \<Longrightarrow> radio_step cfg s (on_radio_disabled_tx s)"
| r_window: "esb_st s = PTX_RX_ACK \<Longrightarrow> radio_step cfg s (on_radio_disabled_tx_wait_for_ack cfg ack s)"
| r_event: "radio_step cfg s (snd (esb_evt_irq_handler s))"

text \<open>While the library is not initialised the radio is idle and holds nothing.\<close>

definition esb_down :: "esb \<Rightarrow> bool" where
  "esb_down s \<longleftrightarrow> esb_initialized s \<or> esb_st s = ESB_IDLE \<and> fcount (tx_fifo s) = 0"

lemma esb_boot_wf: "kconfig_ok cfg \<Longrightarrow> esb_wf cfg (esb_boot cfg) \<and> esb_down (esb_boot cfg)"
  by (auto simp: esb_wf_def esb_boot_def in_ack_cycle_def esb_down_def fifo_wf_def fifo_list_def
      kconfig_ok_def)

lemma radio_step_wf:
  assumes "radio_step cfg s s'" "esb_wf cfg s" "esb_down s"
  shows "esb_wf cfg s'"
  using assms
proof cases
  case (r_init config t p)
  with assms show ?thesis by (auto simp: esb_down_def in_ack_cycle_def intro: esb_wf_init)
qed (auto simp: in_ack_cycle_def esb_wf_disable esb_wf_write esb_wf_read_rx esb_wf_start_tx
      esb_wf_setters esb_wf_flush esb_wf_stash esb_wf_restore esb_wf_noack esb_wf_evt_irq
      intro: esb_wf_tx_done esb_wf_wait_for_ack)

lemma radio_step_down:
  assumes "radio_step cfg s s'" "esb_down s"
  shows "esb_down s'"
  using assms
proof cases
  case (r_init config t p)
  with assms(2) show ?thesis
    by (auto simp: esb_down_def esb_init_def esb_disable_def reset_fifos_def Let_def split: rc.split)
next
  case (r_window ack)
  with assms(2) show ?thesis
    by (cases ack) (auto simp: esb_down_def on_radio_disabled_tx_wait_for_ack_def ack_reception_def
        Let_def split_beta)
qed (auto simp: esb_down_def esb_defs Let_def esb_write_payload_def esb_stash_tx_def
      esb_restore_tx_def on_radio_end_tx_noack_def)

interpretation radio_kept: step_invariant "radio_step cfg" "\<lambda>s. esb_wf cfg s \<and> esb_down s" for cfg
  by unfold_locales (auto intro: radio_step_wf radio_step_down)

lemma radio_reachable:
  "(radio_step cfg)\<^sup>*\<^sup>* (esb_boot cfg) s \<Longrightarrow> kconfig_ok cfg \<Longrightarrow> esb_wf cfg s \<and> esb_down s"
  by (rule radio_kept.reached_keeps) (auto simp: esb_boot_wf)

section \<open>Properties\<close>

text \<open>
  Writing a payload fails with exactly the documented code in exactly the documented cases,
  without touching the radio; otherwise it appends the payload, with the next two-bit packet id
  of its pipe, at the back of the queue, and an automatic transmitter that was idle starts with
  the packet at the front.
\<close>

lemma esb_write_payload_correct:
  assumes "esb_wf cfg s"
  shows "(case write_error cfg p s of
      Some e \<Rightarrow> esb_write_payload cfg p s = (Err e, s)
    | None \<Rightarrow> (let s' = snd (esb_write_payload cfg p s) in
          fst (esb_write_payload cfg p s) = OK \<and> esb_wf cfg s'
        \<and> tx_queue s' = tx_queue s @ [p\<lparr>pl_pid := (esb_pids s ! pl_pipe p + 1) mod 4\<rparr>]
        \<and> (ec_tx_auto (esb_cfg s) \<and> (esb_st s = ESB_IDLE \<or> esb_st s = PTX_TXIDLE) \<longrightarrow>
             current_payload s' = Some (tx_queue s' ! 0) \<and> esb_st s' \<noteq> ESB_IDLE \<and> esb_st s' \<noteq> PTX_TXIDLE)))"
proof (cases "write_error cfg p s")
  case None
  have st: "esb_st (start_tx_transaction t) \<noteq> ESB_IDLE \<and> esb_st (start_tx_transaction t) \<noteq> PTX_TXIDLE" for t
    by (simp add: start_tx_transaction_def Let_def)
  have "fst (esb_write_payload cfg p s) = OK"
    using write_error_iff [of cfg p s] None by (metis option.simps(4) fst_conv)
  moreover have "ec_tx_auto (esb_cfg s) \<and> (esb_st s = ESB_IDLE \<or> esb_st s = PTX_TXIDLE) \<Longrightarrow>
      \<exists>t. snd (esb_write_payload cfg p s) = start_tx_transaction t \<and> 0 < fcount (tx_fifo t)"
    using None by (auto simp: esb_write_payload_def write_error_def esb_tx_full_def Let_def split: if_splits)
  ultimately show ?thesis
    using write_ok [OF assms None] None st by (auto simp: Let_def start_tx_current)
next
  case (Some e)
  with write_error_iff [of cfg p s] show ?thesis by simp
qed

definition up_esb :: esb where
  "up_esb = snd (esb_init \<lparr>ec_retransmit_count = 5, ec_retransmit_delay = 610,
     ec_selective_auto_ack = False, ec_tx_auto = True\<rparr> OK OK (esb_boot default_kconfig))"

lemma up_esb_wf: "esb_wf default_kconfig up_esb"
  unfolding up_esb_def using esb_boot_wf [of default_kconfig]
  by (intro esb_wf_init) (auto simp: esb_down_def in_ack_cycle_def esb_boot_def)

lemma up_esb_simps [simp]:
  "esb_initialized up_esb" "esb_st up_esb = ESB_IDLE" "ec_tx_auto (esb_cfg up_esb)"
  "fcount (tx_fifo up_esb) = 0" "tx_size up_esb = 8" "esb_pids up_esb = [0, 0]" "tx_stash up_esb = []"
  "ec_retransmit_count (esb_cfg up_esb) = 5" "\<not> ec_selective_auto_ack (esb_cfg up_esb)"
  by (simp_all add: up_esb_def esb_init_def esb_boot_def reset_fifos_def Let_def default_kconfig_def
      fifo_empty_def numeral_2_eq_2)

definition ping :: payload where
  "ping = \<lparr>pl_pipe = 1, pl_data = [7], pl_noack = False, pl_pid = 0, pl_rssi = 0\<rparr>"

lemma ping_simps [simp]:
  "pl_pipe ping = 1" "pl_data ping = [7]" "\<not> pl_noack ping"
  by (simp_all add: ping_def)

text \<open>
  C19. Parking and restoring: \<open>esb_stash_tx\<close> empties the transmit queue and returns its length;
  restoring puts the parked packets behind whatever was queued meanwhile, in order and with
  their packet ids, exactly when they fit, and refuses with \<open>ENOMEM\<close> and no change otherwise.
  With nothing queued in between the round trip is the identity on the queue.
\<close>

theorem stash_restore_roundtrip:
  assumes "esb_wf cfg s" and "esb_initialized s"
  shows "fst (esb_stash_tx s) = Inr (length (tx_queue s)) \<and> tx_queue (snd (esb_stash_tx s)) = []
    \<and> tx_queue (snd (esb_restore_tx (snd (esb_stash_tx s)))) = tx_queue s
    \<and> (if length (tx_queue s) + length (tx_stash s) \<le> tx_size s
       then fst (esb_restore_tx s) = Inr (length (tx_stash s))
          \<and> tx_queue (snd (esb_restore_tx s)) = tx_queue s @ tx_stash s
          \<and> tx_stash (snd (esb_restore_tx s)) = []
       else tx_stash s \<noteq> [] \<longrightarrow> esb_restore_tx s = (Inl ENOMEM, s))"
proof -
  let ?p = "snd (esb_stash_tx s)"
  have st: "esb_initialized ?p" "tx_queue ?p = []" "tx_stash ?p = tx_queue s" "tx_size ?p = tx_size s"
    "fcount (tx_fifo ?p) = 0" "fst (esb_stash_tx s) = Inr (length (tx_queue s))"
    using assms(2) by (simp_all add: esb_stash_tx_def Let_def)
  have "fcount (tx_fifo s) \<le> tx_size s" using assms(1) by (simp add: esb_wf_def fifo_wf_def)
  with st restore_law [OF esb_wf_stash [OF assms(1)]]
  have "tx_queue (snd (esb_restore_tx ?p)) = tx_queue s"
    by (cases "tx_queue s = []") (simp_all add: esb_restore_tx_def fifo_list_zero)
  with st restore_law [OF assms(1)] assms(2) show ?thesis
    by (auto simp: esb_restore_tx_def)
qed

theorem stash_restore_roundtrip_witness:
  "length (tx_queue (snd (esb_restore_tx (snd (esb_stash_tx
      (snd (esb_write_payload default_kconfig ping up_esb))))))) = 1"
proof -
  let ?s = "snd (esb_write_payload default_kconfig ping up_esb)"
  have e: "write_error default_kconfig ping up_esb = None"
    by (simp add: write_error_def esb_tx_full_def default_kconfig_def)
  have q: "length (tx_queue ?s) = 1" and w: "esb_wf default_kconfig ?s"
    using write_ok [OF up_esb_wf e] by simp_all
  have "esb_initialized ?s" using e by (simp add: esb_write_payload_def Let_def)
  then have "tx_queue (snd (esb_restore_tx (snd (esb_stash_tx ?s)))) = tx_queue ?s"
    using stash_restore_roundtrip [OF w] by blast
  with q show ?thesis by (simp only:)
qed

text \<open>
  What the end of an acknowledge window does to the queue: a good acknowledge removes exactly
  the front packet and raises success; a miss with retries left keeps everything and resends; the
  last miss raises failure with \<open>count + 1\<close> attempts and goes idle, and the packet that failed
  is still at the front of the queue.
\<close>

lemma ack_window_correct:
  assumes "esb_wf cfg s" and "esb_st s = PTX_RX_ACK"
  shows "let s' = on_radio_disabled_tx_wait_for_ack cfg ack s; c = ec_retransmit_count (esb_cfg s) in
     (ack \<noteq> None \<longrightarrow> tx_queue s' = tl (tx_queue s) \<and> int_tx_success s'
        \<and> int_tx_failed s' = int_tx_failed s)
   \<and> (ack = None \<and> 0 < retransmits_remaining s \<longrightarrow> tx_queue s' = tx_queue s
        \<and> esb_st s' = PTX_TX_ACK \<and> retransmits_remaining s' = retransmits_remaining s - 1
        \<and> int_tx_failed s' = int_tx_failed s \<and> int_tx_success s' = int_tx_success s)
   \<and> (ack = None \<and> retransmits_remaining s = 0 \<longrightarrow> tx_queue s' = tx_queue s
        \<and> esb_st s' = ESB_IDLE \<and> int_tx_failed s' \<and> last_tx_attempts s' = c + 1)"
proof (cases ack)
  case None
  then show ?thesis by (simp add: on_radio_disabled_tx_wait_for_ack_def Let_def)
next
  case (Some frame)
  have "fifo_wf (tx_fifo s)" using assms(1) by (simp add: esb_wf_def)
  with Some show ?thesis
    by (simp add: Let_def ack_queue)
qed

text \<open>\<open>n\<close> windows in a row in which nothing is received.\<close>

fun unanswered :: "kconfig \<Rightarrow> nat \<Rightarrow> esb \<Rightarrow> esb" where
  "unanswered cfg 0 s = s"
| "unanswered cfg (Suc n) s =
     on_radio_disabled_tx_wait_for_ack cfg None (on_radio_disabled_tx (unanswered cfg n s))"

lemma unanswered_running:
  "esb_st s = PTX_TX_ACK \<Longrightarrow> n \<le> retransmits_remaining s \<Longrightarrow>
     (let t = unanswered cfg n s in esb_st t = PTX_TX_ACK \<and> tx_fifo t = tx_fifo s
        \<and> retransmits_remaining t = retransmits_remaining s - n \<and> esb_cfg t = esb_cfg s
        \<and> int_tx_failed t = int_tx_failed s)"
  by (induction n)
    (auto simp: Let_def on_radio_disabled_tx_wait_for_ack_def on_radio_disabled_tx_def)

text \<open>
  C21. Bounded retransmission: when no acknowledge ever arrives, a transmission that starts with
  \<open>c\<close> retries is resent exactly \<open>c\<close> times, stays in the transmit/listen cycle until then, and
  after window number \<open>c + 1\<close> the radio is idle with the failure raised.
\<close>

theorem retransmission_bounded:
  assumes "esb_st s = PTX_TX_ACK" and "retransmits_remaining s = c"
    and "ec_retransmit_count (esb_cfg s) = c"
  shows "(\<forall>n \<le> c. esb_st (unanswered cfg n s) = PTX_TX_ACK
                \<and> int_tx_failed (unanswered cfg n s) = int_tx_failed s)
    \<and> (let t = unanswered cfg (Suc c) s in esb_st t = ESB_IDLE \<and> int_tx_failed t
         \<and> last_tx_attempts t = c + 1 \<and> tx_queue t = tx_queue s)"
proof -
  have "esb_st (unanswered cfg n s) = PTX_TX_ACK \<and> int_tx_failed (unanswered cfg n s) = int_tx_failed s"
    if "n \<le> c" for n
    using unanswered_running [OF assms(1), of n cfg] assms(2) that by (simp add: Let_def)
  with unanswered_running [OF assms(1), of c cfg] assms show ?thesis
    by (simp add: Let_def on_radio_disabled_tx_wait_for_ack_def on_radio_disabled_tx_def)
qed

theorem retransmission_bounded_witness:
  "let s = up_esb\<lparr>esb_st := PTX_TX_ACK, retransmits_remaining := 5\<rparr>
   in last_tx_attempts (unanswered default_kconfig 6 s) = 6"
  using retransmission_bounded [of "up_esb\<lparr>esb_st := PTX_TX_ACK, retransmits_remaining := 5\<rparr>" 5 default_kconfig]
  by (simp add: Let_def eval_nat_numeral)

text \<open>
  C6. In every state the calls of the transport and the interrupts of the hardware can reach from
  boot, in any order, both FIFOs are consistent (back is front plus count, modulo the size), the
  queued and parked packets are legal ones, at most the configured number, the channel is at most
  100, the retry counter stays within the configured count while a packet is being transmitted
  (so the attempt count reported never underflows), and an uninitialised radio holds nothing.
\<close>

theorem radio_invariant:
  assumes "kconfig_ok cfg" and "(radio_step cfg)\<^sup>*\<^sup>* (esb_boot cfg) s"
  shows "esb_wf cfg s \<and> length (tx_queue s) \<le> c_tx_fifo cfg
       \<and> (esb_initialized s \<or> esb_st s = ESB_IDLE \<and> tx_queue s = [])"
proof -
  have "esb_wf cfg s" "esb_down s" using radio_reachable [OF assms(2,1)] by simp_all
  then show ?thesis by (auto simp: esb_wf_def esb_down_def fifo_wf_def)
qed

theorem radio_invariant_witness: "esb_wf default_kconfig up_esb"
proof -
  have "(radio_step default_kconfig)\<^sup>*\<^sup>* (esb_boot default_kconfig) up_esb"
    unfolding up_esb_def by (intro r_into_rtranclp r_init)
  then show ?thesis using radio_invariant [OF kconfig_ok_default] by blast
qed

section \<open>What the library does not protect against\<close>

text \<open>
  \<open>esb_pop_tx\<close> moves the back of the queue forwards: the queue is inconsistent afterwards.
\<close>

lemma pop_tx_breaks_fifo:
  assumes "esb_wf cfg s" "esb_initialized s" "0 < fcount (tx_fifo s)" "2 < tx_size s"
  shows "\<not> fifo_wf (tx_fifo (snd (esb_pop_tx s)))"
proof
  let ?n = "tx_size s" and ?f = "tx_fifo s"
  assume "fifo_wf (tx_fifo (snd (esb_pop_tx s)))"
  moreover have w: "fifo_wf ?f" using assms(1) by (simp add: esb_wf_def)
  ultimately have "(ffront ?f + fcount ?f + 1) mod ?n = (ffront ?f + (fcount ?f - 1)) mod ?n"
    using assms(2,3) bump_mod [of "fback ?f" ?n]
    by (auto simp: esb_pop_tx_def fifo_wf_def mod_simps)
  then have "?n dvd (ffront ?f + fcount ?f + 1) - (ffront ?f + (fcount ?f - 1))"
    by (metis mod_eq_dvd_iff_nat add.assoc add_le_cancel_left le_diff_conv trans_le_add1 le_add1 diff_le_self)
  then have "?n dvd 2" using assms(3) by simp
  with assms(4) show False by (auto dest: dvd_imp_le)
qed

text \<open>
  Flushing does not stop the transmission in progress, and an acknowledge removes whatever is at
  the front: a packet written after a flush is removed by the acknowledge of its predecessor,
  without having been sent.
\<close>

lemma flush_then_ack_drops_new_packet:
  assumes "esb_wf cfg s" "esb_initialized s" "esb_st s = PTX_RX_ACK"
    and "write_error cfg p (snd (esb_flush_tx s)) = None"
  shows "let s1 = snd (esb_write_payload cfg p (snd (esb_flush_tx s)));
             s2 = on_radio_disabled_tx_wait_for_ack cfg (Some frame) s1
         in length (tx_queue s1) = 1 \<and> current_payload s1 = current_payload s
          \<and> tx_queue s2 = [] \<and> int_tx_success s2"
proof -
  let ?f = "snd (esb_flush_tx s)"
  let ?s1 = "snd (esb_write_payload cfg p ?f)"
  have f: "esb_st ?f = PTX_RX_ACK" "tx_queue ?f = []" "current_payload ?f = current_payload s"
    using assms(2,3) by (simp_all add: esb_flush_tx_def)
  have w: "esb_wf cfg ?f" using assms(1) by (rule esb_wf_flush)
  have q: "length (tx_queue ?s1) = 1" and w1: "esb_wf cfg ?s1"
    using write_ok [OF w assms(4)] f by simp_all
  have "esb_st ?s1 = PTX_RX_ACK \<and> current_payload ?s1 = current_payload s"
    using f by (simp add: esb_write_payload_def Let_def)
  moreover have "tl (tx_queue ?s1) = []" using q by (cases "tx_queue ?s1") simp_all
  ultimately show ?thesis
    using q ack_queue [of ?s1 cfg frame] esb_wf_fifos [OF w1]
    by (simp add: Let_def del: fifo_list_nil_iff)
qed

text \<open>
  A packet acknowledged between \<open>esb_stash_tx\<close> and \<open>esb_restore_tx\<close> is put back and sent again.
\<close>

lemma stash_ack_restore_resends:
  assumes "esb_wf cfg s" "esb_initialized s" "esb_st s = PTX_RX_ACK"
  shows "let s1 = on_radio_disabled_tx_wait_for_ack cfg (Some blank_payload) (snd (esb_stash_tx s))
         in int_tx_success s1 \<and> tx_queue (snd (esb_restore_tx s1)) = tx_queue s"
proof -
  let ?p = "snd (esb_stash_tx s)"
  let ?s1 = "on_radio_disabled_tx_wait_for_ack cfg (Some blank_payload) ?p"
  have p: "tx_stash ?p = tx_queue s" "fcount (tx_fifo ?p) = 0" "tx_size ?p = tx_size s" "esb_initialized ?p"
    "esb_st ?p = PTX_RX_ACK"
    using assms(2,3) by (simp_all add: esb_stash_tx_def Let_def)
  have s1: "tx_stash ?s1 = tx_queue s" "fcount (tx_fifo ?s1) = 0" "tx_size ?s1 = tx_size s"
    "esb_initialized ?s1" "int_tx_success ?s1"
    using p by (simp_all add: wait_for_ack_Some Let_def tx_fifo_remove_last_def ack_reception_def
        blank_payload_def)
  have w: "esb_wf cfg ?s1"
    using assms(1) p by (intro esb_wf_wait_for_ack esb_wf_stash) (simp_all add: in_ack_cycle_def)
  have "fcount (tx_fifo s) \<le> tx_size s" using assms(1) by (simp add: esb_wf_def fifo_wf_def)
  with s1 restore_law [OF w] have "tx_queue (snd (esb_restore_tx ?s1)) = tx_queue s"
    by (cases "tx_queue s = []") (simp_all add: esb_restore_tx_def fifo_list_zero)
  with s1 show ?thesis by (simp add: Let_def)
qed

end
