(* ===== verification/Offenders.thy ===== *)
theory Offenders
  imports ChannelHop
begin

text \<open>
  The persistent-offender bookkeeping of \<open>src/src/esb/channel_hop_ep.c\<close>: the table of hit
  counts, the distillation of the worst channels into the avoided set, the record written to
  flash and read back at boot, and the decay clock. Arrays with a live length (\<open>m_hits\<close> with
  \<open>m_hit_count\<close>, \<open>m_off_buf\<close> with \<open>m_off_len\<close>, \<open>m_saved_off\<close> with \<open>m_saved_off_len\<close>) are the
  lists of their live entries. \<open>rdv\<close> is the rendezvous channel, \<open>now\<close> the clock.
\<close>

section \<open>State\<close>

record hit_entry =
  hit_channel :: nat
  hit_hits :: nat
  hit_session :: nat

record offenders =
  m_hits :: "hit_entry list"
  decay_accum_min :: u32
  decay_frac_ms :: u32
  decay_last_uptime :: u32
  saved_accum_min :: u16
  off_buf :: bytes
  saved_off :: bytes
  nvs_quar :: "bytes option"

definition hit_table_size :: "kconfig \<Rightarrow> nat" where
  "hit_table_size cfg = c_persist_n cfg * 3"

definition persist_off_max :: "kconfig \<Rightarrow> nat" where
  "persist_off_max cfg = 1 + c_persist_n cfg * 3"

definition persist_rec_max :: "kconfig \<Rightarrow> nat" where
  "persist_rec_max cfg = 2 + persist_off_max cfg"

text \<open>The answer of \<open>ZRC_GET\<close>, cast to \<open>uint8_t\<close> as both of its callers do.\<close>

definition zrc_persist :: "kconfig \<Rightarrow> nat" where
  "zrc_persist cfg = (case c_persist_rt cfg of None \<Rightarrow> c_persist_n cfg | Some v \<Rightarrow> v) mod 256"

definition persist_n :: "kconfig \<Rightarrow> nat" where
  "persist_n cfg = (let n = zrc_persist cfg in if c_persist_n cfg < n then c_persist_n cfg else n)"

lemma persist_n_le: "persist_n cfg \<le> c_persist_n cfg"
  by (simp add: persist_n_def Let_def)

definition persist_decay_period_min :: "kconfig \<Rightarrow> u32" where
  "persist_decay_period_min cfg =
     (if c_persist_decay_s cfg = 0 then 0
      else let m = c_persist_decay_s cfg div 60 in if m = 0 then 1 else m)"

section \<open>The hit table\<close>

definition sat_inc16 :: "nat \<Rightarrow> nat" where
  "sat_inc16 n = (if n < 65535 then n + 1 else n)"

text \<open>\<open>find_channel\<close> is the linear search for the entry of a channel.\<close>

fun find_channel :: "nat \<Rightarrow> hit_entry list \<Rightarrow> nat \<Rightarrow> nat option" where
  "find_channel ch [] i = None"
| "find_channel ch (h # hs) i = (if hit_channel h = ch then Some i else find_channel ch hs (Suc i))"

text \<open>Index of the first entry with the fewest hits.\<close>

definition min_index :: "hit_entry list \<Rightarrow> nat" where
  "min_index hs = fold (\<lambda>i m. if hit_hits (hs ! i) < hit_hits (hs ! m) then i else m) [1..<length hs] 0"

definition record_hit :: "kconfig \<Rightarrow> nat \<Rightarrow> nat \<Rightarrow> hit_entry list \<Rightarrow> hit_entry list" where
  "record_hit cfg rdv channel hs =
     (if channel_count \<le> channel \<or> channel = rdv then hs
      else case find_channel channel hs 0 of
        Some i \<Rightarrow> hs[i := (hs ! i)\<lparr>hit_hits := sat_inc16 (hit_hits (hs ! i)),
                                  hit_session := sat_inc16 (hit_session (hs ! i))\<rparr>]
      | None \<Rightarrow>
          if length hs < hit_table_size cfg
          then hs @ [\<lparr>hit_channel = channel, hit_hits = 1, hit_session = 1\<rparr>]
          else let m = min_index hs in
            hs[m := \<lparr>hit_channel = channel, hit_hits = sat_inc16 (hit_hits (hs ! m)), hit_session = 1\<rparr>])"

definition persist_record_hit :: "kconfig \<Rightarrow> nat \<Rightarrow> nat \<Rightarrow> offenders \<Rightarrow> offenders" where
  "persist_record_hit cfg rdv channel s = s\<lparr>m_hits := record_hit cfg rdv channel (m_hits s)\<rparr>"

text \<open>\<open>a[i] = a[--n]\<close>: the hole is filled with the last live entry.\<close>

definition swap_remove :: "nat \<Rightarrow> 'a list \<Rightarrow> 'a list" where
  "swap_remove i xs = butlast (xs[i := last xs])"

definition persist_reclaim ::
  "nat \<Rightarrow> offenders \<times> quarantine_state \<Rightarrow> offenders \<times> quarantine_state" where
  "persist_reclaim channel = (\<lambda>(s, q).
     let s' = (case find_channel channel (m_hits s) 0 of
                 None \<Rightarrow> s | Some i \<Rightarrow> s\<lparr>m_hits := swap_remove i (m_hits s)\<rparr>);
         p = persistent q;
         p' = (case List.find (\<lambda>i. pq_channels p ! i = channel) [0..<pq_count p] of
                 None \<Rightarrow> p
               | Some i \<Rightarrow> p\<lparr>pq_channels := (pq_channels p)[i := pq_channels p ! (pq_count p - 1)],
                            pq_count := pq_count p - 1\<rparr>)
     in (s', q\<lparr>persistent := p'\<rparr>))"

section \<open>Selecting the worst offenders\<close>

text \<open>One scan of the partial selection sort: the first unused eligible entry with the most hits.\<close>

definition best_index :: "(hit_entry \<Rightarrow> bool) \<Rightarrow> hit_entry list \<Rightarrow> nat set \<Rightarrow> nat option" where
  "best_index elig hs used =
     fold (\<lambda>i best. if i \<in> used \<or> \<not> elig (hs ! i) then best
                    else case best of None \<Rightarrow> Some i
                      | Some b \<Rightarrow> if hit_hits (hs ! i) > hit_hits (hs ! b) then Some i else best)
       [0..<length hs] None"

text \<open>At most \<open>n\<close> scans, each marking its entry as used; it stops when a scan finds nothing.\<close>

fun select_top :: "(hit_entry \<Rightarrow> bool) \<Rightarrow> hit_entry list \<Rightarrow> nat \<Rightarrow> nat set \<Rightarrow> nat list" where
  "select_top elig hs 0 used = []"
| "select_top elig hs (Suc n) used =
     (case best_index elig hs used of None \<Rightarrow> []
      | Some b \<Rightarrow> b # select_top elig hs n (insert b used))"

definition promotable :: "kconfig \<Rightarrow> nat \<Rightarrow> hit_entry \<Rightarrow> bool" where
  "promotable cfg rdv h \<longleftrightarrow> \<not> (hit_hits h < c_persist_threshold cfg \<or> hit_channel h = rdv)"

definition serialise_hit :: "hit_entry \<Rightarrow> bytes" where
  "serialise_hit h = [of_nat (hit_channel h), of_nat (hit_hits h mod 256), of_nat (hit_hits h div 256)]"

text \<open>The channel array keeps its old contents beyond the new count.\<close>

definition persist_rebuild_avoided ::
  "kconfig \<Rightarrow> nat \<Rightarrow> offenders \<times> quarantine_state \<Rightarrow> offenders \<times> quarantine_state" where
  "persist_rebuild_avoided cfg rdv = (\<lambda>(s, q).
     let best = map ((!) (m_hits s)) (select_top (promotable cfg rdv) (m_hits s) (persist_n cfg) {});
         p = persistent q
     in (s\<lparr>off_buf := of_nat (length best) # concat (map serialise_hit best)\<rparr>,
         q\<lparr>persistent := \<lparr>pq_channels = map hit_channel best @ drop (length best) (pq_channels p),
                          pq_count = length best\<rparr>\<rparr>))"

definition get_offenders :: "nat \<Rightarrow> offenders \<times> quarantine_state \<Rightarrow> (hit_entry \<times> bool) list" where
  "get_offenders max_n = (\<lambda>(s, q).
     map (\<lambda>i. (m_hits s ! i, persistent_quarantine_contains (persistent q) (hit_channel (m_hits s ! i))))
       (select_top (\<lambda>_. True) (m_hits s) max_n {}))"

section \<open>The flash record\<close>

definition persist_write :: "offenders \<Rightarrow> offenders" where
  "persist_write s =
     (let acc = (if 65535 < decay_accum_min s then 65535 else ucast (decay_accum_min s)) :: u16;
          buf = ucast acc # ucast (drop_bit 8 acc) # off_buf s
      in s\<lparr>nvs_quar := Some buf, saved_off := off_buf s, saved_accum_min := acc\<rparr>)"

definition offenders_changed :: "offenders \<Rightarrow> bool" where
  "offenders_changed s \<longleftrightarrow> off_buf s \<noteq> saved_off s"

definition persist_distill ::
  "kconfig \<Rightarrow> nat \<Rightarrow> offenders \<times> quarantine_state \<Rightarrow> offenders \<times> quarantine_state" where
  "persist_distill cfg rdv sq =
     (let (s, q) = persist_rebuild_avoided cfg rdv sq
      in (if offenders_changed s then persist_write s else s, q))"

definition rd16 :: "bytes \<Rightarrow> nat \<Rightarrow> nat" where
  "rd16 b i = unat (b ! i) + 256 * unat (b ! (i + 1))"

definition seed_hit :: "kconfig \<Rightarrow> nat \<Rightarrow> nat \<Rightarrow> hit_entry list \<Rightarrow> hit_entry list" where
  "seed_hit cfg ch hits hs =
     (if channel_count \<le> ch then hs
      else case find_channel ch hs 0 of
        Some j \<Rightarrow> if hit_hits (hs ! j) < hits then hs[j := (hs ! j)\<lparr>hit_hits := hits\<rparr>] else hs
      | None \<Rightarrow> if length hs < hit_table_size cfg
          then hs @ [\<lparr>hit_channel = ch, hit_hits = (if hits = 0 then 1 else hits), hit_session = 0\<rparr>]
          else hs)"

definition stored_count :: "bytes \<Rightarrow> nat" where
  "stored_count off = (let stored = unat (off ! 0) in
     if length off < 1 + stored * 3 then (length off - 1) div 3 else stored)"

text \<open>\<open>persist_settings_load_cb\<close> for the record \<open>quar\<close>; the read itself is assumed to succeed.\<close>

definition load_quar :: "kconfig \<Rightarrow> bytes \<Rightarrow> offenders \<Rightarrow> offenders" where
  "load_quar cfg buf s =
     (if length buf < 3 \<or> persist_rec_max cfg < length buf then s
      else let off = drop 2 buf in
        s\<lparr>decay_accum_min := of_nat (rd16 buf 0),
          m_hits := fold (\<lambda>i. seed_hit cfg (unat (off ! (1 + i * 3))) (rd16 off (2 + i * 3)))
                      [0..<stored_count off] (m_hits s)\<rparr>)"

section \<open>The decay clock\<close>

definition decay_apply :: "nat \<Rightarrow> hit_entry list \<Rightarrow> hit_entry list" where
  "decay_apply periods hs =
     map (\<lambda>h. h\<lparr>hit_hits := hit_hits h - periods,
                hit_session := (if periods < hit_session h then hit_session h - periods else 0)\<rparr>)
       (filter (\<lambda>h. periods < hit_hits h) hs)"

text \<open>Advancing the clock, before any decay is applied.\<close>

definition decay_tick :: "u32 \<Rightarrow> offenders \<Rightarrow> offenders" where
  "decay_tick now s =
     (let frac = (if decay_last_uptime s \<le> now then decay_frac_ms s + (now - decay_last_uptime s)
                  else decay_frac_ms s)
      in if 60000 \<le> frac
         then s\<lparr>decay_last_uptime := now, decay_accum_min := decay_accum_min s + frac div 60000,
                decay_frac_ms := frac mod 60000\<rparr>
         else s\<lparr>decay_last_uptime := now, decay_frac_ms := frac\<rparr>)"

definition persist_decay_check ::
  "kconfig \<Rightarrow> nat \<Rightarrow> u32 \<Rightarrow> offenders \<times> quarantine_state \<Rightarrow> offenders \<times> quarantine_state" where
  "persist_decay_check cfg rdv now = (\<lambda>(s, q).
     let period_min = persist_decay_period_min cfg in
     if period_min = 0 then (s, q)
     else
       let s1 = decay_tick now s;
           fired = (period_min \<le> decay_accum_min s1);
           (s2, q2) = (if fired
             then let periods = decay_accum_min s1 div period_min in
               persist_rebuild_avoided cfg rdv
                 (s1\<lparr>decay_accum_min := decay_accum_min s1 - periods * period_min,
                     m_hits := decay_apply (unat periods) (m_hits s1)\<rparr>, q)
             else (s1, q));
           flush = max 1 (period_min div 16)
       in (if fired \<or> ucast (saved_accum_min s2) + flush \<le> decay_accum_min s2
           then persist_write s2 else s2, q2))"

text \<open>\<open>persist_load\<close>: the settings subsystem replays the stored records, oldest first.\<close>

definition persist_load ::
  "kconfig \<Rightarrow> nat \<Rightarrow> u32 \<Rightarrow> bytes list \<Rightarrow> offenders \<times> quarantine_state \<Rightarrow> offenders \<times> quarantine_state" where
  "persist_load cfg rdv now records = (\<lambda>(s, q).
     let s1 = s\<lparr>m_hits := [], off_buf := [], saved_off := [], decay_accum_min := 0,
                decay_frac_ms := 0, decay_last_uptime := now, saved_accum_min := 0\<rparr>;
         s2 = fold (load_quar cfg) records s1;
         (s3, q3) = persist_rebuild_avoided cfg rdv (s2, q);
         s4 = s3\<lparr>saved_off := off_buf s3,
                 saved_accum_min := (if 65535 < decay_accum_min s3 then 65535 else ucast (decay_accum_min s3))\<rparr>
     in persist_decay_check cfg rdv now (s4, q3))"

section \<open>The table invariant\<close>

definition hit_ok :: "hit_entry \<Rightarrow> bool" where
  "hit_ok h \<longleftrightarrow> hit_channel h < channel_count \<and> 1 \<le> hit_hits h \<and> hit_hits h \<le> 65535
     \<and> hit_session h \<le> hit_hits h"

definition table_wf :: "kconfig \<Rightarrow> hit_entry list \<Rightarrow> bool" where
  "table_wf cfg hs \<longleftrightarrow> length hs \<le> hit_table_size cfg \<and> distinct (map hit_channel hs)
     \<and> (\<forall>h \<in> set hs. hit_ok h)"

lemma find_channel_Some:
  "find_channel ch hs i = Some j \<Longrightarrow> i \<le> j \<and> j - i < length hs \<and> hit_channel (hs ! (j - i)) = ch"
proof (induction ch hs i rule: find_channel.induct)
  case (2 ch h hs i)
  show ?case
  proof (cases "hit_channel h = ch")
    case False
    with 2 have "Suc i \<le> j \<and> j - Suc i < length hs \<and> hit_channel (hs ! (j - Suc i)) = ch" by simp
    moreover from this have "j - i = Suc (j - Suc i)" by (simp add: Suc_diff_Suc)
    ultimately show ?thesis by auto
  qed (use 2 in simp)
qed simp

lemma find_channel_SomeD:
  "find_channel ch hs 0 = Some j \<Longrightarrow> j < length hs \<and> hit_channel (hs ! j) = ch"
  using find_channel_Some [of ch hs 0 j] by simp

lemma find_channel_None: "find_channel ch hs i = None \<longleftrightarrow> ch \<notin> hit_channel ` set hs"
  by (induction ch hs i rule: find_channel.induct) auto

lemma sat_inc16_bounds: "n \<le> 65535 \<Longrightarrow> sat_inc16 n \<le> 65535 \<and> n \<le> sat_inc16 n \<and> (1 \<le> sat_inc16 n)"
  by (auto simp: sat_inc16_def)

lemma sat_inc16_mono: "m \<le> n \<Longrightarrow> sat_inc16 m \<le> sat_inc16 n"
  by (auto simp: sat_inc16_def)

lemma min_index_less:
  assumes "hs \<noteq> []"
  shows "min_index hs < length hs"
proof -
  have "fold (\<lambda>i m. if hit_hits (hs ! i) < hit_hits (hs ! m) then i else m) xs m < length hs"
    if "set xs \<subseteq> {..<length hs}" "m < length hs" for xs m
    using that by (induction xs arbitrary: m) auto
  moreover have "set [1..<length hs] \<subseteq> {..<length hs}" by auto
  ultimately have "fold (\<lambda>i m. if hit_hits (hs ! i) < hit_hits (hs ! m) then i else m) [1..<length hs] 0
      < length hs" using assms by blast
  then show ?thesis using assms by (auto simp: min_index_def)
qed

lemma table_wf_nth: "table_wf cfg hs \<Longrightarrow> i < length hs \<Longrightarrow> hit_ok (hs ! i)"
  by (simp add: table_wf_def)

lemma table_wf_update:
  assumes w: "table_wf cfg hs" and i: "i < length hs" and ok: "hit_ok h"
    and c: "hit_channel h = hit_channel (hs ! i) \<or> hit_channel h \<notin> hit_channel ` set hs"
  shows "table_wf cfg (hs[i := h])"
proof -
  have d: "distinct (map hit_channel hs)" using w by (simp add: table_wf_def)
  have "distinct (map hit_channel (hs[i := h]))"
  proof (cases "hit_channel h = hit_channel (hs ! i)")
    case True
    then have "map hit_channel (hs[i := h]) = map hit_channel hs"
      using i by (simp add: map_update list_update_same_conv)
    with d show ?thesis by simp
  next
    case False
    with c have "hit_channel h \<notin> set (map hit_channel hs)" by simp
    with d i show ?thesis by (simp add: map_update distinct_list_update)
  qed
  with w ok set_update_subset_insert [of hs i h] show ?thesis by (auto simp: table_wf_def)
qed

lemma table_wf_append:
  assumes "table_wf cfg hs" "length hs < hit_table_size cfg" "hit_ok h"
    "hit_channel h \<notin> hit_channel ` set hs"
  shows "table_wf cfg (hs @ [h])"
  using assms by (auto simp: table_wf_def)

lemma table_wf_record_hit:
  assumes cfg: "kconfig_ok cfg" and w: "table_wf cfg hs"
  shows "table_wf cfg (record_hit cfg rdv ch hs)"
proof (cases "channel_count \<le> ch \<or> ch = rdv")
  case True
  with w show ?thesis by (simp add: record_hit_def)
next
  case False
  show ?thesis
  proof (cases "find_channel ch hs 0")
    case (Some i)
    note i = find_channel_SomeD [OF Some]
    have "hit_ok (hs ! i)" using w i by (intro table_wf_nth) auto
    then have "hit_ok ((hs ! i)\<lparr>hit_hits := sat_inc16 (hit_hits (hs ! i)),
        hit_session := sat_inc16 (hit_session (hs ! i))\<rparr>)"
      using sat_inc16_bounds sat_inc16_mono by (auto simp: hit_ok_def)
    with w i False Some show ?thesis
      by (auto simp: record_hit_def intro!: table_wf_update)
  next
    case None
    then have n: "ch \<notin> hit_channel ` set hs" by (simp add: find_channel_None)
    show ?thesis
    proof (cases "length hs < hit_table_size cfg")
      case True
      with w n None False show ?thesis
        by (auto simp: record_hit_def hit_ok_def intro!: table_wf_append)
    next
      case full: False
      have "hs \<noteq> []" using full kconfig_okD(7) [OF cfg] by (auto simp: hit_table_size_def)
      then have m: "min_index hs < length hs" by (rule min_index_less)
      have "hit_ok (hs ! min_index hs)" using w m by (rule table_wf_nth)
      then have "hit_ok \<lparr>hit_channel = ch, hit_hits = sat_inc16 (hit_hits (hs ! min_index hs)), hit_session = 1\<rparr>"
        using False sat_inc16_bounds by (auto simp: hit_ok_def)
      with w m n None False full show ?thesis
        by (auto simp: record_hit_def Let_def intro!: table_wf_update)
    qed
  qed
qed

lemma swap_remove_set:
  assumes "i < length xs" "distinct xs"
  shows "distinct (swap_remove i xs) \<and> set (swap_remove i xs) = set xs - {xs ! i}
       \<and> length (swap_remove i xs) = length xs - 1"
proof -
  obtain ys y where xs: "xs = ys @ [y]" using assms(1) by (cases xs rule: rev_cases) auto
  show ?thesis
  proof (cases "i = length ys")
    case True
    with assms xs show ?thesis by (auto simp: swap_remove_def butlast_append)
  next
    case False
    with assms xs have i: "i < length ys" "y \<notin> set ys" "distinct ys" by auto
    then have "swap_remove i xs = ys[i := y]"
      using xs by (simp add: swap_remove_def list_update_append butlast_append)
    moreover have "set (ys[i := y]) = insert y (set ys - {ys ! i})"
      using i by (simp add: set_update_distinct)
    ultimately show ?thesis using i xs by (auto simp: distinct_list_update nth_append)
  qed
qed

lemma swap_remove_map: "xs \<noteq> [] \<Longrightarrow> map f (swap_remove i xs) = swap_remove i (map f xs)"
  by (simp add: swap_remove_def map_butlast map_update last_map)

lemma table_wf_swap_remove:
  assumes w: "table_wf cfg hs" and i: "i < length hs"
  shows "table_wf cfg (swap_remove i hs)"
proof -
  have d: "distinct (map hit_channel hs)" using w by (simp add: table_wf_def)
  then have dh: "distinct hs" by (simp add: distinct_map)
  have "distinct (map hit_channel (swap_remove i hs))"
    using swap_remove_set [of i "map hit_channel hs"] d i swap_remove_map [of hs hit_channel i]
    by (cases hs) simp_all
  with w swap_remove_set [OF i dh] show ?thesis by (auto simp: table_wf_def)
qed

lemma table_wf_decay:
  assumes "table_wf cfg hs"
  shows "table_wf cfg (decay_apply periods hs)"
proof -
  have "map hit_channel (decay_apply periods hs) = map hit_channel (filter (\<lambda>h. periods < hit_hits h) hs)"
    by (simp add: decay_apply_def)
  moreover have "distinct (map hit_channel (filter (\<lambda>h. periods < hit_hits h) hs))"
    using assms by (simp add: table_wf_def distinct_map_filter)
  moreover have "length (decay_apply periods hs) \<le> length hs" by (simp add: decay_apply_def)
  moreover have "hit_ok h" if "h \<in> set (decay_apply periods hs)" for h
  proof -
    from that obtain x where x: "x \<in> set hs" "periods < hit_hits x"
      "h = x\<lparr>hit_hits := hit_hits x - periods,
             hit_session := (if periods < hit_session x then hit_session x - periods else 0)\<rparr>"
      by (auto simp: decay_apply_def)
    with assms have "hit_ok x" by (simp add: table_wf_def)
    with x show ?thesis by (auto simp: hit_ok_def)
  qed
  ultimately show ?thesis
    using assms by (simp add: table_wf_def)
qed

lemma table_wf_seed:
  assumes "table_wf cfg hs" "hits \<le> 65535"
  shows "table_wf cfg (seed_hit cfg ch hits hs)"
proof (cases "find_channel ch hs 0")
  case (Some j)
  note j = find_channel_SomeD [OF Some]
  have "hit_ok (hs ! j)" using assms j by (auto intro: table_wf_nth)
  with assms j Some show ?thesis
    by (auto simp: seed_hit_def hit_ok_def intro!: table_wf_update)
next
  case None
  then have "ch \<notin> hit_channel ` set hs" by (simp add: find_channel_None)
  with assms None show ?thesis
    by (auto simp: seed_hit_def hit_ok_def intro!: table_wf_append)
qed

lemma rd16_bound: "rd16 b i \<le> 65535"
  using unsigned_less [of "b ! i", where 'a = nat] unsigned_less [of "b ! (i + 1)", where 'a = nat]
  by (simp add: rd16_def)

lemma table_wf_load:
  assumes "table_wf cfg (m_hits s)"
  shows "table_wf cfg (m_hits (load_quar cfg buf s))"
proof -
  have "table_wf cfg (fold (\<lambda>i. seed_hit cfg (f i) (rd16 off (g i))) xs hs)" if "table_wf cfg hs"
    for f g off hs and xs :: "nat list"
    using that by (induction xs arbitrary: hs) (simp_all add: rd16_bound table_wf_seed)
  with assms show ?thesis by (simp add: load_quar_def Let_def)
qed

section \<open>The selection is the top of the table\<close>

definition open_index :: "(hit_entry \<Rightarrow> bool) \<Rightarrow> hit_entry list \<Rightarrow> nat set \<Rightarrow> nat \<Rightarrow> bool" where
  "open_index elig hs used i \<longleftrightarrow> i < length hs \<and> i \<notin> used \<and> elig (hs ! i)"

lemma best_index_scan:
  fixes elig hs used
  defines "step \<equiv> (\<lambda>i best. if i \<in> used \<or> \<not> elig (hs ! i) then best
                    else case best of None \<Rightarrow> Some i
                      | Some b \<Rightarrow> if hit_hits (hs ! i) > hit_hits (hs ! b) then Some i else best)"
  assumes "n \<le> length hs"
  shows "case fold step [0..<n] None of
      None \<Rightarrow> \<forall>i < n. \<not> open_index elig hs used i
    | Some b \<Rightarrow> b < n \<and> open_index elig hs used b
        \<and> (\<forall>i < n. open_index elig hs used i \<longrightarrow> hit_hits (hs ! i) \<le> hit_hits (hs ! b))"
  using assms(2)
proof (induction n)
  case (Suc n)
  let ?r = "fold step [0..<n] None"
  have e: "fold step [0..<Suc n] None = step n ?r" by simp
  from Suc have IH: "case ?r of None \<Rightarrow> \<forall>i < n. \<not> open_index elig hs used i
    | Some b \<Rightarrow> b < n \<and> open_index elig hs used b
        \<and> (\<forall>i < n. open_index elig hs used i \<longrightarrow> hit_hits (hs ! i) \<le> hit_hits (hs ! b))" by simp
  have o: "open_index elig hs used n \<longleftrightarrow> n \<notin> used \<and> elig (hs ! n)"
    using Suc.prems by (simp add: open_index_def)
  show ?case
  proof (cases ?r)
    case None
    with IH o show ?thesis unfolding e by (auto simp: step_def less_Suc_eq)
  next
    case (Some b)
    with IH o show ?thesis unfolding e by (auto simp: step_def less_Suc_eq)
  qed
qed simp

lemma best_index_None: "best_index elig hs used = None \<longleftrightarrow> (\<forall>i. \<not> open_index elig hs used i)"
  using best_index_scan [of "length hs" hs elig used]
  by (auto simp: best_index_def open_index_def split: option.splits)

lemma best_index_Some:
  "best_index elig hs used = Some b \<Longrightarrow> open_index elig hs used b
     \<and> (\<forall>i. open_index elig hs used i \<longrightarrow> hit_hits (hs ! i) \<le> hit_hits (hs ! b))"
  using best_index_scan [of "length hs" hs elig used]
  by (auto simp: best_index_def open_index_def split: option.splits)

lemma open_index_insert: "open_index elig hs (insert b used) i \<longleftrightarrow> open_index elig hs used i \<and> i \<noteq> b"
  by (auto simp: open_index_def)

lemma select_top_correct:
  fixes elig hs used n
  defines "sel \<equiv> select_top elig hs n used"
  shows "distinct sel \<and> length sel \<le> n \<and> (\<forall>i \<in> set sel. open_index elig hs used i)
    \<and> sorted_wrt (\<ge>) (map (\<lambda>i. hit_hits (hs ! i)) sel)
    \<and> (\<forall>i. open_index elig hs used i \<and> i \<notin> set sel \<longrightarrow>
         length sel = n \<and> (\<forall>j \<in> set sel. hit_hits (hs ! i) \<le> hit_hits (hs ! j)))"
  unfolding sel_def
proof (induction n arbitrary: used)
  case (Suc n)
  show ?case
  proof (cases "best_index elig hs used")
    case None
    with best_index_None [of elig hs used] show ?thesis by simp
  next
    case (Some b)
    note b = best_index_Some [OF Some] and IH = Suc [of "insert b used"]
    show ?thesis using b IH Some by (auto simp: open_index_insert)
  qed
qed simp

section \<open>The avoided set and the flash record\<close>

abbreviation (input) worst :: "kconfig \<Rightarrow> nat \<Rightarrow> hit_entry list \<Rightarrow> hit_entry list" where
  "worst cfg rdv hs \<equiv> map ((!) hs) (select_top (promotable cfg rdv) hs (persist_n cfg) {})"

text \<open>The avoided channels: the live part of the persistent array.\<close>

definition avoided :: "quarantine_state \<Rightarrow> nat list" where
  "avoided q = take (pq_count (persistent q)) (pq_channels (persistent q))"

lemma contains_avoided: "persistent_quarantine_contains (persistent q) c \<longleftrightarrow> c \<in> set (avoided q)"
  by (simp add: persistent_quarantine_contains_def avoided_def list_ex_iff)

lemma rebuild_simps:
  "m_hits (fst (persist_rebuild_avoided cfg rdv (s, q))) = m_hits s"
  "off_buf (fst (persist_rebuild_avoided cfg rdv (s, q))) =
     of_nat (length (worst cfg rdv (m_hits s))) # concat (map serialise_hit (worst cfg rdv (m_hits s)))"
  "decay_accum_min (fst (persist_rebuild_avoided cfg rdv (s, q))) = decay_accum_min s"
  "decay_frac_ms (fst (persist_rebuild_avoided cfg rdv (s, q))) = decay_frac_ms s"
  "avoided (snd (persist_rebuild_avoided cfg rdv (s, q))) = map hit_channel (worst cfg rdv (m_hits s))"
  "expires_at (snd (persist_rebuild_avoided cfg rdv (s, q))) = expires_at q"
  by (simp_all add: persist_rebuild_avoided_def avoided_def Let_def)

lemma rebuild_pair:
  "persist_rebuild_avoided cfg rdv (s, q) =
     (fst (persist_rebuild_avoided cfg rdv (s, q)), snd (persist_rebuild_avoided cfg rdv (s, q)))"
  by simp

lemma worst_length: "length (worst cfg rdv hs) \<le> persist_n cfg"
  using select_top_correct [of "promotable cfg rdv" hs "persist_n cfg" "{}"] by simp

lemma quarantine_wf_rebuild:
  "quarantine_wf cfg q \<Longrightarrow> quarantine_wf cfg (snd (persist_rebuild_avoided cfg rdv (s, q)))"
  using worst_length [of "m_hits s" cfg rdv] persist_n_le [of cfg]
  by (simp add: quarantine_wf_def persist_rebuild_avoided_def Let_def)

lemma worst_set:
  "set (worst cfg rdv hs) \<subseteq> {h \<in> set hs. promotable cfg rdv h}"
  using select_top_correct [of "promotable cfg rdv" hs "persist_n cfg" "{}"]
  by (auto simp: open_index_def)

lemma worst_distinct:
  assumes "distinct (map hit_channel hs)"
  shows "distinct (map hit_channel (worst cfg rdv hs))"
proof -
  have "distinct (select_top (promotable cfg rdv) hs (persist_n cfg) {})"
    "\<forall>i \<in> set (select_top (promotable cfg rdv) hs (persist_n cfg) {}). i < length hs"
    using select_top_correct [of "promotable cfg rdv" hs "persist_n cfg" "{}"] by (auto simp: open_index_def)
  then show ?thesis
    using assms by (auto simp: distinct_map inj_on_def distinct_conv_nth nth_eq_iff_index_eq)
qed

lemma worst_left_out:
  assumes "h \<in> set hs" "promotable cfg rdv h" "h \<notin> set (worst cfg rdv hs)"
  shows "length (worst cfg rdv hs) = persist_n cfg \<and> (\<forall>w \<in> set (worst cfg rdv hs). hit_hits h \<le> hit_hits w)"
proof -
  obtain i where i: "i < length hs" "h = hs ! i" using assms(1) by (auto simp: in_set_conv_nth)
  with assms have "open_index (promotable cfg rdv) hs {} i"
    "i \<notin> set (select_top (promotable cfg rdv) hs (persist_n cfg) {})"
    by (auto simp: open_index_def)
  with select_top_correct [of "promotable cfg rdv" hs "persist_n cfg" "{}"] i show ?thesis
    by auto
qed

lemma length_serialise [simp]: "length (serialise_hit h) = 3"
  by (simp add: serialise_hit_def)

lemma length_concat_serialise: "length (concat (map serialise_hit hs)) = 3 * length hs"
  by (induction hs) simp_all

lemma concat_serialise_nth:
  "i < length hs \<Longrightarrow> j < 3 \<Longrightarrow> concat (map serialise_hit hs) ! (3 * i + j) = serialise_hit (hs ! i) ! j"
proof (induction hs arbitrary: i)
  case (Cons h hs)
  then show ?case by (cases i) (auto simp: nth_append)
qed simp

lemma unat_of_nat8: "n < 256 \<Longrightarrow> unat (of_nat n :: u8) = n"
  by (simp add: unat_of_nat)

lemma serialised_fields:
  assumes "i < length hs" "\<forall>h \<in> set hs. hit_ok h" and off_def: "off = x # concat (map serialise_hit hs)"
  shows "unat (off ! (1 + i * 3)) = hit_channel (hs ! i) \<and> rd16 off (2 + i * 3) = hit_hits (hs ! i)"
proof -
  have ok: "hit_ok (hs ! i)" using assms by simp
  have f: "off ! (1 + i * 3) = serialise_hit (hs ! i) ! 0" "off ! (2 + i * 3) = serialise_hit (hs ! i) ! 1"
    "off ! (2 + i * 3 + 1) = serialise_hit (hs ! i) ! 2"
    using concat_serialise_nth [OF assms(1), of 0] concat_serialise_nth [OF assms(1), of 1]
      concat_serialise_nth [OF assms(1), of 2]
    by (simp_all add: off_def mult.commute numeral_eq_Suc)
  have "hit_hits (hs ! i) div 256 < 256"
    using ok by (intro less_mult_imp_div_less) (simp add: hit_ok_def)
  then have "rd16 off (2 + i * 3) = hit_hits (hs ! i) mod 256 + 256 * (hit_hits (hs ! i) div 256)"
    unfolding rd16_def f by (simp add: serialise_hit_def unat_of_nat8)
  moreover have "unat (off ! (1 + i * 3)) = hit_channel (hs ! i)"
    using ok unfolding f by (simp add: serialise_hit_def unat_of_nat8 hit_ok_def)
  ultimately show ?thesis by simp
qed

definition fresh_session :: "hit_entry \<Rightarrow> hit_entry" where
  "fresh_session h = h\<lparr>hit_session := 0\<rparr>"

lemma fresh_session_channel [simp]: "hit_channel (fresh_session h) = hit_channel h"
  by (simp add: fresh_session_def)

lemma seed_hit_fresh:
  assumes "hit_ok h" "hit_channel h \<notin> hit_channel ` set hs" "length hs < hit_table_size cfg"
  shows "seed_hit cfg (hit_channel h) (hit_hits h) hs = hs @ [fresh_session h]"
  using assms find_channel_None [of "hit_channel h" hs 0]
  by (simp add: seed_hit_def hit_ok_def fresh_session_def)

lemma seed_all:
  assumes hs: "\<forall>h \<in> set hs. hit_ok h" "distinct (map hit_channel hs)" "length hs \<le> hit_table_size cfg"
    and off: "\<And>i. i < length hs \<Longrightarrow> f i = hit_channel (hs ! i) \<and> g i = hit_hits (hs ! i)"
    and k: "k \<le> length hs"
  shows "fold (\<lambda>i. seed_hit cfg (f i) (g i)) [0..<k] [] = map fresh_session (take k hs)"
  using k
proof (induction k)
  case (Suc k)
  then have k: "k < length hs" by simp
  have "hit_channel (hs ! k) \<notin> hit_channel ` set (map fresh_session (take k hs))"
    using hs(2) k by (auto simp: in_set_conv_nth distinct_conv_nth)
  then have "seed_hit cfg (f k) (g k) (map fresh_session (take k hs))
      = map fresh_session (take k hs) @ [fresh_session (hs ! k)]"
    using off [OF k] hs k by (simp add: seed_hit_fresh)
  with Suc k show ?case by (simp add: take_Suc_conv_app_nth)
qed simp

section \<open>Properties\<close>

text \<open>
  The hit table keeps its shape under every operation on it (a condemnation, a reclaim, the
  decay, reading a flash record whatever its bytes, and the boot sequence from any state): at
  most three times the persisted size, no channel twice, channels in range, counts between 1 and
  65535 with the session count below the total.
\<close>

lemma hit_table_invariant:
  assumes cfg: "kconfig_ok cfg" and w: "table_wf cfg (m_hits s)"
  shows "table_wf cfg (m_hits (persist_record_hit cfg rdv ch s))
    \<and> table_wf cfg (m_hits (fst (persist_reclaim ch (s, q))))
    \<and> table_wf cfg (m_hits (fst (persist_decay_check cfg rdv now (s, q))))
    \<and> table_wf cfg (m_hits (load_quar cfg buf s))
    \<and> table_wf cfg (m_hits (fst (persist_load cfg rdv now records (t, q))))"
proof -
  have wr: "m_hits (persist_write u) = m_hits u" for u by (simp add: persist_write_def Let_def)
  have tick: "m_hits (decay_tick now u) = m_hits u" for u by (simp add: decay_tick_def Let_def)
  have check: "table_wf cfg (m_hits (fst (persist_decay_check cfg rdv now (u, r))))"
    if "table_wf cfg (m_hits u)" for u r
    using that
    by (auto simp: persist_decay_check_def Let_def wr tick rebuild_simps split_beta
        intro!: table_wf_decay)
  have load: "table_wf cfg (m_hits (fold (load_quar cfg) bs u))" if "table_wf cfg (m_hits u)" for bs u
    using that by (induction bs arbitrary: u) (simp_all add: table_wf_load)
  have "table_wf cfg []" by (simp add: table_wf_def)
  then have "table_wf cfg (m_hits (fst (persist_load cfg rdv now records (t, q))))"
    by (auto simp: persist_load_def Let_def split_beta rebuild_simps intro!: check load)
  moreover have "table_wf cfg (m_hits (fst (persist_reclaim ch (s, q))))"
    using w by (auto simp: persist_reclaim_def Let_def split: option.splits
        dest: find_channel_SomeD intro!: table_wf_swap_remove)
  ultimately show ?thesis
    using w cfg check [OF w] table_wf_load [OF w]
    by (simp add: persist_record_hit_def table_wf_record_hit)
qed

definition blank_offenders :: offenders where
  "blank_offenders = \<lparr>m_hits = [], decay_accum_min = 0, decay_frac_ms = 0, decay_last_uptime = 0,
     saved_accum_min = 0, off_buf = [], saved_off = [], nvs_quar = None\<rparr>"

text \<open>
  C12. The avoided set is the top of the evidence: after a rebuild it holds distinct channels with
  at least the threshold of hits, never the rendezvous channel, at most the configured number of
  them, and a qualifying channel is left out only when the set is full of channels with at least
  as many hits.
\<close>

theorem avoided_set_is_top:
  assumes "table_wf cfg (m_hits s)" and "quarantine_wf cfg q"
  shows "let q' = snd (persist_rebuild_avoided cfg rdv (s, q)); A = avoided q' in
     quarantine_wf cfg q' \<and> distinct A \<and> length A \<le> persist_n cfg \<and> rdv \<notin> set A
   \<and> (\<forall>c \<in> set A. \<exists>h \<in> set (m_hits s). hit_channel h = c \<and> c_persist_threshold cfg \<le> hit_hits h)
   \<and> (\<forall>h \<in> set (m_hits s). promotable cfg rdv h \<and> hit_channel h \<notin> set A \<longrightarrow>
        length A = persist_n cfg
      \<and> (\<forall>g \<in> set (m_hits s). hit_channel g \<in> set A \<longrightarrow> hit_hits h \<le> hit_hits g))"
proof -
  let ?hs = "m_hits s"
  let ?W = "worst cfg rdv ?hs"
  have d: "distinct (map hit_channel ?hs)" using assms(1) by (simp add: table_wf_def)
  have same: "g \<in> set ?W" if "g \<in> set ?hs" "hit_channel g \<in> hit_channel ` set ?W" for g
    using that d worst_set [of ?hs cfg rdv] by (auto simp: distinct_map inj_on_def)
  have out: "length ?W = persist_n cfg \<and> (\<forall>g \<in> set ?hs. hit_channel g \<in> hit_channel ` set ?W
       \<longrightarrow> hit_hits h \<le> hit_hits g)"
    if "h \<in> set ?hs" "promotable cfg rdv h" "hit_channel h \<notin> hit_channel ` set ?W" for h
  proof -
    have "h \<notin> set ?W" using that(3) by blast
    from worst_left_out [OF that(1,2) this] same show ?thesis by blast
  qed
  have "\<forall>w \<in> set ?W. promotable cfg rdv w \<and> w \<in> set ?hs" using worst_set [of ?hs cfg rdv] by blast
  then have "rdv \<notin> hit_channel ` set ?W"
    "\<forall>c \<in> hit_channel ` set ?W. \<exists>h \<in> set ?hs. hit_channel h = c \<and> c_persist_threshold cfg \<le> hit_hits h"
    by (auto simp: promotable_def not_less)
  with out worst_distinct [OF d] worst_length [of ?hs cfg rdv]
    quarantine_wf_rebuild [OF assms(2), of rdv s]
  show ?thesis unfolding Let_def rebuild_simps set_map length_map by (intro conjI) auto
qed

definition two_offenders :: offenders where
  "two_offenders = blank_offenders\<lparr>m_hits := [\<lparr>hit_channel = 7, hit_hits = 4, hit_session = 1\<rparr>,
     \<lparr>hit_channel = 40, hit_hits = 2, hit_session = 0\<rparr>]\<rparr>"

definition blank_quarantine :: quarantine_state where
  "blank_quarantine = \<lparr>expires_at = replicate 101 0,
     persistent = \<lparr>pq_channels = replicate 5 0, pq_count = 0\<rparr>\<rparr>"

lemma two_offenders_wf: "table_wf default_kconfig (m_hits two_offenders)"
  by (simp add: two_offenders_def table_wf_def hit_ok_def hit_table_size_def default_kconfig_def)

lemma blank_quarantine_wf: "quarantine_wf default_kconfig blank_quarantine"
  by (simp add: blank_quarantine_def quarantine_wf_def default_kconfig_def)

theorem avoided_set_is_top_witness:
  "2 \<notin> set (avoided (snd (persist_rebuild_avoided default_kconfig 2 (two_offenders, blank_quarantine))))"
  using avoided_set_is_top [OF two_offenders_wf blank_quarantine_wf, of 2] by (simp add: Let_def)

lemma rd16_halves: "rd16 (ucast a # ucast (drop_bit 8 a) # rest) 0 = unat (a :: u16)"
proof -
  have "rd16 (ucast a # ucast (drop_bit 8 a) # rest) 0 = unat (ucast a :: u8) + 256 * unat (ucast (drop_bit 8 a) :: u8)"
    by (simp add: rd16_def)
  moreover have "unat (ucast a :: u8) = unat a mod 256"
    by (simp add: unsigned_ucast_eq take_bit_eq_mod)
  moreover have "unat (ucast (drop_bit 8 a) :: u8) = unat a div 256"
    using less_mult_imp_div_less [of "unat a" 256 256] unsigned_less [of a, where 'a = nat]
    by (simp add: unat_div_distrib unsigned_ucast_eq take_bit_eq_mod unat_drop_bit_eq drop_bit_eq_div)
  ultimately show ?thesis by simp
qed

text \<open>
  C17. The flash record round trip: after a rebuild, the record written and read back into an
  empty table restores exactly the avoided channels with their hit counts, in rank order and
  with fresh session counts, and the decay accumulator, saturated to 16 bits.
\<close>

theorem flash_record_roundtrip:
  assumes "kconfig_ok cfg" and "table_wf cfg (m_hits s)" and "t = fst (persist_rebuild_avoided cfg rdv (s, q))"
    and "nvs_quar (persist_write t) = Some buf" and "m_hits u = []"
  shows "m_hits (load_quar cfg buf u) = map fresh_session (worst cfg rdv (m_hits s))
    \<and> unat (decay_accum_min (load_quar cfg buf u)) = min 65535 (unat (decay_accum_min s))"
proof -
  let ?W = "worst cfg rdv (m_hits s)"
  let ?off = "(of_nat (length ?W) :: u8) # concat (map serialise_hit ?W)"
  define acc where "acc = (if 65535 < decay_accum_min s then 65535 else ucast (decay_accum_min s) :: u16)"
  have off: "off_buf t = ?off" and da: "decay_accum_min t = decay_accum_min s"
    unfolding assms(3) by (rule rebuild_simps)+
  have buf: "buf = ucast acc # ucast (drop_bit 8 acc) # ?off"
    using assms(4) unfolding persist_write_def Let_def acc_def off da by simp
  have n: "length ?W \<le> c_persist_n cfg" "c_persist_n cfg \<le> 32"
    using order_trans [OF worst_length persist_n_le] kconfig_okD(8) [OF assms(1)] by simp_all
  have len: "length ?off = 1 + 3 * length ?W"
    using length_concat_serialise [of ?W] by simp
  have stored: "stored_count ?off = length ?W"
    using n len by (simp add: stored_count_def unat_of_nat8 Let_def mult.commute)
  have fits: "\<not> (length buf < 3 \<or> persist_rec_max cfg < length buf)"
    using n len unfolding buf by (simp add: persist_rec_max_def persist_off_max_def)
  have ok: "\<forall>h \<in> set ?W. hit_ok h" "distinct (map hit_channel ?W)" "length ?W \<le> hit_table_size cfg"
    using worst_set [of "m_hits s" cfg rdv] worst_distinct assms(2) n
    by (auto simp: table_wf_def hit_table_size_def simp del: length_map)
  have "drop 2 buf = ?off" unfolding buf by simp
  then have hits: "m_hits (load_quar cfg buf u)
      = fold (\<lambda>i. seed_hit cfg (unat (?off ! (1 + i * 3))) (rd16 ?off (2 + i * 3))) [0..<length ?W] []"
    and acc': "decay_accum_min (load_quar cfg buf u) = of_nat (rd16 buf 0)"
    using fits assms(5) stored by (simp_all add: load_quar_def Let_def del: nth_Cons_Suc)
  have "fold (\<lambda>i. seed_hit cfg (unat (?off ! (1 + i * 3))) (rd16 ?off (2 + i * 3))) [0..<length ?W] []
      = map fresh_session (take (length ?W) ?W)"
    by (rule seed_all [OF ok]) (rule serialised_fields [OF _ ok(1) refl], assumption, rule order_refl)
  moreover have "rd16 buf 0 = unat acc" unfolding buf by (rule rd16_halves)
  moreover have "unat acc = min 65535 (unat (decay_accum_min s))"
    by (auto simp: acc_def word_less_nat_alt unsigned_ucast_eq take_bit_eq_mod)
  ultimately show ?thesis
    using hits acc' unsigned_less [of acc, where 'a = nat] by (simp add: unat_of_nat)
qed

theorem flash_record_roundtrip_witness:
  "m_hits (load_quar default_kconfig
      (the (nvs_quar (persist_write (fst (persist_rebuild_avoided default_kconfig 2
         (two_offenders, blank_quarantine)))))) blank_offenders)
   = map fresh_session (worst default_kconfig 2 (m_hits two_offenders))"
proof -
  let ?t = "fst (persist_rebuild_avoided default_kconfig 2 (two_offenders, blank_quarantine))"
  have "nvs_quar (persist_write ?t) = Some (the (nvs_quar (persist_write ?t)))"
    by (simp add: persist_write_def Let_def)
  from flash_record_roundtrip [OF kconfig_ok_default two_offenders_wf refl this, of blank_offenders]
  show ?thesis by (simp add: blank_offenders_def)
qed

lemma decay_apply_0: "\<forall>h \<in> set hs. 1 \<le> hit_hits h \<Longrightarrow> decay_apply 0 hs = hs"
proof -
  assume "\<forall>h \<in> set hs. 1 \<le> hit_hits h"
  then have "filter (\<lambda>h. 0 < hit_hits h) hs = hs" by (induction hs) auto
  then show ?thesis by (simp add: decay_apply_def map_idI)
qed

lemma decay_tick_total:
  assumes "decay_last_uptime s \<le> now"
    and dt: "dt = unat now - unat (decay_last_uptime s)"
    and f: "unat (decay_frac_ms s) + dt < 2 ^ 32"
    and fr: "unat (decay_frac_ms s) < 60000"
    and T: "T = 60000 * unat (decay_accum_min s) + unat (decay_frac_ms s) + dt"
    and small: "T div 60000 < 2 ^ 32"
  shows "unat (decay_accum_min (decay_tick now s)) = T div 60000
    \<and> unat (decay_frac_ms (decay_tick now s)) = T mod 60000"
proof -
  let ?f = "decay_frac_ms s + (now - decay_last_uptime s)"
  have uf: "unat ?f = unat (decay_frac_ms s) + dt"
    using assms(1) f by (simp add: unat_word_ariths unat_sub dt)
  have d: "T div 60000 = unat (decay_accum_min s) + unat ?f div 60000" "T mod 60000 = unat ?f mod 60000"
    unfolding T uf add.assoc by simp_all
  have "unat (decay_accum_min s + ?f div 60000) = unat (decay_accum_min s) + unat ?f div 60000"
    using small d by (simp add: unat_word_ariths unat_div_distrib)
  moreover have "unat (?f mod 60000) = unat ?f mod 60000" by (simp add: unat_mod_distrib)
  moreover have "60000 \<le> ?f \<longleftrightarrow> 60000 \<le> unat ?f" by (simp add: word_le_nat_alt)
  moreover have "decay_accum_min (decay_tick now s) =
      (if 60000 \<le> ?f then decay_accum_min s + ?f div 60000 else decay_accum_min s)"
    "decay_frac_ms (decay_tick now s) = (if 60000 \<le> ?f then ?f mod 60000 else ?f)"
    using assms(1) by (simp_all add: decay_tick_def Let_def)
  ultimately show ?thesis using d by (simp add: not_le)
qed

text \<open>
  The decay clock loses no time: with \<open>T\<close> the milliseconds accumulated so far plus those
  since the last sample, a check leaves \<open>T\<close>'s minutes modulo the period and its milliseconds
  modulo the minute, and ages every channel by exactly the number of whole periods in between,
  dropping those that reach zero; when the uptime has gone backwards nothing is accumulated.
\<close>

lemma decay_clock_correct:
  assumes "table_wf cfg (m_hits s)" and "persist_decay_period_min cfg = p" and "p \<noteq> 0"
    and "unat (decay_frac_ms s) < 60000"
    and "dt = (if decay_last_uptime s \<le> now then unat now - unat (decay_last_uptime s) else 0)"
    and "unat (decay_frac_ms s) + dt < 2 ^ 32"
    and "T = 60000 * unat (decay_accum_min s) + unat (decay_frac_ms s) + dt"
    and "T div 60000 < 2 ^ 32"
  shows "let s' = fst (persist_decay_check cfg rdv now (s, q)) in
     unat (decay_accum_min s') = T div 60000 mod unat p \<and> unat (decay_frac_ms s') = T mod 60000
   \<and> m_hits s' = decay_apply (T div 60000 div unat p) (m_hits s)"
proof -
  let ?t = "decay_tick now s"
  have tick: "unat (decay_accum_min ?t) = T div 60000 \<and> unat (decay_frac_ms ?t) = T mod 60000"
  proof (cases "decay_last_uptime s \<le> now")
    case True
    with decay_tick_total [OF True _ _ assms(4) _ assms(8)] assms show ?thesis by simp
  next
    case False
    with assms have "decay_frac_ms ?t = decay_frac_ms s \<and> decay_accum_min ?t = decay_accum_min s"
      by (simp add: decay_tick_def Let_def word_le_nat_alt)
    with False assms show ?thesis by simp
  qed
  have mh: "m_hits ?t = m_hits s" by (simp add: decay_tick_def Let_def)
  have wr: "m_hits (persist_write u) = m_hits u \<and> decay_accum_min (persist_write u) = decay_accum_min u
      \<and> decay_frac_ms (persist_write u) = decay_frac_ms u" for u
    by (simp add: persist_write_def Let_def)
  let ?A = "decay_accum_min ?t"
  let ?s' = "fst (persist_decay_check cfg rdv now (s, q))"
  have p0: "0 < unat p" using assms(3) by (simp add: unat_gt_0)
  show ?thesis
  proof (cases "p \<le> ?A")
    case True
    have "?A - ?A div p * p = ?A mod p" by (metis minus_div_mult_eq_mod)
    with True assms(2,3) have "decay_accum_min ?s' = ?A mod p \<and> decay_frac_ms ?s' = decay_frac_ms ?t
        \<and> m_hits ?s' = decay_apply (unat (?A div p)) (m_hits s)"
      by (simp add: persist_decay_check_def Let_def split_beta rebuild_simps wr mh)
    with tick show ?thesis by (simp add: Let_def unat_mod_distrib unat_div_distrib)
  next
    case False
    then have lt: "unat ?A < unat p" by (simp add: word_le_nat_alt)
    have "\<forall>h \<in> set (m_hits s). 1 \<le> hit_hits h" using assms(1) by (simp add: table_wf_def hit_ok_def)
    then have "decay_apply 0 (m_hits s) = m_hits s" by (rule decay_apply_0)
    moreover have "decay_accum_min ?s' = ?A \<and> decay_frac_ms ?s' = decay_frac_ms ?t \<and> m_hits ?s' = m_hits s"
      using False assms(2,3) by (simp add: persist_decay_check_def Let_def split_beta wr mh)
    ultimately show ?thesis using tick lt by (simp add: Let_def)
  qed
qed

end
