(* ===== verification/HopState.thy ===== *)
theory HopState
  imports Offenders Protocol
begin

text \<open>
  The state of the endpoint's channel-hop manager (\<open>src/src/esb/channel_hop_ep.c\<close>) and the
  operations on it that do not call the transport: the interrupt hooks, the reception of CONFIRM,
  ACCEPT and REQUEST, the connection hooks, the cooperative-hop gates, the decision where to hop
  and the bookkeeping after a hop. The work functions that transmit or retune are in HopWork.
  \<open>current\<close> and \<open>rdv\<close> are the transport's active and rendezvous channels, \<open>now\<close> the clock and
  \<open>cyc\<close> the cycle counter at the call.
\<close>

section \<open>State\<close>

datatype coop_state = COOP_IDLE | COOP_OFFERED | COOP_ARMED

datatype hop_work_item = W_negotiate | W_idle_check | W_post_hop_burst | W_hop_retry | W_hop
  | W_coop_offer | W_coop_commit | W_persist | W_rssi_persist

record hop =
  quar :: quarantine_state
  offs :: offenders
  chan_rssi :: rssi_state
  rssi_saved :: rssi_state
  nvs_rssi :: "rssi_state option"
  prng_state :: u32
  committed_next :: nat
  committed_synced :: bool
  link_up :: bool
  prev_channel :: nat
  prev_known_channel :: nat
  hop_active :: bool
  burst_remaining :: nat
  pending_candidate :: nat
  request_burst :: nat
  hop_cooldown_until :: u32
  last_link_event_ms :: u32
  rdv_fallback_pending :: bool
  rdv_hold_until :: u32
  coop_st :: coop_state
  coop_target :: nat
  coop_seq :: u8
  last_tx_was_offer :: bool
  coop_cooldown_until :: u32
  hop_wq :: "hop_work_item workq"

definition hop_resched :: "hop_work_item \<Rightarrow> u32 \<Rightarrow> hop \<Rightarrow> hop" where
  "hop_resched w d h = h\<lparr>hop_wq := resched w d (hop_wq h)\<rparr>"

definition hop_cancel :: "hop_work_item \<Rightarrow> hop \<Rightarrow> hop" where
  "hop_cancel w h = h\<lparr>hop_wq := cancel w (hop_wq h)\<rparr>"

definition hop_submit :: "hop_work_item \<Rightarrow> hop \<Rightarrow> hop" where
  "hop_submit w h = h\<lparr>hop_wq := submit w (hop_wq h)\<rparr>"

text \<open>Running an operation of the offender bookkeeping on the manager's state.\<close>

definition on_offs ::
  "(offenders \<times> quarantine_state \<Rightarrow> offenders \<times> quarantine_state) \<Rightarrow> hop \<Rightarrow> hop" where
  "on_offs f h = (let (s, q) = f (offs h, quar h) in h\<lparr>offs := s, quar := q\<rparr>)"

definition until_active :: "u32 \<Rightarrow> u32 \<Rightarrow> bool" where
  "until_active until now = (if until = 0 then False else before_deadline until now)"

definition hop_cooldown_active :: "u32 \<Rightarrow> hop \<Rightarrow> bool" where
  "hop_cooldown_active now h = until_active (hop_cooldown_until h) now"

definition coop_hop_cooldown_active :: "u32 \<Rightarrow> hop \<Rightarrow> bool" where
  "coop_hop_cooldown_active now h = until_active (coop_cooldown_until h) now"

section \<open>Persistence\<close>

definition persist_work_fn :: "kconfig \<Rightarrow> nat \<Rightarrow> hop \<Rightarrow> hop" where
  "persist_work_fn cfg rdv h =
     hop_resched W_persist (c_persist_interval_ms cfg) (on_offs (persist_distill cfg rdv) h)"

definition rssi_persist_work_fn :: "kconfig \<Rightarrow> hop \<Rightarrow> hop" where
  "rssi_persist_work_fn cfg h =
     (let h1 = (if chan_rssi h \<noteq> rssi_saved h
                then h\<lparr>nvs_rssi := Some (chan_rssi h), rssi_saved := chan_rssi h\<rparr> else h)
      in hop_resched W_rssi_persist (c_rssi_persist_ms cfg) h1)"

text \<open>The record \<open>rssi\<close> of the settings, dropped when its length is not the channel count.\<close>

definition load_rssi :: "rssi_state option \<Rightarrow> rssi_state \<Rightarrow> rssi_state" where
  "load_rssi rec r = (case rec of None \<Rightarrow> r | Some x \<Rightarrow> if length x = channel_count then x else r)"

section \<open>Choosing candidates\<close>

definition pick_candidate :: "kconfig \<Rightarrow> u32 \<Rightarrow> u32 \<Rightarrow> nat \<Rightarrow> hop \<Rightarrow> nat \<times> hop" where
  "pick_candidate cfg now cyc current h =
     (let (ch, s) = channel_hop_pick_weighted cfg now cyc (prng_state h) (quar h)
                      (c_min_distance cfg) current (Some (chan_rssi h))
      in (ch, h\<lparr>prng_state := s\<rparr>))"

definition usable_next :: "u32 \<Rightarrow> nat \<Rightarrow> hop \<Rightarrow> nat \<Rightarrow> bool" where
  "usable_next now current h ch \<longleftrightarrow>
     ch \<noteq> channel_invalid \<and> ch \<noteq> current \<and> \<not> quarantine_is now (quar h) ch"

definition select_pending_candidate :: "kconfig \<Rightarrow> u32 \<Rightarrow> u32 \<Rightarrow> nat \<Rightarrow> hop \<Rightarrow> nat \<times> hop" where
  "select_pending_candidate cfg now cyc current h =
     (if usable_next now current h (pending_candidate h) then (pending_candidate h, h)
      else let (ch, h1) = pick_candidate cfg now cyc current h
        in (ch, h1\<lparr>pending_candidate := ch\<rparr>))"

definition coop_hop_pick_target :: "kconfig \<Rightarrow> u32 \<Rightarrow> u32 \<Rightarrow> nat \<Rightarrow> hop \<Rightarrow> nat \<times> hop" where
  "coop_hop_pick_target cfg now cyc current h =
     (if usable_next now current h (committed_next h) then (committed_next h, h)
      else pick_candidate cfg now cyc current h)"

section \<open>Activity and the connection\<close>

definition coop_hop_abort :: "hop \<Rightarrow> hop" where
  "coop_hop_abort h = (hop_cancel W_coop_commit (hop_cancel W_coop_offer h))
     \<lparr>coop_st := COOP_IDLE, last_tx_was_offer := False\<rparr>"

definition enter_active_state :: "kconfig \<Rightarrow> nat \<Rightarrow> u32 \<Rightarrow> bool \<Rightarrow> hop \<Rightarrow> hop" where
  "enter_active_state cfg rdv now send_initial_proposal h =
     (if hop_active h then hop_resched W_idle_check (c_idle_threshold_ms cfg) h
      else
        let h1 = on_offs (persist_decay_check cfg rdv now) (h\<lparr>hop_active := True\<rparr>);
            h2 = hop_resched W_idle_check (c_idle_threshold_ms cfg) h1
        in if send_initial_proposal then hop_resched W_negotiate 0 h2
           else hop_resched W_negotiate (c_negotiate_retry_ms cfg) h2)"

text \<open>The state part of \<open>enter_idle_state\<close>, before the IDLE packet goes out.\<close>

definition leave_active :: "hop \<Rightarrow> hop" where
  "leave_active h =
     coop_hop_abort (hop_cancel W_idle_check (hop_cancel W_negotiate (h\<lparr>hop_active := False\<rparr>)))"

definition channel_hop_ep_on_connected :: "kconfig \<Rightarrow> nat \<Rightarrow> u32 \<Rightarrow> hop \<Rightarrow> hop" where
  "channel_hop_ep_on_connected cfg rdv now h =
     enter_active_state cfg rdv now True (on_offs (persist_reclaim rdv) (h\<lparr>link_up := True\<rparr>))"

definition channel_hop_ep_on_disconnected :: "hop \<Rightarrow> hop" where
  "channel_hop_ep_on_disconnected h =
     (let h1 = h\<lparr>link_up := False, hop_active := False, committed_next := channel_invalid,
                 committed_synced := False, prev_channel := channel_invalid,
                 prev_known_channel := channel_invalid, burst_remaining := 0,
                 hop_cooldown_until := 0, last_link_event_ms := 0,
                 rdv_fallback_pending := False, rdv_hold_until := 0, request_burst := 0,
                 coop_cooldown_until := 0\<rparr>
      in coop_hop_abort (hop_cancel W_hop_retry (hop_cancel W_post_hop_burst
           (hop_cancel W_idle_check (hop_cancel W_negotiate h1)))))"

definition channel_hop_ep_note_user_tx :: "kconfig \<Rightarrow> nat \<Rightarrow> u32 \<Rightarrow> hop \<Rightarrow> hop" where
  "channel_hop_ep_note_user_tx cfg rdv now h =
     (if \<not> link_up h then h else enter_active_state cfg rdv now False h)"

section \<open>Packets from the dongle\<close>

text \<open>\<open>on_accept\<close> and \<open>on_confirm\<close> are the two halves of \<open>channel_hop_ep_on_rx\<close>.\<close>

definition on_accept :: "bytes \<Rightarrow> hop \<Rightarrow> hop" where
  "on_accept data h =
     (if length data < 4 then h
      else let agreed = unat (data ! 1); seq = data ! 3 in
        if seq \<noteq> coop_seq h then h
        else if coop_st h \<noteq> COOP_OFFERED \<and> coop_st h \<noteq> COOP_ARMED then h
        else if channel_count \<le> agreed then h
        else if agreed \<noteq> coop_target h then h\<lparr>coop_target := agreed\<rparr>
        else h)"

definition on_confirm :: "kconfig \<Rightarrow> u32 \<Rightarrow> bytes \<Rightarrow> hop \<Rightarrow> hop" where
  "on_confirm cfg now data h =
     (if length data < 3 then h
      else if data ! 0 \<noteq> pkt_hop_confirm then h
      else let agreed = unat (data ! 1) in
        if channel_count \<le> agreed then h
        else if quarantine_is now (quar h) agreed then
          (let h1 = h\<lparr>committed_synced := False\<rparr>
           in if link_up h1 \<and> hop_active h1
              then hop_resched W_negotiate 0 (h1\<lparr>request_burst := c_request_burst cfg\<rparr>) else h1)
        else
          let was_missing = (committed_next h = channel_invalid);
              h1 = h\<lparr>committed_next := agreed, committed_synced := True, request_burst := 0\<rparr>
          in if was_missing \<and> link_up h1 \<and> hop_active h1
             then hop_resched W_negotiate (c_negotiate_interval_ms cfg) h1 else h1)"

definition channel_hop_ep_on_rx :: "kconfig \<Rightarrow> u32 \<Rightarrow> bytes \<Rightarrow> hop \<Rightarrow> hop" where
  "channel_hop_ep_on_rx cfg now data h =
     (if length data < 1 then h
      else if data ! 0 = pkt_hop_accept then on_accept data h
      else on_confirm cfg now data h)"

definition channel_hop_ep_on_request :: "kconfig \<Rightarrow> hop \<Rightarrow> hop" where
  "channel_hop_ep_on_request cfg h =
     (if \<not> link_up h then h
      else hop_resched W_negotiate 0
             (h\<lparr>request_burst := c_request_burst cfg, committed_synced := False\<rparr>))"

definition channel_hop_ep_note_peer_rssi :: "kconfig \<Rightarrow> nat \<Rightarrow> int \<Rightarrow> hop \<Rightarrow> hop" where
  "channel_hop_ep_note_peer_rssi cfg current ewma h =
     h\<lparr>chan_rssi := channel_rssi_update cfg (chan_rssi h) current (i8 (- ewma))\<rparr>"

text \<open>Fills at most \<open>max_n\<close> entries, in channel order.\<close>

definition channel_hop_ep_get_rssi :: "nat \<Rightarrow> hop \<Rightarrow> (nat \<times> int) list" where
  "channel_hop_ep_get_rssi max_n h =
     take max_n (List.map_filter (\<lambda>ch. map_option (Pair ch) (channel_rssi_get (chan_rssi h) ch))
                   [0..<channel_count])"

section \<open>Interrupt hooks\<close>

definition channel_hop_ep_on_link_degraded_isr :: "u32 \<Rightarrow> hop \<Rightarrow> hop" where
  "channel_hop_ep_on_link_degraded_isr now h =
     (if \<not> link_up h \<or> \<not> hop_active h then h
      else if coop_st h \<noteq> COOP_IDLE then h
      else if hop_cooldown_active now h \<or> coop_hop_cooldown_active now h then h
      else hop_resched W_coop_offer 0 (h\<lparr>coop_st := COOP_OFFERED\<rparr>))"

text \<open>What the hook does once the offer of a cooperative hop has been dealt with.\<close>

definition tx_fail_hop :: "kconfig \<Rightarrow> u32 \<Rightarrow> hop \<Rightarrow> hop" where
  "tx_fail_hop cfg now h =
     (if \<not> hop_active h then h
      else if rdv_hold_until h \<noteq> 0 \<and> before_deadline (rdv_hold_until h) now then h
      else
        let h1 = (if rdv_hold_until h \<noteq> 0 then h\<lparr>rdv_hold_until := 0\<rparr> else h) in
        if hop_cooldown_active now h1 then
          (if c_rdv_fallback_ms cfg > 0 \<and> last_link_event_ms h1 \<noteq> 0 \<and> \<not> rdv_fallback_pending h1
              \<and> c_rdv_fallback_ms cfg \<le> now - last_link_event_ms h1
           then hop_submit W_hop (h1\<lparr>rdv_fallback_pending := True\<rparr>)
           else h1)
        else hop_submit W_hop h1)"

definition channel_hop_ep_on_tx_fail_isr :: "kconfig \<Rightarrow> u32 \<Rightarrow> hop \<Rightarrow> hop" where
  "channel_hop_ep_on_tx_fail_isr cfg now h =
     (if last_tx_was_offer h then
        (let h1 = h\<lparr>last_tx_was_offer := False\<rparr>
         in if coop_st h1 = COOP_OFFERED then h1\<lparr>coop_st := COOP_IDLE\<rparr> else tx_fail_hop cfg now h1)
      else tx_fail_hop cfg now h)"

definition channel_hop_ep_on_tx_success_isr :: "kconfig \<Rightarrow> u32 \<Rightarrow> hop \<Rightarrow> hop" where
  "channel_hop_ep_on_tx_success_isr cfg now h =
     (let h1 = (if last_tx_was_offer h then
                  (let h' = h\<lparr>last_tx_was_offer := False\<rparr>
                   in if coop_st h' = COOP_OFFERED
                      then hop_resched W_coop_commit (of_nat (c_coop_hop_in_ms cfg))
                             (h'\<lparr>coop_st := COOP_ARMED\<rparr>)
                      else h')
                else h)
      in h1\<lparr>prev_channel := channel_invalid, rdv_hold_until := 0, last_link_event_ms := nz_stamp now\<rparr>)"

section \<open>Where to hop, and what a hop leaves behind\<close>

datatype hop_kind = Hop_Rendezvous | Hop_Revert | Hop_Normal

text \<open>
  The decision of \<open>hop_work_fn\<close>: \<open>None\<close> when there is nothing to hop to. It only consumes the
  fallback request and draws random numbers; nothing else is changed before the radio has moved.
\<close>

definition hop_decide ::
  "kconfig \<Rightarrow> u32 \<Rightarrow> u32 \<Rightarrow> nat \<Rightarrow> nat \<Rightarrow> hop \<Rightarrow> (hop_kind \<times> nat) option \<times> hop" where
  "hop_decide cfg now cyc rdv current h =
     (let prev = prev_channel h;
          is_revert = (prev \<noteq> channel_invalid \<and> prev \<noteq> current)
      in if rdv_fallback_pending h then
           (let h1 = h\<lparr>rdv_fallback_pending := False\<rparr>
            in if rdv = current then (None, h1) else (Some (Hop_Rendezvous, rdv), h1))
         else if is_revert then (Some (Hop_Revert, prev), h)
         else if usable_next now current h (committed_next h)
           then (Some (Hop_Normal, committed_next h), h)
         else if current \<noteq> rdv then (Some (Hop_Normal, rdv), h)
         else if prev_known_channel h \<noteq> channel_invalid \<and> prev_known_channel h \<noteq> current
           then (Some (Hop_Normal, prev_known_channel h), h)
         else let (ch, h1) = pick_candidate cfg now cyc current h
           in if ch = channel_invalid then (None, h1) else (Some (Hop_Normal, ch), h1))"

definition start_post_hop_burst :: "kconfig \<Rightarrow> hop \<Rightarrow> hop" where
  "start_post_hop_burst cfg h =
     (if c_burst_count cfg = 0 then h
      else hop_resched W_post_hop_burst (c_post_quiet_ms cfg)
             (h\<lparr>burst_remaining := c_burst_count cfg, pending_candidate := channel_invalid\<rparr>))"

definition commit_hop_bookkeeping :: "kconfig \<Rightarrow> u32 \<Rightarrow> nat \<Rightarrow> nat \<Rightarrow> u32 \<Rightarrow> hop \<Rightarrow> hop" where
  "commit_hop_bookkeeping cfg now rdv prev quarantine_ms h =
     (let h1 = (if prev \<noteq> rdv
                then h\<lparr>quar := quarantine_add now (quar h) prev quarantine_ms, prev_known_channel := prev\<rparr>
                else h);
          h2 = h1\<lparr>committed_next := channel_invalid, committed_synced := False,
                  hop_cooldown_until := now + c_hop_cooldown_ms cfg,
                  last_link_event_ms := nz_stamp now\<rparr>
      in hop_resched W_negotiate (c_negotiate_retry_ms cfg) (start_post_hop_burst cfg h2))"

text \<open>\<open>m_quarantine.expires_at[target] = 0; persist_reclaim(target)\<close>\<close>

definition unban :: "nat \<Rightarrow> hop \<Rightarrow> hop" where
  "unban target h =
     on_offs (persist_reclaim target)
       (h\<lparr>quar := (quar h)\<lparr>expires_at := (expires_at (quar h))[target := 0]\<rparr>\<rparr>)"

text \<open>The state transitions of \<open>hop_work_fn\<close> after the radio has moved from \<open>current\<close> to \<open>target\<close>.\<close>

definition hop_committed ::
  "kconfig \<Rightarrow> u32 \<Rightarrow> nat \<Rightarrow> nat \<Rightarrow> hop_kind \<Rightarrow> nat \<Rightarrow> hop \<Rightarrow> hop" where
  "hop_committed cfg now rdv current kind target h = (case kind of
     Hop_Rendezvous \<Rightarrow>
       (let h1 = (unban target h)
              \<lparr>prev_channel := channel_invalid, committed_next := channel_invalid,
               committed_synced := False, hop_cooldown_until := now + c_hop_cooldown_ms cfg,
               last_link_event_ms := nz_stamp now\<rparr>;
            h2 = start_post_hop_burst cfg h1;
            h3 = (if c_rdv_hold_ms cfg > 0
                  then h2\<lparr>rdv_hold_until := nz_stamp (now + c_rdv_hold_ms cfg)\<rparr> else h2)
        in hop_resched W_negotiate (c_negotiate_retry_ms cfg) h3)
   | _ \<Rightarrow>
       (let is_revert = (kind = Hop_Revert);
            h1 = (if is_revert then unban target h else h);
            h2 = h1\<lparr>prev_channel := (if is_revert then channel_invalid else current)\<rparr>;
            h3 = commit_hop_bookkeeping cfg now rdv current (c_quarantine_ms cfg) h2
        in h3\<lparr>offs := persist_record_hit cfg rdv current (offs h3)\<rparr>))"

definition coop_committed :: "kconfig \<Rightarrow> u32 \<Rightarrow> nat \<Rightarrow> nat \<Rightarrow> hop \<Rightarrow> hop" where
  "coop_committed cfg now rdv current h =
     (commit_hop_bookkeeping cfg now rdv current (c_coop_quarantine_ms cfg)
        (h\<lparr>prev_channel := channel_invalid\<rparr>))
     \<lparr>coop_cooldown_until := now + c_coop_cooldown_ms cfg, coop_st := COOP_IDLE\<rparr>"

definition hop_retry_work_fn :: "hop \<Rightarrow> hop" where
  "hop_retry_work_fn h = hop_submit W_hop h"

section \<open>Boot\<close>

definition channel_hop_ep_init ::
  "kconfig \<Rightarrow> nat \<Rightarrow> u32 \<Rightarrow> bytes list \<Rightarrow> rssi_state option \<Rightarrow> hop \<Rightarrow> hop" where
  "channel_hop_ep_init cfg rdv now quar_records rssi_record h =
     (let h1 = h\<lparr>quar := quarantine_reset (quar h), chan_rssi := load_rssi rssi_record channel_rssi_reset,
                 hop_wq := no_work\<rparr>;
          h2 = hop_resched W_persist (c_persist_interval_ms cfg)
                 (on_offs (persist_load cfg rdv now quar_records) h1);
          h3 = hop_resched W_rssi_persist (c_rssi_persist_ms cfg) (h2\<lparr>rssi_saved := chan_rssi h2\<rparr>)
      in h3\<lparr>committed_next := channel_invalid, committed_synced := False,
            prev_channel := channel_invalid, prev_known_channel := channel_invalid,
            hop_active := False, burst_remaining := 0, hop_cooldown_until := 0,
            last_link_event_ms := 0, rdv_fallback_pending := False, rdv_hold_until := 0,
            request_burst := 0, coop_st := COOP_IDLE, coop_target := channel_invalid,
            coop_seq := 0, last_tx_was_offer := False, coop_cooldown_until := 0\<rparr>)"

section \<open>Invariant\<close>

named_theorems hop_simps \<open>record equations of the hop manager's operations\<close>

lemma on_offs_eq [hop_simps]:
  "on_offs f h = h\<lparr>offs := fst (f (offs h, quar h)), quar := snd (f (offs h, quar h))\<rparr>"
  by (simp add: on_offs_def split_beta Let_def)

lemmas [hop_simps] = hop_resched_def hop_cancel_def hop_submit_def coop_hop_abort_def Let_def

definition channel_ok :: "nat \<Rightarrow> bool" where
  "channel_ok ch \<longleftrightarrow> ch < channel_count \<or> ch = channel_invalid"

lemma channel_ok_invalid [simp]: "channel_ok channel_invalid"
  by (simp add: channel_ok_def)

definition hop_wf :: "kconfig \<Rightarrow> hop \<Rightarrow> bool" where
  "hop_wf cfg h \<longleftrightarrow>
     quarantine_wf cfg (quar h) \<and> distinct (avoided (quar h))
   \<and> table_wf cfg (m_hits (offs h)) \<and> rssi_wf (chan_rssi h)
   \<and> channel_ok (committed_next h) \<and> channel_ok (prev_channel h) \<and> channel_ok (prev_known_channel h)
   \<and> channel_ok (pending_candidate h) \<and> channel_ok (coop_target h)
   \<and> burst_remaining h \<le> c_burst_count cfg + 255 \<and> request_burst h \<le> c_request_burst cfg
   \<and> (hop_active h \<longrightarrow> link_up h) \<and> (coop_st h \<noteq> COOP_IDLE \<longrightarrow> hop_active h)"

lemma reclaim_table: "table_wf cfg (m_hits s) \<Longrightarrow> table_wf cfg (m_hits (fst (persist_reclaim ch (s, q))))"
  by (auto simp: persist_reclaim_def Let_def split: option.splits
      dest: find_channel_SomeD intro!: table_wf_swap_remove)

lemma reclaim_quarantine: "quarantine_wf cfg q \<Longrightarrow> quarantine_wf cfg (snd (persist_reclaim ch (s, q)))"
  by (auto simp: persist_reclaim_def Let_def quarantine_wf_def split: option.splits)

lemma reclaim_avoided:
  assumes "quarantine_wf cfg q" "distinct (avoided q)"
  shows "distinct (avoided (snd (persist_reclaim ch (s, q))))
    \<and> set (avoided (snd (persist_reclaim ch (s, q)))) = set (avoided q) - {ch}
    \<and> expires_at (snd (persist_reclaim ch (s, q))) = expires_at q"
proof (cases "List.find (\<lambda>i. pq_channels (persistent q) ! i = ch) [0..<pq_count (persistent q)]")
  case None
  then have "\<forall>i < pq_count (persistent q). pq_channels (persistent q) ! i \<noteq> ch"
    by (auto simp: find_None_iff)
  then have "ch \<notin> set (avoided q)" by (auto simp: avoided_def in_set_conv_nth)
  with None assms show ?thesis by (simp add: persist_reclaim_def Let_def avoided_def)
next
  case (Some i)
  let ?p = "persistent q"
  have i: "i < pq_count ?p" "pq_channels ?p ! i = ch"
    using Some by (auto simp: find_Some_iff)
  have len: "pq_count ?p \<le> length (pq_channels ?p)" using assms(1) by (simp add: quarantine_wf_def)
  have "last (avoided q) = pq_channels ?p ! (pq_count ?p - 1)"
  proof -
    have "avoided q \<noteq> []" using i len by (auto simp: avoided_def)
    then have "last (avoided q) = avoided q ! (length (avoided q) - 1)" by (rule last_conv_nth)
    with i len show ?thesis by (simp add: avoided_def)
  qed
  then have "take (pq_count ?p - 1) ((pq_channels ?p)[i := pq_channels ?p ! (pq_count ?p - 1)])
      = swap_remove i (avoided q)"
    using len by (simp add: swap_remove_def avoided_def take_update_swap butlast_take min_def)
      (simp add: butlast_conv_take take_update_swap)
  then have "avoided (snd (persist_reclaim ch (s, q))) = swap_remove i (avoided q)"
    using Some by (simp add: persist_reclaim_def Let_def avoided_def)
  moreover have "avoided q ! i = ch" "i < length (avoided q)" using i len by (simp_all add: avoided_def)
  moreover have "expires_at (snd (persist_reclaim ch (s, q))) = expires_at q"
    by (simp add: persist_reclaim_def Let_def)
  ultimately show ?thesis using swap_remove_set [of i "avoided q"] assms(2) by simp
qed

lemma avoided_rebuild:
  assumes "table_wf cfg (m_hits s)"
  shows "distinct (avoided (snd (persist_rebuild_avoided cfg rdv (s, q))))
    \<and> rdv \<notin> set (avoided (snd (persist_rebuild_avoided cfg rdv (s, q))))"
proof -
  have "distinct (map hit_channel (m_hits s))" using assms by (simp add: table_wf_def)
  from worst_distinct [OF this] worst_set [of "m_hits s" cfg rdv] show ?thesis
    unfolding rebuild_simps by (auto simp: promotable_def)
qed

lemma decay_avoided:
  assumes "table_wf cfg (m_hits s)"
  shows "avoided (snd (persist_decay_check cfg rdv now (s, q))) = avoided q \<or>
    distinct (avoided (snd (persist_decay_check cfg rdv now (s, q))))
    \<and> rdv \<notin> set (avoided (snd (persist_decay_check cfg rdv now (s, q))))"
proof -
  let ?n = "decay_accum_min (decay_tick now s) div persist_decay_period_min cfg"
  let ?s1 = "(decay_tick now s)\<lparr>decay_accum_min := decay_accum_min (decay_tick now s)
        - ?n * persist_decay_period_min cfg,
      m_hits := decay_apply (unat ?n) (m_hits (decay_tick now s))\<rparr>"
  have "snd (persist_decay_check cfg rdv now (s, q)) = q
      \<or> snd (persist_decay_check cfg rdv now (s, q)) = snd (persist_rebuild_avoided cfg rdv (?s1, q))"
    by (simp add: persist_decay_check_def Let_def split_beta)
  moreover have "table_wf cfg (m_hits ?s1)"
    using assms by (simp add: table_wf_decay decay_tick_def Let_def)
  ultimately show ?thesis using avoided_rebuild by metis
qed

lemma decay_avoided_distinct:
  "table_wf cfg (m_hits s) \<Longrightarrow> distinct (avoided q) \<Longrightarrow>
     distinct (avoided (snd (persist_decay_check cfg rdv now (s, q))))"
  using decay_avoided [of cfg s rdv now q] by auto

lemma avoided_simps [simp]:
  "avoided (quarantine_add now q ch hold) = avoided q"
  "avoided (q\<lparr>expires_at := e\<rparr>) = avoided q"
  by (simp_all add: avoided_def)

lemma persist_write_hits [simp]: "m_hits (persist_write u) = m_hits u"
  by (simp add: persist_write_def Let_def)

lemma decay_table:
  "table_wf cfg (m_hits s) \<Longrightarrow> table_wf cfg (m_hits (fst (persist_decay_check cfg rdv now (s, q))))"
  by (auto simp: persist_decay_check_def Let_def decay_tick_def rebuild_simps split_beta
      intro!: table_wf_decay)

lemma decay_quarantine:
  "quarantine_wf cfg q \<Longrightarrow> quarantine_wf cfg (snd (persist_decay_check cfg rdv now (s, q)))"
  by (auto simp: persist_decay_check_def Let_def split_beta intro!: quarantine_wf_rebuild)

lemma distill_eq:
  "persist_distill cfg rdv (s, q) =
     (let r = fst (persist_rebuild_avoided cfg rdv (s, q))
      in (if offenders_changed r then persist_write r else r, snd (persist_rebuild_avoided cfg rdv (s, q))))"
  by (simp add: persist_distill_def Let_def split_beta)

lemma pick_ok:
  assumes "kconfig_ok cfg"
  shows "channel_ok (fst (pick_candidate cfg now cyc current h))
    \<and> (fst (pick_candidate cfg now cyc current h) \<noteq> channel_invalid \<longrightarrow>
         usable_next now current h (fst (pick_candidate cfg now cyc current h)))
    \<and> (\<exists>s. snd (pick_candidate cfg now cyc current h) = h\<lparr>prng_state := s\<rparr>)"
proof -
  let ?p = "channel_hop_pick_weighted cfg now cyc (prng_state h) (quar h) (c_min_distance cfg) current
              (Some (chan_rssi h))"
  have eq: "pick_candidate cfg now cyc current h = (fst ?p, h\<lparr>prng_state := snd ?p\<rparr>)"
    by (simp add: pick_candidate_def split_beta Let_def)
  show ?thesis
    unfolding eq using pick_usable [OF assms refl, of now cyc "prng_state h" "quar h" "c_min_distance cfg" current
        "Some (chan_rssi h)"]
    by (auto simp: channel_ok_def usable_at_def usable_next_def)
qed

lemma hop_wf_prng [simp]: "hop_wf cfg (h\<lparr>prng_state := s\<rparr>) = hop_wf cfg h"
  "hop_wf cfg (h\<lparr>hop_wq := w\<rparr>) = hop_wf cfg h"
  "hop_wf cfg (h\<lparr>hop_cooldown_until := t\<rparr>) = hop_wf cfg h"
  "hop_wf cfg (h\<lparr>last_link_event_ms := t\<rparr>) = hop_wf cfg h"
  "hop_wf cfg (h\<lparr>rdv_fallback_pending := b\<rparr>) = hop_wf cfg h"
  "hop_wf cfg (h\<lparr>rdv_hold_until := t\<rparr>) = hop_wf cfg h"
  "hop_wf cfg (h\<lparr>last_tx_was_offer := b\<rparr>) = hop_wf cfg h"
  "hop_wf cfg (h\<lparr>coop_cooldown_until := t\<rparr>) = hop_wf cfg h"
  "hop_wf cfg (h\<lparr>coop_seq := q\<rparr>) = hop_wf cfg h"
  "hop_wf cfg (h\<lparr>committed_synced := b\<rparr>) = hop_wf cfg h"
  "hop_wf cfg (h\<lparr>rssi_saved := r\<rparr>) = hop_wf cfg h"
  "hop_wf cfg (h\<lparr>nvs_rssi := n\<rparr>) = hop_wf cfg h"
  by (simp_all add: hop_wf_def)

lemma hop_wf_pick:
  assumes "kconfig_ok cfg" "hop_wf cfg h"
  shows "hop_wf cfg (snd (pick_candidate cfg now cyc current h))"
  using pick_ok [OF assms(1), of now cyc current h] assms(2) by auto

lemma hop_wf_select:
  assumes "kconfig_ok cfg" "hop_wf cfg h"
  shows "hop_wf cfg (snd (select_pending_candidate cfg now cyc current h))
    \<and> channel_ok (fst (select_pending_candidate cfg now cyc current h))"
proof (cases "usable_next now current h (pending_candidate h)")
  case True
  with assms show ?thesis by (simp add: select_pending_candidate_def hop_wf_def)
next
  case False
  with pick_ok [OF assms(1), of now cyc current h] assms(2) show ?thesis
    by (auto simp: select_pending_candidate_def Let_def split_beta hop_wf_def)
qed

lemma hop_wf_abort: "hop_wf cfg h \<Longrightarrow> hop_wf cfg (coop_hop_abort h)"
  by (simp add: hop_simps hop_wf_def)

lemma hop_wf_leave: "hop_wf cfg h \<Longrightarrow> hop_wf cfg (leave_active h)"
  by (auto simp: leave_active_def hop_simps hop_wf_def)

lemma hop_wf_enter:
  "hop_wf cfg h \<Longrightarrow> link_up h \<Longrightarrow> hop_wf cfg (enter_active_state cfg rdv now b h)"
  by (simp add: enter_active_state_def hop_simps hop_wf_def decay_table decay_quarantine decay_avoided_distinct)

lemma hop_wf_connected:
  "hop_wf cfg h \<Longrightarrow> hop_wf cfg (channel_hop_ep_on_connected cfg rdv now h)"
  unfolding channel_hop_ep_on_connected_def
  by (rule hop_wf_enter) (auto simp: hop_simps hop_wf_def reclaim_table reclaim_quarantine reclaim_avoided)

lemma hop_wf_disconnected: "hop_wf cfg h \<Longrightarrow> hop_wf cfg (channel_hop_ep_on_disconnected h)"
  by (simp add: channel_hop_ep_on_disconnected_def hop_simps hop_wf_def)

lemma hop_wf_user_tx: "hop_wf cfg h \<Longrightarrow> hop_wf cfg (channel_hop_ep_note_user_tx cfg rdv now h)"
  by (simp add: channel_hop_ep_note_user_tx_def hop_wf_enter)

lemma hop_wf_accept: "hop_wf cfg h \<Longrightarrow> hop_wf cfg (on_accept data h)"
  by (simp add: on_accept_def hop_wf_def channel_ok_def Let_def)

lemma hop_wf_confirm: "hop_wf cfg h \<Longrightarrow> hop_wf cfg (on_confirm cfg now data h)"
  by (simp add: on_confirm_def hop_simps hop_wf_def channel_ok_def) blast

lemma hop_wf_rx: "hop_wf cfg h \<Longrightarrow> hop_wf cfg (channel_hop_ep_on_rx cfg now data h)"
  by (simp add: channel_hop_ep_on_rx_def hop_wf_accept hop_wf_confirm)

lemma hop_wf_request: "hop_wf cfg h \<Longrightarrow> hop_wf cfg (channel_hop_ep_on_request cfg h)"
  by (auto simp: channel_hop_ep_on_request_def hop_simps hop_wf_def)

lemma hop_wf_peer_rssi:
  "kconfig_ok cfg \<Longrightarrow> hop_wf cfg h \<Longrightarrow> hop_wf cfg (channel_hop_ep_note_peer_rssi cfg current e h)"
  by (simp add: channel_hop_ep_note_peer_rssi_def hop_wf_def channel_rssi_update_wf)

lemma hop_wf_degraded: "hop_wf cfg h \<Longrightarrow> hop_wf cfg (channel_hop_ep_on_link_degraded_isr now h)"
  by (auto simp: channel_hop_ep_on_link_degraded_isr_def hop_simps hop_wf_def)

lemma hop_wf_tx_fail: "hop_wf cfg h \<Longrightarrow> hop_wf cfg (channel_hop_ep_on_tx_fail_isr cfg now h)"
  by (simp add: channel_hop_ep_on_tx_fail_isr_def tx_fail_hop_def hop_simps) (simp add: hop_wf_def)

lemma hop_wf_tx_success: "hop_wf cfg h \<Longrightarrow> hop_wf cfg (channel_hop_ep_on_tx_success_isr cfg now h)"
  by (simp add: channel_hop_ep_on_tx_success_isr_def hop_simps hop_wf_def)

lemma hop_wf_burst: "hop_wf cfg h \<Longrightarrow> hop_wf cfg (start_post_hop_burst cfg h)"
  by (simp add: start_post_hop_burst_def hop_simps hop_wf_def)

lemma hop_wf_commit:
  "hop_wf cfg h \<Longrightarrow> prev < channel_count \<Longrightarrow> hop_wf cfg (commit_hop_bookkeeping cfg now rdv prev ms h)"
  by (auto simp: commit_hop_bookkeeping_def start_post_hop_burst_def hop_simps hop_wf_def channel_ok_def)

lemma hop_wf_unban: "hop_wf cfg h \<Longrightarrow> hop_wf cfg (unban ch h)"
proof -
  assume w: "hop_wf cfg h"
  let ?q = "(quar h)\<lparr>expires_at := (expires_at (quar h))[ch := 0]\<rparr>"
  have q: "quarantine_wf cfg ?q" "distinct (avoided ?q)" using w by (simp_all add: hop_wf_def quarantine_wf_def)
  from reclaim_avoided [OF q, of ch "offs h"] reclaim_quarantine [OF q(1), of ch "offs h"] w
  show ?thesis by (simp add: unban_def hop_simps hop_wf_def reclaim_table)
qed

lemma hop_wf_committed:
  assumes "kconfig_ok cfg" "hop_wf cfg h" "current < channel_count"
  shows "hop_wf cfg (hop_committed cfg now rdv current kind target h)"
proof -
  have burst: "hop_wf cfg (start_post_hop_burst cfg ((unban target h)\<lparr>prev_channel := channel_invalid,
      committed_next := channel_invalid, committed_synced := False, hop_cooldown_until := a,
      last_link_event_ms := b\<rparr>))" for a b
    using hop_wf_unban [OF assms(2), of target] by (intro hop_wf_burst) (simp add: hop_wf_def)
  have hit: "hop_wf cfg (g\<lparr>offs := persist_record_hit cfg rdv current (offs g)\<rparr>)" if "hop_wf cfg g" for g
    using that assms(1) by (simp add: hop_wf_def persist_record_hit_def table_wf_record_hit)
  have prev: "hop_wf cfg (g\<lparr>prev_channel := c\<rparr>)" if "hop_wf cfg g" "channel_ok c" for g c
    using that by (simp add: hop_wf_def)
  have c: "channel_ok current" using assms(3) by (simp add: channel_ok_def)
  show ?thesis
  proof (cases kind)
    case Hop_Rendezvous
    with burst show ?thesis by (simp add: hop_committed_def hop_simps)
  next
    case Hop_Revert
    then show ?thesis
      by (simp add: hop_committed_def Let_def)
        (intro hit hop_wf_commit prev hop_wf_unban assms channel_ok_invalid)
  next
    case Hop_Normal
    then show ?thesis
      by (simp add: hop_committed_def Let_def) (intro hit hop_wf_commit prev assms c)
  qed
qed

lemma hop_wf_coop_committed:
  assumes "hop_wf cfg h" "current < channel_count"
  shows "hop_wf cfg (coop_committed cfg now rdv current h)"
proof -
  have "hop_wf cfg (h\<lparr>prev_channel := channel_invalid\<rparr>)" using assms(1) by (simp add: hop_wf_def)
  from hop_wf_commit [OF this assms(2)]
  have "hop_wf cfg (commit_hop_bookkeeping cfg now rdv current (c_coop_quarantine_ms cfg)
      (h\<lparr>prev_channel := channel_invalid\<rparr>))" .
  then show ?thesis by (simp add: coop_committed_def hop_wf_def)
qed

lemma hop_wf_persist: "hop_wf cfg h \<Longrightarrow> hop_wf cfg (persist_work_fn cfg rdv h)"
  by (simp add: persist_work_fn_def hop_simps distill_eq hop_wf_def rebuild_simps(1) quarantine_wf_rebuild
      avoided_rebuild)

lemma hop_wf_rssi_persist: "hop_wf cfg h \<Longrightarrow> hop_wf cfg (rssi_persist_work_fn cfg h)"
  by (simp add: rssi_persist_work_fn_def hop_simps)

lemma hop_wf_decide:
  assumes "kconfig_ok cfg" "hop_wf cfg h"
  shows "hop_wf cfg (snd (hop_decide cfg now cyc rdv current h))"
  using hop_wf_pick [OF assms, of now cyc current] assms(2)
  by (auto simp: hop_decide_def Let_def split_beta)

lemma load_rssi_wf: "rssi_wf r \<Longrightarrow> (\<And>x. rec = Some x \<Longrightarrow> \<forall>v \<in> set x. in_i8 v) \<Longrightarrow> rssi_wf (load_rssi rec r)"
  by (auto simp: load_rssi_def rssi_wf_def split: option.splits)

section \<open>Properties\<close>

text \<open>
  When a transmit failure starts a hop. A pending hop request is added exactly when the
  failure was not the loss of a cooperative offer, the endpoint is active, it is not parked on the
  rendezvous channel, and either no cooldown runs or the cooldown's fallback is due (a positive
  link event exists, is older than the fallback time, and no fallback is pending); in that last
  case the fallback is marked.
\<close>

lemma tx_fail_hop_iff:
  assumes "hop_wq h W_hop = None"
  shows "let h' = channel_hop_ep_on_tx_fail_isr cfg now h;
             cooling = hop_cooldown_active now h;
             fallback = (0 < c_rdv_fallback_ms cfg \<and> last_link_event_ms h \<noteq> 0 \<and> \<not> rdv_fallback_pending h
                         \<and> c_rdv_fallback_ms cfg \<le> now - last_link_event_ms h);
             go = (\<not> (last_tx_was_offer h \<and> coop_st h = COOP_OFFERED) \<and> hop_active h
                   \<and> \<not> until_active (rdv_hold_until h) now \<and> (\<not> cooling \<or> fallback))
         in (hop_wq h' W_hop \<noteq> None \<longleftrightarrow> go)
          \<and> (rdv_fallback_pending h' \<longleftrightarrow> rdv_fallback_pending h \<or> go \<and> cooling)"
  using assms
  by (auto simp: channel_hop_ep_on_tx_fail_isr_def tx_fail_hop_def hop_simps until_active_def
      hop_cooldown_active_def)

definition idle_hop :: hop where
  "idle_hop = \<lparr>quar = blank_quarantine, offs = blank_offenders, chan_rssi = channel_rssi_reset,
     rssi_saved = channel_rssi_reset, nvs_rssi = None, prng_state = 1, committed_next = 255,
     committed_synced = False, link_up = True, prev_channel = 255, prev_known_channel = 255,
     hop_active = True, burst_remaining = 0, pending_candidate = 255, request_burst = 0,
     hop_cooldown_until = 0, last_link_event_ms = 0, rdv_fallback_pending = False, rdv_hold_until = 0,
     coop_st = COOP_IDLE, coop_target = 255, coop_seq = 0, last_tx_was_offer = False,
     coop_cooldown_until = 0, hop_wq = no_work\<rparr>"

text \<open>
  The hop decision: it changes nothing but the generator and the fallback mark; its target is
  a real channel different from the current one; a fallback goes to the rendezvous channel, a
  revert to the channel left last, and a normal hop to the committed channel when that is usable,
  else to the rendezvous channel, else to the last known one, else to a usable pick.
\<close>

lemma hop_decide_pick:
  assumes "\<not> rdv_fallback_pending h" "prev_channel h = channel_invalid \<or> prev_channel h = current"
    and "\<not> usable_next now current h (committed_next h)" "current = rdv"
    and "prev_known_channel h = channel_invalid \<or> prev_known_channel h = current"
  shows "hop_decide cfg now cyc rdv current h = (let (c, h1) = pick_candidate cfg now cyc current h
    in (if c = channel_invalid then None else Some (Hop_Normal, c), h1))"
  using assms by (auto simp: hop_decide_def Let_def split_beta)

lemma hop_decide_correct:
  assumes "kconfig_ok cfg" and "hop_wf cfg h" and "rdv < channel_count"
    and "hop_decide cfg now cyc rdv current h = (d, h')"
  shows "(\<exists>s b. h' = h\<lparr>prng_state := s, rdv_fallback_pending := b\<rparr> \<and> \<not> b)
    \<and> (case d of None \<Rightarrow> True | Some (kind, target) \<Rightarrow>
         target < channel_count \<and> target \<noteq> current
       \<and> (kind = Hop_Rendezvous \<longleftrightarrow> rdv_fallback_pending h)
       \<and> (kind = Hop_Rendezvous \<longrightarrow> target = rdv)
       \<and> (kind = Hop_Revert \<longrightarrow> target = prev_channel h)
       \<and> (kind = Hop_Normal \<longrightarrow> (prev_channel h = channel_invalid \<or> prev_channel h = current)
            \<and> (if usable_next now current h (committed_next h) then target = committed_next h
               else if current \<noteq> rdv then target = rdv
               else if prev_known_channel h \<noteq> channel_invalid \<and> prev_known_channel h \<noteq> current
                 then target = prev_known_channel h
               else usable_next now current h target)))"
proof -
  have ok: "channel_ok (committed_next h)" "channel_ok (prev_channel h)" "channel_ok (prev_known_channel h)"
    using assms(2) by (simp_all add: hop_wf_def)
  note decide = assms(4) [unfolded hop_decide_def Let_def split_beta]
  note keep = exI [of _ "prng_state h"] exI [of _ False]
  consider (rdv) "rdv_fallback_pending h"
    | (revert) "\<not> rdv_fallback_pending h" "prev_channel h \<noteq> channel_invalid" "prev_channel h \<noteq> current"
    | (committed) "\<not> rdv_fallback_pending h" "prev_channel h = channel_invalid \<or> prev_channel h = current"
      "usable_next now current h (committed_next h)"
    | (home) "\<not> rdv_fallback_pending h" "prev_channel h = channel_invalid \<or> prev_channel h = current"
      "\<not> usable_next now current h (committed_next h)" "current \<noteq> rdv"
    | (known) "\<not> rdv_fallback_pending h" "prev_channel h = channel_invalid \<or> prev_channel h = current"
      "\<not> usable_next now current h (committed_next h)" "current = rdv"
      "prev_known_channel h \<noteq> channel_invalid" "prev_known_channel h \<noteq> current"
    | (pick) "\<not> rdv_fallback_pending h" "prev_channel h = channel_invalid \<or> prev_channel h = current"
      "\<not> usable_next now current h (committed_next h)" "current = rdv"
      "prev_known_channel h = channel_invalid \<or> prev_known_channel h = current"
    by blast
  then show ?thesis
  proof cases
    case rdv
    with decide assms(3) show ?thesis by (auto split: if_splits intro!: exI [of _ "prng_state h"])
  next
    case revert
    with decide ok show ?thesis by (auto simp: channel_ok_def intro!: keep)
  next
    case committed
    then have "committed_next h < channel_count \<and> committed_next h \<noteq> current"
      using ok(1) by (auto simp: channel_ok_def usable_next_def)
    with decide committed show ?thesis by (auto intro!: keep)
  next
    case home
    with decide assms(3) show ?thesis by (auto intro!: keep)
  next
    case known
    then have "prev_known_channel h < channel_count" using ok(3) by (simp add: channel_ok_def)
    with decide known show ?thesis by (auto intro!: keep)
  next
    case pick
    obtain s where s: "snd (pick_candidate cfg now cyc current h) = h\<lparr>prng_state := s\<rparr>"
      and u: "fst (pick_candidate cfg now cyc current h) \<noteq> channel_invalid \<longrightarrow>
        usable_next now current h (fst (pick_candidate cfg now cyc current h))" "channel_ok (fst (pick_candidate cfg now cyc current h))"
      using pick_ok [OF assms(1), of now cyc current h] by blast
    have e: "d = (if fst (pick_candidate cfg now cyc current h) = channel_invalid then None
          else Some (Hop_Normal, fst (pick_candidate cfg now cyc current h)))" "h' = h\<lparr>prng_state := s\<rparr>"
      using assms(4) hop_decide_pick [OF pick, of cfg cyc] s by (simp_all add: split_beta Let_def)
    have "h' = h\<lparr>prng_state := s, rdv_fallback_pending := False\<rparr>" using e(2) pick(1) by simp
    then have "\<exists>s b. h' = h\<lparr>prng_state := s, rdv_fallback_pending := b\<rparr> \<and> \<not> b" by blast
    moreover have "fst (pick_candidate cfg now cyc current h) < channel_count \<and> fst (pick_candidate cfg now cyc current h) \<noteq> current"
      if "fst (pick_candidate cfg now cyc current h) \<noteq> channel_invalid" using u that by (auto simp: channel_ok_def usable_next_def)
    ultimately show ?thesis using u(1) pick unfolding e(1) by simp blast
  qed
qed

lemma idle_hop_wf: "hop_wf default_kconfig idle_hop"
  using blank_quarantine_wf
  by (simp add: hop_wf_def idle_hop_def table_wf_def blank_offenders_def avoided_def blank_quarantine_def)

text \<open>
  After a hop, transmit failures cannot start another one: for any kind of hop made at
  \<open>t\<close>, a failure reported while fewer than the cooldown's milliseconds and fewer than the
  fallback's milliseconds have passed leaves the hop request as the hop left it. The hop itself
  quarantines the channel it left for the configured time, except the rendezvous channel and
  except on a fallback; it arms a revert only on a normal hop, and it clears the committed
  channel and starts the proposal burst in every case.
\<close>

lemma hop_committed_effect:
  assumes cfg: "kconfig_ok cfg" and t: "t \<noteq> 0" "t + c_hop_cooldown_ms cfg \<noteq> 0"
    and dt: "unat k < unat (c_hop_cooldown_ms cfg)"
      "c_rdv_fallback_ms cfg = 0 \<or> k < c_rdv_fallback_ms cfg"
    and h': "h' = hop_committed cfg t rdv current kind target h"
  shows "hop_wq (channel_hop_ep_on_tx_fail_isr cfg (t + k) h') W_hop = hop_wq h' W_hop
    \<and> (kind \<noteq> Hop_Rendezvous \<and> current \<noteq> rdv \<longrightarrow>
         (\<exists>q. quar h' = quarantine_add t q current (c_quarantine_ms cfg)) \<and> prev_known_channel h' = current)
    \<and> (kind = Hop_Rendezvous \<longrightarrow> expires_at (quar h') = (expires_at (quar h))[target := 0])
    \<and> prev_channel h' = (if kind = Hop_Normal then current else channel_invalid)
    \<and> committed_next h' = channel_invalid \<and> \<not> committed_synced h'
    \<and> (0 < c_burst_count cfg \<longrightarrow> burst_remaining h' = c_burst_count cfg
         \<and> hop_wq h' W_post_hop_burst = Some (c_post_quiet_ms cfg))
    \<and> hop_wq h' W_negotiate = Some (c_negotiate_retry_ms cfg)"
proof -
  have f: "hop_cooldown_until h' = t + c_hop_cooldown_ms cfg" "last_link_event_ms h' = t"
    using t(1) h' by (cases kind; simp add: hop_committed_def commit_hop_bookkeeping_def
        start_post_hop_burst_def unban_def hop_simps nz_stamp_def)+
  have e: "(t + c_hop_cooldown_ms cfg) - (t + k) = c_hop_cooldown_ms cfg - k" by simp
  have small: "unat (c_hop_cooldown_ms cfg) \<le> 10000" using cfg by (simp add: kconfig_ok_def)
  have "unat (c_hop_cooldown_ms cfg - k) = unat (c_hop_cooldown_ms cfg) - unat k"
    using dt(1) by (simp add: unat_sub word_le_nat_alt)
  then have "before_deadline (hop_cooldown_until h') (t + k)"
    unfolding f before_deadline_def e sint_pos_iff32 using dt(1) small by simp
  then have cool: "until_active (hop_cooldown_until h') (t + k)" using f t by (simp add: until_active_def)
  have "\<not> (0 < c_rdv_fallback_ms cfg \<and> c_rdv_fallback_ms cfg \<le> t + k - t)"
    using dt(2) by (auto simp: not_le word_gt_0)
  then have "hop_wq (channel_hop_ep_on_tx_fail_isr cfg (t + k) h') W_hop = hop_wq h' W_hop"
    using cool f by (auto simp: channel_hop_ep_on_tx_fail_isr_def tx_fail_hop_def hop_simps hop_cooldown_active_def)
  moreover have "expires_at (snd (persist_reclaim target (s, q))) = expires_at q" for s q
    by (simp add: persist_reclaim_def Let_def)
  ultimately show ?thesis
    using h' by (cases kind) (auto simp: hop_committed_def commit_hop_bookkeeping_def
        start_post_hop_burst_def unban_def hop_simps)
qed

section \<open>The rendezvous channel stays usable\<close>

lemma quarantine_is_iff:
  "quarantine_is t q ch \<longleftrightarrow> channel_count \<le> ch \<or> ch \<in> set (avoided q) \<or> timed_quarantine_is t q ch"
  by (simp add: quarantine_is_def contains_avoided)

lemma timed_cong: "expires_at q' = expires_at q \<Longrightarrow> timed_quarantine_is t q' ch = timed_quarantine_is t q ch"
  by (simp add: timed_quarantine_is_def)

lemma timed_unban:
  "timed_quarantine_is t (q\<lparr>expires_at := (expires_at q)[c := 0]\<rparr>) ch \<Longrightarrow> timed_quarantine_is t q ch"
  by (cases "c < length (expires_at q)")
    (auto simp: timed_quarantine_is_def Let_def nth_list_update not_less list_update_beyond split: if_splits)

lemma unban_rdv:
  assumes "hop_wf cfg h" "\<not> quarantine_is t (quar h) rdv"
  shows "\<not> quarantine_is t (quar (unban ch h)) rdv"
proof -
  let ?q = "(quar h)\<lparr>expires_at := (expires_at (quar h))[ch := 0]\<rparr>"
  let ?r = "snd (persist_reclaim ch (offs h, ?q))"
  have q: "quarantine_wf cfg ?q" "distinct (avoided ?q)" using assms(1) by (simp_all add: hop_wf_def quarantine_wf_def)
  have "quar (unban ch h) = ?r" by (simp add: unban_def hop_simps)
  moreover have "set (avoided ?r) \<subseteq> set (avoided (quar h))" "expires_at ?r = expires_at ?q"
    using reclaim_avoided [OF q, of ch "offs h"] by auto
  ultimately show ?thesis
    using assms(2) timed_unban [of t "quar h" ch rdv] timed_cong [of ?r ?q t rdv]
    by (auto simp: quarantine_is_iff)
qed

lemma commit_rdv:
  "\<not> quarantine_is t (quar h) rdv \<Longrightarrow> \<not> quarantine_is t (quar (commit_hop_bookkeeping cfg now rdv prev ms h)) rdv"
  by (auto simp: commit_hop_bookkeeping_def start_post_hop_burst_def hop_simps quarantine_is_iff
      timed_quarantine_add_other)

text \<open>The channels that the hit table holds evidence against.\<close>

definition recorded :: "hop \<Rightarrow> nat set" where
  "recorded h = hit_channel ` set (m_hits (offs h))"

lemma recorded_hit:
  assumes "rdv \<notin> hit_channel ` set hs"
  shows "rdv \<notin> hit_channel ` set (record_hit cfg rdv ch hs)"
proof -
  have upd: "rdv \<notin> hit_channel ` set (hs[i := x])" if "hit_channel x \<noteq> rdv" for i x
    using that assms set_update_subset_insert [of hs i x] by fastforce
  show ?thesis
  proof (cases "find_channel ch hs 0")
    case None
    then show ?thesis using assms upd by (auto simp: record_hit_def Let_def simp del: image_iff)
  next
    case (Some i)
    from find_channel_SomeD [OF this] have "hit_channel (hs ! i) = ch" by simp
    then show ?thesis using Some assms upd by (simp add: record_hit_def)
  qed
qed

lemma recorded_reclaim:
  assumes "table_wf cfg (m_hits s)"
  shows "hit_channel ` set (m_hits (fst (persist_reclaim ch (s, q)))) = hit_channel ` set (m_hits s) - {ch}"
proof (cases "find_channel ch (m_hits s) 0")
  case None
  then show ?thesis by (simp add: persist_reclaim_def Let_def) (simp add: find_channel_None)
next
  case (Some i)
  from find_channel_SomeD [OF this] have i: "i < length (m_hits s)" "hit_channel (m_hits s ! i) = ch" by simp_all
  have "map hit_channel (swap_remove i (m_hits s)) = swap_remove i (map hit_channel (m_hits s))"
    using i(1) by (intro swap_remove_map) auto
  moreover have "set (swap_remove i (map hit_channel (m_hits s))) = set (map hit_channel (m_hits s)) - {ch}"
    using swap_remove_set [of i "map hit_channel (m_hits s)"] assms i by (simp add: table_wf_def)
  ultimately have "hit_channel ` set (swap_remove i (m_hits s)) = hit_channel ` set (m_hits s) - {ch}" by (metis set_map)
  then show ?thesis using Some by (simp add: persist_reclaim_def Let_def)
qed

lemma recorded_decay: "hit_channel ` set (m_hits (fst (persist_decay_check cfg rdv now (s, q)))) \<subseteq> hit_channel ` set (m_hits s)"
  by (auto simp: persist_decay_check_def Let_def split_beta rebuild_simps decay_tick_def decay_apply_def)

lemmas recorded_simps = recorded_def hop_simps commit_hop_bookkeeping_def start_post_hop_burst_def

lemma recorded_kept:
  assumes "table_wf cfg (m_hits (offs h))" "rdv \<notin> recorded h"
  shows "rdv \<notin> recorded (hop_committed cfg now rdv current kind target h)"
    "rdv \<notin> recorded (coop_committed cfg now rdv current h)" "rdv \<notin> recorded (persist_work_fn cfg rdv h)"
    "rdv \<notin> recorded (enter_active_state cfg rdv now b h)"
proof -
  have u: "rdv \<notin> recorded (unban target h)" using assms by (simp add: recorded_simps unban_def recorded_reclaim)
  have c: "rdv \<notin> recorded (commit_hop_bookkeeping cfg now rdv prev ms g)" if "rdv \<notin> recorded g" for prev ms g
    using that by (simp add: recorded_simps)
  have p: "rdv \<notin> recorded (g\<lparr>prev_channel := x\<rparr>)" if "rdv \<notin> recorded g" for x g using that by (simp add: recorded_def)
  have r: "rdv \<notin> recorded (g\<lparr>offs := persist_record_hit cfg rdv current (offs g)\<rparr>)" if "rdv \<notin> recorded g" for g
    using recorded_hit [OF that [unfolded recorded_def]] by (simp add: recorded_def persist_record_hit_def)
  show "rdv \<notin> recorded (hop_committed cfg now rdv current kind target h)"
    using u assms(2) by (cases kind) (simp_all add: hop_committed_def Let_def r c p, simp add: recorded_simps)
  show "rdv \<notin> recorded (coop_committed cfg now rdv current h)" using assms(2) by (simp add: coop_committed_def recorded_simps)
  show "rdv \<notin> recorded (persist_work_fn cfg rdv h)"
    using assms(2) by (simp add: persist_work_fn_def recorded_simps distill_eq rebuild_simps)
  show "rdv \<notin> recorded (enter_active_state cfg rdv now b h)"
    using assms(2) recorded_decay [of cfg rdv now "offs h" "quar h"] by (auto simp: enter_active_state_def recorded_simps)
qed

lemma connected_avoids_rdv:
  assumes g: "hop_wf cfg g"
  shows "rdv \<notin> set (avoided (quar (channel_hop_ep_on_connected cfg rdv now g)))
    \<and> rdv \<notin> recorded (channel_hop_ep_on_connected cfg rdv now g)"
proof -
  let ?r = "persist_reclaim rdv (offs g, quar g)"
  have q: "quarantine_wf cfg (quar g)" "distinct (avoided (quar g))" "table_wf cfg (m_hits (offs g))"
    using g by (simp_all add: hop_wf_def)
  have "rdv \<notin> set (avoided (snd ?r))" "table_wf cfg (m_hits (fst ?r))" "rdv \<notin> hit_channel ` set (m_hits (fst ?r))"
    using reclaim_avoided [OF q(1,2)] reclaim_table [OF q(3)] recorded_reclaim [OF q(3)] by auto
  with decay_avoided [of cfg "fst ?r" rdv now "snd ?r"] recorded_decay [of cfg rdv now "fst ?r" "snd ?r"] show ?thesis
    by (auto simp: channel_hop_ep_on_connected_def enter_active_state_def hop_simps recorded_def)
qed

text \<open>
  C30. The rendezvous channel stays a refuge: connecting removes it from the avoided set and from the
  hit table, and no hop of any kind, cooperative or not, no distillation and no decay of the evidence
  quarantines it, at any time of checking, or records a hit against it.
\<close>

theorem rendezvous_never_quarantined:
  assumes w: "hop_wf cfg h" and u: "\<not> quarantine_is t (quar h) rdv"
  shows "\<not> quarantine_is t (quar (hop_committed cfg now rdv current kind target h)) rdv
    \<and> \<not> quarantine_is t (quar (coop_committed cfg now rdv current h)) rdv
    \<and> \<not> quarantine_is t (quar (persist_work_fn cfg rdv h)) rdv
    \<and> \<not> quarantine_is t (quar (enter_active_state cfg rdv now b h)) rdv
    \<and> (rdv \<notin> recorded h \<longrightarrow> rdv \<notin> recorded (hop_committed cfg now rdv current kind target h)
         \<and> rdv \<notin> recorded (coop_committed cfg now rdv current h)
         \<and> rdv \<notin> recorded (persist_work_fn cfg rdv h)
         \<and> rdv \<notin> recorded (enter_active_state cfg rdv now b h))
    \<and> (\<forall>g. hop_wf cfg g \<longrightarrow> rdv \<notin> set (avoided (quar (channel_hop_ep_on_connected cfg rdv now g)))
         \<and> rdv \<notin> recorded (channel_hop_ep_on_connected cfg rdv now g))"
proof -
  have "\<not> quarantine_is t (quar (hop_committed cfg now rdv current kind target h)) rdv"
    using u unban_rdv [OF w u, of target]
    by (cases kind) (auto simp: hop_committed_def Let_def hop_resched_def start_post_hop_burst_def
        intro!: commit_rdv)
  moreover have "\<not> quarantine_is t (quar (coop_committed cfg now rdv current h)) rdv"
    using u by (auto simp: coop_committed_def intro!: commit_rdv)
  moreover have tab: "table_wf cfg (m_hits (offs h))" using w by (simp add: hop_wf_def)
  moreover have r: "rdv < channel_count" "\<not> timed_quarantine_is t (quar h) rdv"
    using u by (auto simp: quarantine_is_iff)
  moreover have "\<not> quarantine_is t (quar (persist_work_fn cfg rdv h)) rdv"
    using r avoided_rebuild [OF tab, of rdv "quar h"]
      timed_cong [of "snd (persist_rebuild_avoided cfg rdv (offs h, quar h))" "quar h" t rdv]
    by (simp add: persist_work_fn_def hop_simps distill_eq quarantine_is_iff rebuild_simps(6))
  moreover have dec: "expires_at (snd (persist_decay_check cfg rdv now (s, q))) = expires_at q" for s q
    by (simp add: persist_decay_check_def Let_def split_beta rebuild_simps(6))
  moreover have "\<not> quarantine_is t (quar (enter_active_state cfg rdv now b h)) rdv"
    using u r decay_avoided [OF tab, of rdv now "quar h"] dec [of "offs h" "quar h"]
      timed_cong [of "snd (persist_decay_check cfg rdv now (offs h, quar h))" "quar h" t rdv]
    by (auto simp: enter_active_state_def hop_simps quarantine_is_iff)
  ultimately show ?thesis using recorded_kept [OF tab] connected_avoids_rdv by blast
qed

theorem rendezvous_never_quarantined_witness:
  "\<not> quarantine_is 9000 (quar (hop_committed default_kconfig 9000 2 2 Hop_Normal 17 idle_hop)) 2
    \<and> 2 \<notin> recorded (hop_committed default_kconfig 9000 2 2 Hop_Normal 17 idle_hop)"
proof -
  have "\<not> quarantine_is 9000 (quar idle_hop) 2"
    by (simp add: quarantine_is_def idle_hop_def blank_quarantine_def persistent_quarantine_contains_def
        timed_quarantine_is_def)
  moreover have "2 \<notin> recorded idle_hop" by (simp add: recorded_def idle_hop_def blank_offenders_def)
  ultimately show ?thesis using rendezvous_never_quarantined [OF idle_hop_wf] by blast
qed

end
