(* ===== verification/LinkQuality.thy ===== *)
theory LinkQuality
  imports ChannelHop Queues
begin

text \<open>
  The link-quality metric of \<open>src/src/esb/esb_transport.c\<close>: the sliding window of retry bits with
  its cached count, the average of transmit attempts, the retransmit count derived from it, the
  rings of per-send flags, and the jitter of the retransmit delay.
\<close>

section \<open>Rings of flags\<close>

type_synonym flag_ring = "(bool, 8) ring"

text \<open>
  The code reduces the 8-bit counters by \<open>& (SIZE - 1)\<close>; the sizes are powers of two, so this
  is the reduction modulo the size that the ring uses.
\<close>

lemma and_low_mask: "(w :: u8) AND (2 ^ k - 1) = take_bit k w"
  by (simp add: take_bit_eq_mask mask_eq_exp_minus_1)

lemma slot_mask:
  assumes "is_pow2 n"
  shows "unat ((w :: u8) AND of_nat (n - 1)) = unat w mod n"
proof -
  have "n = 2 ^ 1 \<or> n = 2 ^ 2 \<or> n = 2 ^ 3 \<or> n = 2 ^ 4 \<or> n = 2 ^ 5 \<or> n = 2 ^ 6"
    using assms by (auto simp: is_pow2_def)
  then obtain k where k: "n = 2 ^ k" by blast
  have "of_nat (n - 1) = (2 ^ k - 1 :: u8)" by (simp add: k of_nat_diff)
  then have "w AND of_nat (n - 1) = take_bit k w" by (simp only: and_low_mask)
  then have "unat (w AND of_nat (n - 1)) = take_bit k (unat w)" by (simp only: unsigned_take_bit_eq)
  then show ?thesis by (simp only: k take_bit_eq_mod)
qed

text \<open>\<open>consume_recent_noack\<close> and \<open>consume_recent_override\<close>: an empty ring answers false.\<close>

definition consume_flag :: "flag_ring \<Rightarrow> bool \<times> flag_ring" where
  "consume_flag r = (if \<not> ring_nonempty r then (False, r) else (ring_peek r, ring_drop r))"

section \<open>The sliding window\<close>

record link_quality =
  lq_window :: u32
  lq_count :: nat
  lq_ewma_x10 :: nat

definition lq_reset :: link_quality where
  "lq_reset = \<lparr>lq_window = 0, lq_count = 0, lq_ewma_x10 = 10\<rparr>"

text \<open>The count is a \<open>uint8_t\<close>.\<close>

definition link_quality_shift_window :: "kconfig \<Rightarrow> bool \<Rightarrow> link_quality \<Rightarrow> link_quality" where
  "link_quality_shift_window cfg retry_bit q =
     (let old_window = lq_window q;
          W = c_lq_window cfg;
          mask = (if W < 32 then push_bit W 1 - 1 else 0xFFFFFFFF) :: u32;
          dropped_bit = (if W < 32 then drop_bit (W - 1) old_window AND 1
                         else drop_bit 31 old_window AND 1) \<noteq> 0;
          new_window = (push_bit 1 old_window OR (if retry_bit then 1 else 0)) AND mask
      in q\<lparr>lq_window := new_window,
           lq_count := (if retry_bit \<and> \<not> dropped_bit then (lq_count q + 1) mod 256
                        else if \<not> retry_bit \<and> dropped_bit then (lq_count q + 255) mod 256
                        else lq_count q)\<rparr>)"

definition link_quality_record :: "kconfig \<Rightarrow> nat \<Rightarrow> bool \<Rightarrow> link_quality \<Rightarrow> link_quality" where
  "link_quality_record cfg tx_attempts retry_bit q =
     (let q1 = link_quality_shift_window cfg retry_bit q;
          a10 = (tx_attempts mod 256 * 10) mod 65536
      in q1\<lparr>lq_ewma_x10 := ((lq_ewma_x10 q1 * 7 + a10) div 8) mod 65536\<rparr>)"

text \<open>\<open>__builtin_popcount(m_link_quality_window & 0xFF)\<close>\<close>

definition lq_fast :: "link_quality \<Rightarrow> nat" where
  "lq_fast q = length (filter (bit (lq_window q AND 0xFF)) [0..<32])"

section \<open>Adaptive retransmit count and delay jitter\<close>

definition adaptive_retry_target :: "kconfig \<Rightarrow> link_quality \<Rightarrow> nat" where
  "adaptive_retry_target cfg q =
     (let ewma = lq_ewma_x10 q in
      if ewma \<le> c_adaptive_low cfg then c_adaptive_min cfg
      else if c_adaptive_high cfg \<le> ewma then c_adaptive_max cfg
      else
        let span = of_nat (c_adaptive_high cfg) - of_nat (c_adaptive_low cfg) :: u32;
            into = of_nat ewma - of_nat (c_adaptive_low cfg) :: u32;
            delta = (into * (of_nat (c_adaptive_max cfg) - of_nat (c_adaptive_min cfg))) div span
        in unat (of_nat (c_adaptive_min cfg) + delta) mod 256)"

text \<open>\<open>addr\<close> is the address of the generator's variable, mixed into the seed.\<close>

definition jitter_seed :: "u32 \<Rightarrow> u32 \<Rightarrow> u32 \<Rightarrow> u32" where
  "jitter_seed now addr rng =
     (if rng = 0 then (let seed = now XOR addr in if seed = 0 then 0xA3C59B1D else seed) else rng)"

definition jitter_step :: "u32 \<Rightarrow> u32" where
  "jitter_step r0 = (let r1 = r0 XOR push_bit 13 r0; r2 = r1 XOR drop_bit 17 r1 in r2 XOR push_bit 5 r2)"

definition jittered_retransmit_delay :: "kconfig \<Rightarrow> u32 \<Rightarrow> u32 \<Rightarrow> u32 \<Rightarrow> nat \<times> u32" where
  "jittered_retransmit_delay cfg now addr rng =
     (let r = jitter_step (jitter_seed now addr rng);
          base = int (c_retransmit_delay_us cfg);
          span = base div 8;
          off = i8 (int (unat (r AND 0xFF)));
          d = base + cdiv (span * off) 128;
          d1 = (if d < 250 then 250 else d);
          d2 = (if 65535 < d1 then 65535 else d1)
      in (nat d2, r))"

section \<open>The window is the history of retry bits\<close>

definition lq_history :: "kconfig \<Rightarrow> link_quality \<Rightarrow> bool list" where
  "lq_history cfg q = map (bit (lq_window q)) [0..<c_lq_window cfg]"

definition lq_wf :: "kconfig \<Rightarrow> link_quality \<Rightarrow> bool" where
  "lq_wf cfg q \<longleftrightarrow> (\<forall>n. bit (lq_window q) n \<longrightarrow> n < c_lq_window cfg)
     \<and> lq_count q = length (filter id (lq_history cfg q)) \<and> lq_ewma_x10 q \<le> 2550"

lemma lq_mask_bit:
  assumes "W \<le> 32" "n < 32"
  shows "bit (if W < 32 then push_bit W 1 - 1 else 0xFFFFFFFF :: u32) n \<longleftrightarrow> n < W"
proof (cases "W < 32")
  case True
  have "push_bit W 1 - 1 = (mask W :: u32)" by (simp add: mask_eq_exp_minus_1 push_bit_eq_mult)
  with True assms show ?thesis by (simp add: bit_simps)
next
  case False
  have "bit (mask 32 :: u32) n" using assms(2) by (simp only: bit_mask_iff) simp
  moreover have "mask 32 = (0xFFFFFFFF :: u32)" by (simp add: mask_eq_exp_minus_1)
  ultimately have "bit (0xFFFFFFFF :: u32) n" by (simp only:)
  with False assms show ?thesis by simp
qed

lemma bit_and_1: "(w AND 1 \<noteq> 0) = bit (w :: u32) 0"
  by (simp add: and_one_eq bit_0 odd_iff_mod_2_eq_one)

lemma bit_test: "(drop_bit k w AND 1 \<noteq> 0) = bit (w :: u32) k"
  by (simp only: bit_and_1 bit_drop_bit_eq) simp

lemma shift_window_bit:
  assumes "8 \<le> c_lq_window cfg" "c_lq_window cfg \<le> 32"
  shows "bit (lq_window (link_quality_shift_window cfg b q)) n \<longleftrightarrow>
    n < c_lq_window cfg \<and> (if n = 0 then b else bit (lq_window q) (n - 1))"
proof (cases "n < 32")
  case True
  let ?m = "if c_lq_window cfg < 32 then push_bit (c_lq_window cfg) 1 - 1 else 0xFFFFFFFF :: u32"
  have "lq_window (link_quality_shift_window cfg b q)
      = (push_bit 1 (lq_window q) OR (if b then 1 else 0)) AND ?m"
    unfolding link_quality_shift_window_def Let_def by simp
  then have "bit (lq_window (link_quality_shift_window cfg b q)) n
      \<longleftrightarrow> (bit (push_bit 1 (lq_window q)) n \<or> b \<and> n = 0) \<and> n < c_lq_window cfg"
    using lq_mask_bit [OF assms(2) True] by (simp only: bit_and_iff bit_or_iff) (auto simp: bit_1_iff)
  moreover have "bit (push_bit 1 (lq_window q)) n \<longleftrightarrow> 1 \<le> n \<and> bit (lq_window q) (n - 1)"
    using True by (simp only: bit_push_bit_iff) auto
  ultimately show ?thesis by auto
next
  case False
  then show ?thesis using assms(2) by (auto dest: bit_imp_le_length)
qed

lemma shift_history:
  assumes "8 \<le> c_lq_window cfg" "c_lq_window cfg \<le> 32"
  shows "lq_history cfg (link_quality_shift_window cfg b q) = b # butlast (lq_history cfg q)"
proof -
  obtain k where k: "c_lq_window cfg = Suc k" using assms(1) by (cases "c_lq_window cfg") auto
  have "bit (lq_window (link_quality_shift_window cfg b q)) n = (if n = 0 then b else bit (lq_window q) (n - 1))"
    if "n \<in> set [0..<Suc k]" for n
    using shift_window_bit [OF assms, of b q n] that by (auto simp: k)
  then have "lq_history cfg (link_quality_shift_window cfg b q)
      = map (\<lambda>n. if n = 0 then b else bit (lq_window q) (n - 1)) [0..<Suc k]"
    unfolding lq_history_def k by (rule map_cong [OF refl])
  also have "\<dots> = b # map (bit (lq_window q)) [0..<k]"
    by (simp only: map_upt_Suc) simp
  also have "map (bit (lq_window q)) [0..<k] = butlast (lq_history cfg q)"
    unfolding lq_history_def k by simp
  finally show ?thesis .
qed

lemma dropped_is_last:
  assumes "8 \<le> c_lq_window cfg" "c_lq_window cfg \<le> 32"
  shows "((if c_lq_window cfg < 32 then drop_bit (c_lq_window cfg - 1) (lq_window q) AND 1
          else drop_bit 31 (lq_window q) AND 1) \<noteq> 0) = last (lq_history cfg q)"
proof -
  obtain k where k: "c_lq_window cfg = Suc k" using assms(1) by (cases "c_lq_window cfg") auto
  have "c_lq_window cfg = 32" if "\<not> c_lq_window cfg < 32" using assms(2) that by simp
  then have "((if c_lq_window cfg < 32 then drop_bit (c_lq_window cfg - 1) (lq_window q) AND 1
          else drop_bit 31 (lq_window q) AND 1) \<noteq> 0)
      = (drop_bit (c_lq_window cfg - 1) (lq_window q) AND 1 \<noteq> 0)"
    by (cases "c_lq_window cfg < 32") simp_all
  also have "\<dots> = bit (lq_window q) k" unfolding bit_test k by simp
  also have "\<dots> = last (lq_history cfg q)" by (simp add: lq_history_def k last_map)
  finally show ?thesis .
qed

lemma shift_wf:
  assumes cfg: "kconfig_ok cfg" and w: "lq_wf cfg q"
  shows "lq_wf cfg (link_quality_shift_window cfg b q)"
proof -
  let ?h = "lq_history cfg q" and ?q' = "link_quality_shift_window cfg b q"
  have W: "8 \<le> c_lq_window cfg" "c_lq_window cfg \<le> 32" using kconfig_okD [OF cfg] by simp_all
  have len: "length ?h = c_lq_window cfg" by (simp add: lq_history_def)
  then have ne: "?h \<noteq> []" using W by auto
  have split: "length (filter id ?h) = length (filter id (butlast ?h)) + of_bool (last ?h)"
  proof -
    have "filter id ?h = filter id (butlast ?h) @ filter id [last ?h]"
      by (metis append_butlast_last_id [OF ne] filter_append)
    then show ?thesis by simp
  qed
  have le: "length (filter id (butlast ?h)) \<le> 31"
    using length_filter_le [of id "butlast ?h"] len W by simp
  have count: "lq_count q = length (filter id ?h)" using w by (simp add: lq_wf_def)
  have "lq_count ?q' = (if b \<and> \<not> last ?h then (lq_count q + 1) mod 256
      else if \<not> b \<and> last ?h then (lq_count q + 255) mod 256 else lq_count q)"
    unfolding link_quality_shift_window_def Let_def dropped_is_last [OF W] by simp
  also have "\<dots> = of_bool b + length (filter id (butlast ?h))"
    using split le count by auto
  also have "\<dots> = length (filter id (lq_history cfg ?q'))"
    by (simp add: shift_history [OF W])
  finally have "lq_count ?q' = length (filter id (lq_history cfg ?q'))" .
  moreover have "lq_ewma_x10 ?q' = lq_ewma_x10 q" by (simp add: link_quality_shift_window_def Let_def)
  ultimately show ?thesis using w shift_window_bit [OF W] by (simp add: lq_wf_def)
qed

section \<open>Properties\<close>

text \<open>
  C31. The window is exactly the history of the last transmissions: recording one puts its bit in
  front and drops the oldest, the cached count is the number of retried ones in the history (so
  neither the increment nor the decrement of the byte ever wraps), and the average of attempts
  stays between its old value and ten times the new attempts, rounding down.
\<close>

theorem link_quality_correct:
  fixes b :: bool
  assumes cfg: "kconfig_ok cfg" and w: "lq_wf cfg q" and a: "attempts \<le> 255"
  defines "q' \<equiv> link_quality_record cfg attempts b q"
  shows "lq_wf cfg q' \<and> lq_history cfg q' = b # butlast (lq_history cfg q)
    \<and> lq_count q' = length (filter id (lq_history cfg q'))
    \<and> min (lq_ewma_x10 q) (attempts * 10) \<le> lq_ewma_x10 q' + 1
    \<and> lq_ewma_x10 q' \<le> max (lq_ewma_x10 q) (attempts * 10)"
proof -
  let ?s = "link_quality_shift_window cfg b q"
  have W: "8 \<le> c_lq_window cfg" "c_lq_window cfg \<le> 32" using kconfig_okD [OF cfg] by simp_all
  have s: "lq_wf cfg ?s" by (rule shift_wf [OF cfg w])
  have e: "lq_ewma_x10 ?s = lq_ewma_x10 q" by (simp add: link_quality_shift_window_def Let_def)
  have q': "lq_window q' = lq_window ?s" "lq_count q' = lq_count ?s"
    "lq_ewma_x10 q' = ((lq_ewma_x10 q * 7 + attempts * 10) div 8) mod 65536"
    using a by (simp_all add: q'_def link_quality_record_def Let_def e)
  have "lq_ewma_x10 q \<le> 2550" using w by (simp add: lq_wf_def)
  then have b: "lq_ewma_x10 q' = (lq_ewma_x10 q * 7 + attempts * 10) div 8" "lq_ewma_x10 q' \<le> 2550"
    unfolding q'(3) using a by auto
  have h: "lq_history cfg q' = lq_history cfg ?s" by (simp add: lq_history_def q'(1))
  have "lq_wf cfg q'" using s b(2) by (simp add: lq_wf_def h q'(1,2))
  moreover have "min (lq_ewma_x10 q) (attempts * 10) \<le> lq_ewma_x10 q' + 1"
    "lq_ewma_x10 q' \<le> max (lq_ewma_x10 q) (attempts * 10)"
    unfolding b(1) by (auto simp: min_def max_def)
  ultimately show ?thesis by (simp add: h shift_history [OF W] lq_wf_def)
qed

lemma lq_reset_wf: "lq_wf cfg lq_reset"
  by (simp add: lq_wf_def lq_reset_def lq_history_def)

theorem link_quality_correct_witness:
  "lq_history default_kconfig (link_quality_record default_kconfig 3 True lq_reset)
     = True # replicate 23 False"
proof -
  have "lq_history default_kconfig (link_quality_record default_kconfig 3 True lq_reset)
      = True # butlast (lq_history default_kconfig lq_reset)"
    using link_quality_correct [OF kconfig_ok_default lq_reset_wf, of 3 True] by simp
  also have "lq_history default_kconfig lq_reset = replicate 24 False"
    by (simp add: lq_history_def lq_reset_def default_kconfig_def upt_rec_numeral numeral_eq_Suc)
  finally show ?thesis by (simp add: numeral_eq_Suc)
qed

lemma unat_add_small: "unat (D :: u32) = k \<Longrightarrow> k \<le> 255 \<Longrightarrow> m \<le> 255 \<Longrightarrow> unat (of_nat m + D) = m + k"
  by (simp add: unat_word_ariths unat_of_nat)

text \<open>Between the thresholds the target is the linear interpolation, free of wrap-around.\<close>

lemma retry_interpolates:
  assumes cfg: "kconfig_ok cfg" and mm: "c_adaptive_min cfg \<le> c_adaptive_max cfg"
    and lh: "c_adaptive_low cfg < c_adaptive_high cfg"
    and x: "c_adaptive_low cfg < lq_ewma_x10 x" "lq_ewma_x10 x < c_adaptive_high cfg"
  shows "adaptive_retry_target cfg x = c_adaptive_min cfg
      + (lq_ewma_x10 x - c_adaptive_low cfg) * (c_adaptive_max cfg - c_adaptive_min cfg)
          div (c_adaptive_high cfg - c_adaptive_low cfg)"
proof -
  let ?L = "c_adaptive_low cfg" and ?H = "c_adaptive_high cfg"
  let ?m = "c_adaptive_min cfg" and ?M = "c_adaptive_max cfg" and ?i = "lq_ewma_x10 x - c_adaptive_low cfg"
  have b: "?M \<le> 15" "?H \<le> 200" using cfg by (simp_all add: kconfig_ok_def)
  have i: "of_nat (lq_ewma_x10 x) - of_nat ?L = (of_nat ?i :: u32)"
    "of_nat ?H - of_nat ?L = (of_nat (?H - ?L) :: u32)" "of_nat ?M - of_nat ?m = (of_nat (?M - ?m) :: u32)"
    using x lh mm by (simp_all add: of_nat_diff)
  have "?i * (?M - ?m) \<le> 200 * 15" using x b by (intro mult_mono) auto
  then have lt: "?i * (?M - ?m) < 2 ^ 32" by simp
  have "unat (of_nat ?i * of_nat (?M - ?m) :: u32) = ?i * (?M - ?m)"
    using lt by (simp only: of_nat_mult [symmetric] unat_of_nat) simp
  moreover have "unat (of_nat (?H - ?L) :: u32) = ?H - ?L" using b by (simp add: unat_of_nat)
  ultimately have d: "unat ((of_nat ?i * of_nat (?M - ?m)) div of_nat (?H - ?L) :: u32)
      = ?i * (?M - ?m) div (?H - ?L)" (is "unat ?D = _") by (simp only: unat_div_distrib)
  have "?i * (?M - ?m) div (?H - ?L) \<le> (?H - ?L) * (?M - ?m) div (?H - ?L)"
    using x by (intro div_le_mono mult_le_mono1) simp
  also have "\<dots> = ?M - ?m" using lh by simp
  finally have d15: "?i * (?M - ?m) div (?H - ?L) \<le> 15" using b by simp
  then have "unat (of_nat ?m + ?D) = ?m + ?i * (?M - ?m) div (?H - ?L)"
    using b mm by (intro unat_add_small d) simp_all
  moreover have "?m + ?i * (?M - ?m) div (?H - ?L) < 256" using d15 b mm by simp
  moreover have "adaptive_retry_target cfg x = unat (of_nat ?m + ?D) mod 256"
    unfolding adaptive_retry_target_def Let_def using x by (simp only: i not_le [symmetric] if_False)
  ultimately show ?thesis by (simp only: mod_less)
qed

lemma retry_range:
  assumes cfg: "kconfig_ok cfg" and mm: "c_adaptive_min cfg \<le> c_adaptive_max cfg"
    and lh: "c_adaptive_low cfg < c_adaptive_high cfg"
  shows "c_adaptive_min cfg \<le> adaptive_retry_target cfg x \<and> adaptive_retry_target cfg x \<le> c_adaptive_max cfg"
proof (cases "c_adaptive_low cfg < lq_ewma_x10 x \<and> lq_ewma_x10 x < c_adaptive_high cfg")
  case True
  let ?L = "c_adaptive_low cfg" and ?H = "c_adaptive_high cfg"
  let ?m = "c_adaptive_min cfg" and ?M = "c_adaptive_max cfg"
  have "(lq_ewma_x10 x - ?L) * (?M - ?m) div (?H - ?L) \<le> (?H - ?L) * (?M - ?m) div (?H - ?L)"
    using True by (intro div_le_mono mult_le_mono1) auto
  also have "\<dots> = ?M - ?m" using lh by simp
  finally show ?thesis using True retry_interpolates [OF assms, of x] mm
    by (simp add: le_diff_conv2 add.commute)
qed (use mm lh in \<open>auto simp: adaptive_retry_target_def Let_def not_less\<close>)

lemma retry_byte: "kconfig_ok cfg \<Longrightarrow> adaptive_retry_target cfg x \<le> 255"
  using mod_less_divisor [of 256] kconfig_small [of cfg]
  by (auto simp: adaptive_retry_target_def Let_def less_Suc_eq_le [symmetric])

text \<open>
  The adaptive retransmit count interpolates: with the thresholds and bounds in order it lies
  between the configured minimum and maximum, and it grows with the average.
\<close>

lemma adaptive_retry_bounds:
  assumes cfg: "kconfig_ok cfg" and mm: "c_adaptive_min cfg \<le> c_adaptive_max cfg"
    and lh: "c_adaptive_low cfg < c_adaptive_high cfg" and le: "lq_ewma_x10 p \<le> lq_ewma_x10 q"
  shows "c_adaptive_min cfg \<le> adaptive_retry_target cfg p
    \<and> adaptive_retry_target cfg p \<le> adaptive_retry_target cfg q
    \<and> adaptive_retry_target cfg q \<le> c_adaptive_max cfg"
proof (cases "c_adaptive_low cfg < lq_ewma_x10 p \<and> lq_ewma_x10 q < c_adaptive_high cfg")
  case True
  let ?w = "c_adaptive_max cfg - c_adaptive_min cfg" and ?d = "c_adaptive_high cfg - c_adaptive_low cfg"
  have "(lq_ewma_x10 p - c_adaptive_low cfg) * ?w div ?d \<le> (lq_ewma_x10 q - c_adaptive_low cfg) * ?w div ?d"
    using le by (intro div_le_mono mult_le_mono1) auto
  then have "adaptive_retry_target cfg p \<le> adaptive_retry_target cfg q"
    using True le retry_interpolates [OF cfg mm lh, of p] retry_interpolates [OF cfg mm lh, of q] by simp
  with retry_range [OF cfg mm lh] show ?thesis by blast
next
  case False
  then have "adaptive_retry_target cfg p = c_adaptive_min cfg \<or> adaptive_retry_target cfg q = c_adaptive_max cfg"
    using lh by (auto simp: adaptive_retry_target_def)
  with retry_range [OF cfg mm lh] show ?thesis by metis
qed

lemma jitter_step_nonzero: "r \<noteq> 0 \<Longrightarrow> jitter_step r \<noteq> 0"
  using ChannelHop.xorshift_nonzero [of r] by (simp add: jitter_step_def xorshift_def)

text \<open>
  The jittered delay stays within an eighth of the base delay (and within 250..65535), and
  the generator it advances never becomes zero.
\<close>

lemma jitter_bounds:
  assumes "250 \<le> c_retransmit_delay_us cfg" and "c_retransmit_delay_us cfg \<le> 65535"
    and "jittered_retransmit_delay cfg now addr rng = (d, r)"
  shows "250 \<le> d \<and> d \<le> 65535 \<and> r \<noteq> 0
    \<and> c_retransmit_delay_us cfg - c_retransmit_delay_us cfg div 8 \<le> d
    \<and> d \<le> c_retransmit_delay_us cfg + c_retransmit_delay_us cfg div 8"
proof -
  let ?base = "int (c_retransmit_delay_us cfg)"
  let ?off = "i8 (int (unat (r AND 0xFF)))"
  let ?delta = "cdiv (?base div 8 * ?off) 128"
  have o: "- 128 \<le> ?off" "?off \<le> 127" using in_i8_i8 by (simp_all add: in_i8_def)
  have s: "0 \<le> ?base div 8" by simp
  have "- (?base div 8) * 128 \<le> ?base div 8 * ?off"
    using mult_left_mono [OF o(1) s] by simp
  moreover have "?base div 8 * ?off \<le> ?base div 8 * 128"
    using o(2) s by (intro mult_left_mono) simp_all
  ultimately have delta: "- (?base div 8) \<le> ?delta" "?delta \<le> ?base div 8"
    by (intro cdiv_ge cdiv_le; simp)+
  have r: "r = jitter_step (jitter_seed now addr rng)"
    and d: "d = nat (if 65535 < (if ?base + ?delta < 250 then 250 else ?base + ?delta) then 65535
               else (if ?base + ?delta < 250 then 250 else ?base + ?delta))"
    using assms(3) by (auto simp: jittered_retransmit_delay_def Let_def)
  have "jitter_seed now addr rng \<noteq> 0" by (simp add: jitter_seed_def Let_def)
  then have "r \<noteq> 0" unfolding r by (rule jitter_step_nonzero)
  moreover have b: "int (c_retransmit_delay_us cfg div 8) = ?base div 8" by (simp add: zdiv_int)
  ultimately show ?thesis using assms(1,2) delta unfolding d by (auto simp: nat_le_iff le_nat_iff)
qed

end
