(* ===== verification/Motion.thy ===== *)
theory Motion
  imports Config Queues
begin

text \<open>
  Pointer motion in \<open>src/src/esb/esb_transport.c\<close>: the body of a mouse report as it lies in the
  frame, the refund pool that collects the motion of reports that failed, the ring with one
  record per send, the count of pointer reports in flight, and the harvest of HID kinds when the
  queue is dropped.
\<close>

section \<open>Mouse reports\<close>

text \<open>The four deltas that the body, the ring records and the refund pool all carry.\<close>

record motion =
  dx :: int
  dy :: int
  scroll_x :: int
  scroll_y :: int

definition zero_motion :: motion where
  "zero_motion = \<lparr>dx = 0, dy = 0, scroll_x = 0, scroll_y = 0\<rparr>"

text \<open>\<open>(dx | dy | scroll_x | scroll_y) != 0\<close>\<close>

definition has_motion :: "motion \<Rightarrow> bool" where
  "has_motion m \<longleftrightarrow> (dx m OR dy m OR scroll_x m OR scroll_y m) \<noteq> 0"

definition motion_map2 :: "(int \<Rightarrow> int \<Rightarrow> int) \<Rightarrow> motion \<Rightarrow> motion \<Rightarrow> motion" where
  "motion_map2 f a b = \<lparr>dx = f (dx a) (dx b), dy = f (dy a) (dy b),
     scroll_x = f (scroll_x a) (scroll_x b), scroll_y = f (scroll_y a) (scroll_y b)\<rparr>"

record mouse_body =
  mb_buttons :: u8
  mb_motion :: motion

definition rd_i16 :: "bytes \<Rightarrow> nat \<Rightarrow> int" where
  "rd_i16 b i = sint (ucast (b ! i) OR push_bit 8 (ucast (b ! (i + 1))) :: u16)"

definition le16 :: "int \<Rightarrow> bytes" where
  "le16 x = [ucast (word_of_int x :: u16), ucast (drop_bit 8 (word_of_int x :: u16))]"

definition is_mouse_report :: "bytes \<Rightarrow> bool" where
  "is_mouse_report data \<longleftrightarrow> 11 \<le> length data \<and> data ! 0 = 0x06 \<and> data ! 1 = 0x02"

text \<open>\<open>struct esb_mouse_body\<close> at offset 2: buttons, x, y, vertical and horizontal scroll.\<close>

definition mouse_body_of :: "bytes \<Rightarrow> mouse_body" where
  "mouse_body_of data = \<lparr>mb_buttons = data ! 2,
     mb_motion = \<lparr>dx = rd_i16 data 3, dy = rd_i16 data 5, scroll_x = rd_i16 data 9,
                  scroll_y = rd_i16 data 7\<rparr>\<rparr>"

definition put_motion :: "motion \<Rightarrow> bytes \<Rightarrow> bytes" where
  "put_motion m data = take 3 data @ le16 (dx m) @ le16 (dy m) @ le16 (scroll_y m)
     @ le16 (scroll_x m) @ drop 11 data"

definition sat16 :: "int \<Rightarrow> int" where
  "sat16 v = (if 32767 < v then 32767 else if v < - 32768 then - 32768 else v)"

section \<open>The refund pool\<close>

record motion_refund =
  rf_motion :: motion
  rf_stamp :: u32

definition no_refund :: motion_refund where
  "no_refund = \<lparr>rf_motion = zero_motion, rf_stamp = 0\<rparr>"

text \<open>Sums are \<open>int32_t\<close>.\<close>

definition motion_refund_apply ::
  "kconfig \<Rightarrow> u32 \<Rightarrow> mouse_body \<times> motion_refund \<Rightarrow> mouse_body \<times> motion_refund" where
  "motion_refund_apply cfg now = (\<lambda>(body, rf).
     if rf_stamp rf \<noteq> 0 \<and> c_refund_stale_ms cfg \<le> now - rf_stamp rf then (body, no_refund)
     else if \<not> has_motion (rf_motion rf) then (body, rf)
     else
       let total = motion_map2 (\<lambda>a b. i32 (a + b)) (mb_motion body) (rf_motion rf);
           out = motion_map2 (\<lambda>t _. sat16 t) total total;
           rest = motion_map2 (\<lambda>t o'. i32 (t - o')) total out
       in (body\<lparr>mb_motion := out\<rparr>,
           \<lparr>rf_motion = rest, rf_stamp = (if has_motion rest then rf_stamp rf else 0)\<rparr>))"

section \<open>The ring of sends\<close>

text \<open>\<open>enum esb_transport_hid_kind\<close>\<close>

datatype hid_kind = KIND_NONE | KIND_KB | KIND_CONS | KIND_MOUSE

fun kind_no :: "hid_kind \<Rightarrow> nat" where
  "kind_no KIND_NONE = 0"
| "kind_no KIND_KB = 1"
| "kind_no KIND_CONS = 2"
| "kind_no KIND_MOUSE = 3"

definition kind_bit :: "hid_kind \<Rightarrow> u8" where
  "kind_bit k = push_bit (kind_no k) 1"

record motion_rec =
  mr_motion :: motion
  mr_overrode :: bool
  mr_kind :: hid_kind

record motion_state =
  mring :: "(motion_rec, 32) ring"
  refund :: motion_refund
  inflight :: nat

definition motion_ring_push :: "mouse_body option \<Rightarrow> bool \<Rightarrow> hid_kind \<Rightarrow> motion_state \<Rightarrow> motion_state" where
  "motion_ring_push body overrode kind s =
     (let m = (case body of Some b \<Rightarrow> mb_motion b | None \<Rightarrow> zero_motion)
      in s\<lparr>mring := ring_put \<lparr>mr_motion = m, mr_overrode = overrode, mr_kind = kind\<rparr> (mring s),
           inflight := (if body \<noteq> None \<and> has_motion m \<and> inflight s < 255 then inflight s + 1
                        else inflight s)\<rparr>)"

text \<open>
  \<open>motion_ring_consume\<close>; the result is the kind to request a resync for (\<open>KIND_NONE\<close> for none) and
  whether the retransmit count has to be restored.
\<close>

definition motion_ring_consume :: "u32 \<Rightarrow> bool \<Rightarrow> motion_state \<Rightarrow> (hid_kind \<times> bool) \<times> motion_state" where
  "motion_ring_consume now failed s =
     (if \<not> ring_nonempty (mring s) then ((KIND_NONE, False), s)
      else
        let rec = ring_peek (mring s);
            moved = has_motion (mr_motion rec);
            s1 = s\<lparr>mring := ring_drop (mring s),
                   inflight := (if moved \<and> 0 < inflight s then inflight s - 1 else inflight s)\<rparr>;
            s2 = (if failed \<and> moved
                  then s1\<lparr>refund := \<lparr>rf_motion = motion_map2 (\<lambda>a b. i32 (a + b)) (rf_motion (refund s)) (mr_motion rec),
                                    rf_stamp = (if rf_stamp (refund s) = 0 then nz_stamp now
                                                else rf_stamp (refund s))\<rparr>\<rparr>
                  else s1)
        in ((if failed then mr_kind rec else KIND_NONE, mr_overrode rec), s2))"

text \<open>The HID kinds of the outstanding slots, at most as many as the ring holds.\<close>

definition harvest_kinds :: "(motion_rec, 32) ring \<Rightarrow> u8" where
  "harvest_kinds r =
     (let size = length (rslots r); n = min (unat (rhead r - rtail r)) size
      in fold (\<lambda>i kinds. let k = mr_kind (rslots r ! (unat (rhead r - of_nat n + of_nat i) mod size))
                         in if k \<noteq> KIND_NONE then kinds OR kind_bit k else kinds) [0..<n] 0)"

definition motion_drop_all :: "motion_state \<Rightarrow> motion_state" where
  "motion_drop_all s = s\<lparr>mring := ring_snap (mring s), inflight := 0\<rparr>"


section \<open>The ring between counter wraps\<close>

text \<open>
  The default size 48 does not divide the counter's modulus, so the ring's contents are only
  meaningful while the live window does not straddle the wrap of the counters (2 to the 32 sends).
\<close>

definition ring_fit :: "('a, 'w::len) ring \<Rightarrow> bool" where
  "ring_fit r \<longleftrightarrow> 0 < length (rslots r) \<and> ring_gap r \<le> length (rslots r)
     \<and> unat (rhead r) = unat (rtail r) + ring_gap r"

lemma ring_fit_list:
  assumes "ring_fit (r :: ('a, 'w::len) ring)"
  shows "ring_list r = map (\<lambda>i. rslots r ! ((unat (rtail r) + i) mod length (rslots r))) [0..<ring_gap r]"
proof -
  have "unat (rtail r + of_nat i) = unat (rtail r) + i" if "i < ring_gap r" for i
  proof -
    have "unat (rtail r) + i < 2 ^ LENGTH('w)"
      using assms that unsigned_less [of "rhead r", where 'a = nat] by (simp add: ring_fit_def)
    then show ?thesis by (simp add: unat_word_ariths unat_of_nat mod_simps)
  qed
  then show ?thesis by (simp add: ring_list_def)
qed

lemma ring_fit_put:
  fixes r :: "('a, 'w::len) ring"
  assumes f: "ring_fit r" and g: "ring_gap r < length (rslots r)" and h: "unat (rhead r) + 1 < 2 ^ LENGTH('w)"
  shows "ring_fit (ring_put x r) \<and> ring_list (ring_put x r) = ring_list r @ [x]"
proof -
  let ?n = "length (rslots r)"
  have hd: "unat (rhead r) = unat (rtail r) + ring_gap r" using f by (simp add: ring_fit_def)
  have gap: "ring_gap (ring_put x r) = ring_gap r + 1" using h hd by (intro ring_gap_put) simp
  have hd1: "unat (rhead r + 1) = unat (rhead r) + 1" using h by (simp add: unat_word_ariths)
  have f': "ring_fit (ring_put x r)"
    using f g hd1 gap by (simp add: ring_fit_def) (simp add: ring_put_def)
  have ne: "(unat (rtail r) + i) mod ?n \<noteq> unat (rhead r) mod ?n" if "i < ring_gap r" for i
  proof
    assume "(unat (rtail r) + i) mod ?n = unat (rhead r) mod ?n"
    then have "?n dvd unat (rhead r) - (unat (rtail r) + i)"
      using that hd by (metis mod_eq_dvd_iff_nat add_le_cancel_left less_imp_le)
    then have "?n dvd ring_gap r - i" by (simp add: hd)
    with that g show False by (auto dest: dvd_imp_le)
  qed
  have "ring_list (ring_put x r)
      = map (\<lambda>i. (rslots r)[unat (rhead r) mod ?n := x] ! ((unat (rtail r) + i) mod ?n)) [0..<ring_gap r + 1]"
    unfolding ring_fit_list [OF f'] gap by (simp add: ring_put_def)
  also have "\<dots> = ring_list r @ [x]"
    using ne f by (simp add: ring_fit_list [OF f] nth_list_update_neq [OF not_sym] ring_fit_def flip: hd cong: map_cong)
  finally show ?thesis using f' by simp
qed

lemma ring_fit_drop:
  assumes "ring_fit r" "ring_nonempty r"
  shows "ring_fit (ring_drop r) \<and> ring_list (ring_drop r) = tl (ring_list r)"
proof -
  obtain g where g: "ring_gap r = Suc g" using assms(2) by (cases "ring_gap r") (auto simp: ring_nonempty_iff)
  have "unat (rtail r) + 1 < 2 ^ LENGTH('b)" if "g \<noteq> 0"
    using assms(1) that unsigned_less [of "rhead r", where 'a = nat] by (simp add: ring_fit_def g)
  moreover have "unat (rtail r) + 1 < 2 ^ LENGTH('b)" if "g = 0"
    using assms(1) that unsigned_less [of "rhead r", where 'a = nat] by (simp add: ring_fit_def g)
  ultimately have "unat (rtail r + 1) = unat (rtail r) + 1"
    by (cases "g = 0") (simp_all add: unat_word_ariths)
  then have "ring_fit (ring_drop r)"
    using assms g ring_gap_drop [OF assms(2)] by (simp add: ring_fit_def) (simp add: ring_drop_def)
  with ring_list_Cons [OF assms(2)] show ?thesis by simp
qed

lemma ring_fit_snap: "ring_fit r \<Longrightarrow> ring_fit (ring_snap r)"
  by (simp add: ring_fit_def) (simp add: ring_snap_def)

section \<open>Bytes of the body\<close>

lemma has_motion_iff: "has_motion m \<longleftrightarrow> m \<noteq> zero_motion"
  by (cases m) (auto simp: has_motion_def zero_motion_def or_eq_0_iff)

lemma length_le16 [simp]: "length (le16 x) = 2"
  by (simp add: le16_def)

lemma le16_word: "ucast (ucast (w :: u16) :: u8) OR push_bit 8 (ucast (ucast (drop_bit 8 w) :: u8)) = w"
proof (rule bit_word_eqI)
  fix n assume "n < LENGTH(16)"
  then have "n < 8 \<or> 8 \<le> n \<and> n < 16" by auto
  then show "bit (ucast (ucast w :: u8) OR push_bit 8 (ucast (ucast (drop_bit 8 w) :: u8)) :: u16) n = bit w n"
    by (auto simp: bit_simps)
qed

lemma rd_le16:
  assumes "in_i16 x" "i = length pre"
  shows "rd_i16 (pre @ le16 x @ post) i = x"
proof -
  have "rd_i16 (pre @ le16 x @ post) i = sint (word_of_int x :: u16)"
    using assms(2) by (simp add: rd_i16_def le16_def nth_append le16_word)
  also have "\<dots> = x" using assms(1) by (simp add: in_i16_def sint_sbintrunc' signed_take_bit_int_eq_self)
  finally show ?thesis .
qed

lemma in_i16_rd [simp]: "in_i16 (rd_i16 b i)"
  using sint_ge [of "ucast (b ! i) OR push_bit 8 (ucast (b ! (i + 1))) :: u16"]
    sint_lt [of "ucast (b ! i) OR push_bit 8 (ucast (b ! (i + 1))) :: u16"]
  by (simp add: rd_i16_def in_i16_def)

definition motion_ok :: "motion \<Rightarrow> bool" where
  "motion_ok m \<longleftrightarrow> in_i16 (dx m) \<and> in_i16 (dy m) \<and> in_i16 (scroll_x m) \<and> in_i16 (scroll_y m)"


definition refund_wf :: "motion_refund \<Rightarrow> bool" where
  "refund_wf rf \<longleftrightarrow> (rf_stamp rf = 0 \<longrightarrow> rf_motion rf = zero_motion)"

definition moving :: "motion_rec list \<Rightarrow> nat" where
  "moving rs = length (filter (has_motion \<circ> mr_motion) rs)"

definition motion_wf :: "kconfig \<Rightarrow> motion_state \<Rightarrow> bool" where
  "motion_wf cfg s \<longleftrightarrow> length (rslots (mring s)) = c_motion_ring cfg \<and> ring_fit (mring s)
     \<and> inflight s = moving (ring_list (mring s)) \<and> refund_wf (refund s)"

lemma moving_le: "moving rs \<le> length rs"
  by (simp add: moving_def)

lemma sat16_range [simp]: "in_i16 (sat16 v)"
  by (simp add: sat16_def in_i16_def)

lemma zero_motion_simps [simp]: "dx zero_motion = 0" "dy zero_motion = 0"
  "scroll_x zero_motion = 0" "scroll_y zero_motion = 0"
  by (simp_all add: zero_motion_def)

lemma sat_sum:
  "in_i16 a \<Longrightarrow> \<bar>b\<bar> \<le> 2 ^ 30 \<Longrightarrow> i32 (a + b) = a + b \<and> i32 (a + b - sat16 (a + b)) = a + b - sat16 (a + b)"
  by (intro conjI i32_id; auto simp: in_i32_def in_i16_def sat16_def)

section \<open>Properties\<close>

lemma put_motion_law:
  assumes "is_mouse_report data" and "motion_ok m"
  shows "mouse_body_of (put_motion m data) = (mouse_body_of data)\<lparr>mb_motion := m\<rparr>
    \<and> take 3 (put_motion m data) = take 3 data \<and> drop 11 (put_motion m data) = drop 11 data
    \<and> length (put_motion m data) = length data"
proof -
  have l: "11 \<le> length data" using assms(1) by (simp add: is_mouse_report_def)
  have m: "in_i16 (dx m)" "in_i16 (dy m)" "in_i16 (scroll_x m)" "in_i16 (scroll_y m)"
    using assms(2) by (simp_all add: motion_ok_def)
  have "rd_i16 (put_motion m data) 3 = dx m"
    unfolding put_motion_def using l by (intro rd_le16 [OF m(1)]) simp
  moreover have "rd_i16 (put_motion m data) 5 = dy m"
    using rd_le16 [OF m(2), of 5 "take 3 data @ le16 (dx m)"] l by (simp add: put_motion_def)
  moreover have "rd_i16 (put_motion m data) 7 = scroll_y m"
    using rd_le16 [OF m(4), of 7 "take 3 data @ le16 (dx m) @ le16 (dy m)"] l by (simp add: put_motion_def)
  moreover have "rd_i16 (put_motion m data) 9 = scroll_x m"
    using rd_le16 [OF m(3), of 9 "take 3 data @ le16 (dx m) @ le16 (dy m) @ le16 (scroll_y m)"] l
    by (simp add: put_motion_def)
  moreover have "put_motion m data ! 2 = data ! 2" using l by (simp add: put_motion_def nth_append)
  ultimately show ?thesis using l by (simp add: mouse_body_of_def) (simp add: put_motion_def)
qed

text \<open>
  Patching the deltas into a mouse frame and reading the body back gives the deltas and leaves
  the type, the report id, the buttons and everything behind the body alone.
\<close>

lemma mouse_body_roundtrip:
  assumes "is_mouse_report data" and "motion_ok m"
  shows "mouse_body_of (put_motion m data) = (mouse_body_of data)\<lparr>mb_motion := m\<rparr>
    \<and> take 3 (put_motion m data) = take 3 data \<and> drop 11 (put_motion m data) = drop 11 data
    \<and> length (put_motion m data) = length data"
  by (rule put_motion_law [OF assms])

definition mouse_frame :: bytes where
  "mouse_frame = [0x06, 0x02, 0x01, 0xFF, 0x7F, 0x03, 0x00, 0x00, 0x00, 0xFE, 0xFF]"

text \<open>
  C32. No motion is lost or invented when the refund pool is applied to a report: per axis, what
  the report carries plus what stays in the pool is what both held before; the report's value is
  a 16-bit value and only keeps motion back when it is saturated in that direction; the buttons
  are untouched; a pool without a stamp stays empty. A stale pool is discarded.
\<close>

theorem motion_refund_conserves:
  assumes w: "refund_wf rf" and b: "motion_ok (mb_motion body)"
    and bnd: "\<forall>f \<in> {dx, dy, scroll_x, scroll_y}. \<bar>f (rf_motion rf)\<bar> \<le> 2 ^ 30"
    and ap: "motion_refund_apply cfg now (body, rf) = (body', rf')"
  shows "if rf_stamp rf \<noteq> 0 \<and> c_refund_stale_ms cfg \<le> now - rf_stamp rf
    then body' = body \<and> rf' = no_refund
    else mb_buttons body' = mb_buttons body \<and> motion_ok (mb_motion body') \<and> refund_wf rf'
      \<and> (\<forall>f \<in> {dx, dy, scroll_x, scroll_y}.
            f (mb_motion body') + f (rf_motion rf') = f (mb_motion body) + f (rf_motion rf)
          \<and> (0 < f (rf_motion rf') \<longrightarrow> f (mb_motion body') = 32767)
          \<and> (f (rf_motion rf') < 0 \<longrightarrow> f (mb_motion body') = - 32768))"
proof (cases "rf_stamp rf \<noteq> 0 \<and> c_refund_stale_ms cfg \<le> now - rf_stamp rf")
  case True
  with ap show ?thesis by (simp add: motion_refund_apply_def)
next
  case fresh: False
  show ?thesis
  proof (cases "has_motion (rf_motion rf)")
    case False
    with ap fresh have "body' = body" "rf' = rf" by (auto simp: motion_refund_apply_def)
    with False fresh w b show ?thesis by (auto simp: has_motion_iff)
  next
    case True
    have add: "i32 (f (mb_motion body) + f (rf_motion rf)) = f (mb_motion body) + f (rf_motion rf)"
      and rest: "i32 (f (mb_motion body) + f (rf_motion rf) - sat16 (f (mb_motion body) + f (rf_motion rf)))
          = f (mb_motion body) + f (rf_motion rf) - sat16 (f (mb_motion body) + f (rf_motion rf))"
      if "f \<in> {dx, dy, scroll_x, scroll_y}" for f
      using bnd b that sat_sum [of "f (mb_motion body)" "f (rf_motion rf)"] by (auto simp: motion_ok_def)
    from ap fresh True have "body' = body\<lparr>mb_motion := motion_map2 (\<lambda>a b. sat16 (a + b)) (mb_motion body) (rf_motion rf)\<rparr>"
      "rf_motion rf' = motion_map2 (\<lambda>a b. a + b - sat16 (a + b)) (mb_motion body) (rf_motion rf)"
      "rf_stamp rf' = (if has_motion (rf_motion rf') then rf_stamp rf else 0)"
      by (auto simp: motion_refund_apply_def motion_map2_def Let_def add rest)
    moreover have "refund_wf rf'"
      using calculation(3) True fresh w by (auto simp: refund_wf_def has_motion_iff)
    moreover have "a + b - sat16 (a + b) > 0 \<Longrightarrow> sat16 (a + b) = 32767"
      "a + b - sat16 (a + b) < 0 \<Longrightarrow> sat16 (a + b) = - 32768" for a b
      by (auto simp: sat16_def split: if_splits)
    ultimately show ?thesis unfolding if_not_P [OF fresh] by (simp add: motion_ok_def motion_map2_def)
  qed
qed

definition five_back :: motion_refund where
  "five_back = \<lparr>rf_motion = zero_motion\<lparr>dx := 5\<rparr>, rf_stamp = 990\<rparr>"

lemma mouse_frame_motion:
  "mb_motion (mouse_body_of mouse_frame) = \<lparr>dx = 32767, dy = 3, scroll_x = - 2, scroll_y = 0\<rparr>"
  by (simp add: mouse_body_of_def mouse_frame_def rd_i16_def)

theorem motion_refund_conserves_witness:
  "let (body', rf') = motion_refund_apply default_kconfig 1000 (mouse_body_of mouse_frame, five_back)
   in dx (mb_motion body') + dx (rf_motion rf') = 32772"
proof -
  have "motion_ok (mb_motion (mouse_body_of mouse_frame))" "refund_wf five_back"
    by (simp_all add: mouse_frame_motion motion_ok_def in_i16_def refund_wf_def five_back_def zero_motion_def)
  moreover have "dx (mb_motion (mouse_body_of mouse_frame)) = 32767" by (simp add: mouse_frame_motion)
  ultimately show ?thesis
    using motion_refund_conserves [of five_back "mouse_body_of mouse_frame" default_kconfig 1000,
        OF _ _ _ surjective_pairing]
    by (simp add: split_beta five_back_def)
qed

lemma motion_push_law:
  fixes body :: "mouse_body option" and ov :: bool and k :: hid_kind
  assumes w: "motion_wf cfg s" and room: "ring_gap (mring s) < c_motion_ring cfg"
    and small: "c_motion_ring cfg \<le> 255" and h: "unat (rhead (mring s)) + 1 < 2 ^ 32"
  defines "rec \<equiv> \<lparr>mr_motion = (case body of Some b \<Rightarrow> mb_motion b | None \<Rightarrow> zero_motion),
                   mr_overrode = ov, mr_kind = k\<rparr>"
  shows "motion_wf cfg (motion_ring_push body ov k s)
    \<and> ring_list (mring (motion_ring_push body ov k s)) = ring_list (mring s) @ [rec]
    \<and> refund (motion_ring_push body ov k s) = refund s"
proof -
  let ?r = "ring_put rec (mring s)"
  have r: "ring_fit ?r" "ring_list ?r = ring_list (mring s) @ [rec]"
    using ring_fit_put [of "mring s" rec] w room h by (simp_all add: motion_wf_def)
  have "inflight s < 255"
    using w room small moving_le [of "ring_list (mring s)"] by (simp add: motion_wf_def)
  moreover have "\<not> has_motion (mr_motion rec)" if "body = None"
    using that by (simp add: rec_def has_motion_iff)
  ultimately show ?thesis
    using w r by (auto simp: motion_ring_push_def motion_wf_def moving_def rec_def Let_def)
qed

lemma consume_law:
  assumes w: "motion_wf cfg s" and ne: "ring_list (mring s) = rec # rs"
    and bnd: "\<forall>f \<in> {dx, dy, scroll_x, scroll_y}. \<bar>f (rf_motion (refund s))\<bar> \<le> 2 ^ 30 \<and> \<bar>f (mr_motion rec)\<bar> \<le> 2 ^ 15"
    and c: "motion_ring_consume now failed s = ((kind, restore), s')"
  shows "ring_list (mring s') = rs \<and> inflight s' = moving rs \<and> restore = mr_overrode rec
    \<and> kind = (if failed then mr_kind rec else KIND_NONE)
    \<and> (\<forall>f \<in> {dx, dy, scroll_x, scroll_y}. f (rf_motion (refund s')) =
          (if failed then f (rf_motion (refund s)) + f (mr_motion rec) else f (rf_motion (refund s))))
    \<and> motion_wf cfg s'"
proof -
  have nonempty: "ring_nonempty (mring s)" using ne by (metis list.distinct(1) ring_list_nil_iff)
  have peek: "ring_peek (mring s) = rec" and drop: "ring_list (ring_drop (mring s)) = rs"
    using ring_list_Cons [OF nonempty] ne by simp_all
  have fit: "ring_fit (ring_drop (mring s))" using ring_fit_drop [OF _ nonempty] w by (simp add: motion_wf_def)
  have infl: "inflight s = of_bool (has_motion (mr_motion rec)) + moving rs"
    using w by (simp add: motion_wf_def ne moving_def)
  have add: "i32 (f (rf_motion (refund s)) + f (mr_motion rec)) = f (rf_motion (refund s)) + f (mr_motion rec)"
    if "f \<in> {dx, dy, scroll_x, scroll_y}" for f
  proof -
    have "\<bar>f (rf_motion (refund s))\<bar> \<le> 2 ^ 30" "\<bar>f (mr_motion rec)\<bar> \<le> 2 ^ 15" using bnd that by blast+
    then show ?thesis by (intro i32_id) (simp add: in_i32_def abs_le_iff)
  qed
  let ?pool = "motion_map2 (\<lambda>a b. i32 (a + b)) (rf_motion (refund s)) (mr_motion rec)"
  have pool: "f ?pool = f (rf_motion (refund s)) + f (mr_motion rec)" if "f \<in> {dx, dy, scroll_x, scroll_y}" for f
    using that add [OF that] by (elim insertE emptyE; simp add: motion_map2_def)
  have eqs: "mring s' = ring_drop (mring s)" "inflight s' = moving rs" "restore = mr_overrode rec"
    "kind = (if failed then mr_kind rec else KIND_NONE)"
    and wf': "refund_wf (refund s')"
    and rf: "rf_motion (refund s') = (if failed \<and> has_motion (mr_motion rec) then ?pool else rf_motion (refund s))"
    using c infl w
    by (auto simp: motion_ring_consume_def nonempty peek Let_def refund_wf_def motion_wf_def split: if_splits)
  have none: "f (mr_motion rec) = 0" if "\<not> has_motion (mr_motion rec)" "f \<in> {dx, dy, scroll_x, scroll_y}" for f
    using that by (auto simp: has_motion_iff)
  have "f (rf_motion (refund s')) = (if failed then f (rf_motion (refund s)) + f (mr_motion rec)
      else f (rf_motion (refund s)))" if f: "f \<in> {dx, dy, scroll_x, scroll_y}" for f
    using pool [OF f] none [OF _ f] by (cases "failed \<and> has_motion (mr_motion rec)") (auto simp: rf)
  then show ?thesis
    using eqs drop fit w wf' unfolding motion_wf_def by (intro conjI ballI) simp_all
qed

text \<open>What sends and transmit events do to the ring, and to the records that are outstanding.\<close>

datatype motion_op = Pushed "mouse_body option" bool hid_kind | Consumed u32 bool

fun motion_op_fn :: "motion_op \<Rightarrow> motion_state \<Rightarrow> motion_state" where
  "motion_op_fn (Pushed body ov k) s = motion_ring_push body ov k s"
| "motion_op_fn (Consumed now failed) s = snd (motion_ring_consume now failed s)"

fun outstanding :: "motion_op \<Rightarrow> motion_rec list \<Rightarrow> motion_rec list" where
  "outstanding (Pushed body ov k) rs = rs @ [\<lparr>mr_motion = (case body of Some b \<Rightarrow> mb_motion b | None \<Rightarrow> zero_motion),
     mr_overrode = ov, mr_kind = k\<rparr>]"
| "outstanding (Consumed now failed) rs = tl rs"

text \<open>A ring of \<open>n\<close> slots is never overrun, and reports carry 16-bit motion.\<close>

fun op_fits :: "nat \<Rightarrow> motion_op \<Rightarrow> motion_rec list \<Rightarrow> bool" where
  "op_fits n (Pushed body ov k) rs \<longleftrightarrow> length rs < n \<and> (case body of Some b \<Rightarrow> motion_ok (mb_motion b) | None \<Rightarrow> True)"
| "op_fits n (Consumed now failed) rs \<longleftrightarrow> True"

fun ops_fit :: "nat \<Rightarrow> motion_op list \<Rightarrow> motion_rec list \<Rightarrow> bool" where
  "ops_fit n [] rs \<longleftrightarrow> True"
| "ops_fit n (x # xs) rs \<longleftrightarrow> op_fits n x rs \<and> ops_fit n xs (outstanding x rs)"

text \<open>The motion of the records that failed, along one axis.\<close>

fun op_lost :: "(motion \<Rightarrow> int) \<Rightarrow> motion_op \<Rightarrow> motion_rec list \<Rightarrow> int" where
  "op_lost f (Pushed body ov k) rs = 0"
| "op_lost f (Consumed now failed) rs = (if failed \<and> rs \<noteq> [] then f (mr_motion (hd rs)) else 0)"

fun ops_lost :: "(motion \<Rightarrow> int) \<Rightarrow> motion_op list \<Rightarrow> motion_rec list \<Rightarrow> int" where
  "ops_lost f [] rs = 0"
| "ops_lost f (x # xs) rs = op_lost f x rs + ops_lost f xs (outstanding x rs)"

abbreviation axes :: "(motion \<Rightarrow> int) set" where
  "axes \<equiv> {dx, dy, scroll_x, scroll_y}"

lemma motion_ok_axes: "motion_ok m \<longleftrightarrow> (\<forall>f \<in> axes. in_i16 (f m))"
  by (simp add: motion_ok_def)

lemma motion_op_law:
  assumes w: "motion_wf cfg s" "c_motion_ring cfg \<le> 255" and fit: "op_fits (c_motion_ring cfg) x (ring_list (mring s))"
    and ok: "\<forall>r \<in> set (ring_list (mring s)). motion_ok (mr_motion r)"
    and pool: "\<forall>f \<in> axes. \<bar>f (rf_motion (refund s))\<bar> \<le> 2 ^ 30" and h: "unat (rhead (mring s)) + 1 < 2 ^ 32"
  defines "s' \<equiv> motion_op_fn x s"
  shows "motion_wf cfg s' \<and> ring_list (mring s') = outstanding x (ring_list (mring s))
    \<and> (\<forall>r \<in> set (outstanding x (ring_list (mring s))). motion_ok (mr_motion r))
    \<and> unat (rhead (mring s')) \<le> unat (rhead (mring s)) + 1
    \<and> (\<forall>f \<in> axes. f (rf_motion (refund s')) = f (rf_motion (refund s)) + op_lost f x (ring_list (mring s)))"
proof (cases x)
  case (Pushed body ov k)
  have g: "ring_gap (mring s) < c_motion_ring cfg" using fit by (simp add: Pushed ring_list_def)
  have "unat (rhead (mring s')) = unat (rhead (mring s)) + 1"
    using h by (simp add: s'_def Pushed motion_ring_push_def ring_put_def Let_def unat_word_ariths)
  then show ?thesis
    using motion_push_law [OF w(1) g w(2) h, of body ov k] ok fit
    by (auto simp: s'_def Pushed motion_ok_def zero_motion_def in_i16_def split: option.splits)
next
  case (Consumed now failed)
  obtain kind restore u where c: "motion_ring_consume now failed s = ((kind, restore), u)" by (metis surjective_pairing)
  have head: "rhead (mring u) = rhead (mring s)"
    using c by (auto simp: motion_ring_consume_def ring_drop_def Let_def split: if_splits)
  show ?thesis
  proof (cases "ring_list (mring s)")
    case Nil
    then have "u = s" using c by (simp add: motion_ring_consume_def)
    then show ?thesis using w(1) Nil by (simp add: s'_def Consumed c del: ring_list_nil_iff)
  next
    case (Cons r rs)
    have "\<bar>f (mr_motion r)\<bar> \<le> 2 ^ 15" if "f \<in> axes" for f
      using ok that by (auto simp: Cons motion_ok_def in_i16_def)
    with pool have "\<forall>f \<in> axes. \<bar>f (rf_motion (refund s))\<bar> \<le> 2 ^ 30 \<and> \<bar>f (mr_motion r)\<bar> \<le> 2 ^ 15" by blast
    from consume_law [OF w(1) Cons this c] show ?thesis
      using ok head by (auto simp: s'_def Consumed c Cons)
  qed
qed

lemma op_lost_small:
  assumes "\<forall>r \<in> set rs. motion_ok (mr_motion r)" "f \<in> axes"
  shows "\<bar>op_lost f x rs\<bar> \<le> 2 ^ 15"
proof (cases x)
  case (Consumed now failed)
  have "in_i16 (f (mr_motion r))" if "r \<in> set rs" for r using assms that by (auto simp: motion_ok_def)
  then have "\<bar>f (mr_motion (hd rs))\<bar> \<le> 2 ^ 15" if "rs \<noteq> []" using hd_in_set [OF that] by (fastforce simp: in_i16_def abs_le_iff)
  then show ?thesis by (simp add: Consumed)
qed simp

text \<open>
  C33. The accounting of the pointer motion, over every sequence of sends and transmit events that
  does not overrun the ring: the records outstanding are those pushed and not yet consumed, in order;
  the count in flight is the number of them that carry motion; the pool has gained, axis by axis,
  exactly the motion of the records that failed; the event to come names the kind of its record
  when it fails and none when it succeeds, and hands back the record's own restore flag.
\<close>

theorem motion_accounting:
  fixes ops s
  defines "q \<equiv> fold outstanding ops (ring_list (mring s))" and "s' \<equiv> fold motion_op_fn ops s"
  assumes w: "motion_wf cfg s" "c_motion_ring cfg \<le> 255" and fit: "ops_fit (c_motion_ring cfg) ops (ring_list (mring s))"
    and ok: "\<forall>r \<in> set (ring_list (mring s)). motion_ok (mr_motion r)"
    and pool: "\<forall>f \<in> axes. \<bar>f (rf_motion (refund s))\<bar> + 2 ^ 15 * int (length ops) \<le> 2 ^ 30"
    and h: "unat (rhead (mring s)) + length ops < 2 ^ 32"
  shows "motion_wf cfg s' \<and> ring_list (mring s') = q \<and> inflight s' = length (filter (has_motion \<circ> mr_motion) q)
    \<and> (\<forall>f \<in> axes. f (rf_motion (refund s')) = f (rf_motion (refund s)) + ops_lost f ops (ring_list (mring s)))
    \<and> fst (motion_ring_consume now failed s') = (case q of [] \<Rightarrow> (KIND_NONE, False)
         | r # rs \<Rightarrow> (if failed then mr_kind r else KIND_NONE, mr_overrode r))"
proof -
  have run: "motion_wf cfg (fold motion_op_fn ops s)
    \<and> ring_list (mring (fold motion_op_fn ops s)) = fold outstanding ops (ring_list (mring s))
    \<and> (\<forall>f \<in> axes. f (rf_motion (refund (fold motion_op_fn ops s))) = f (rf_motion (refund s)) + ops_lost f ops (ring_list (mring s)))"
    using w fit ok pool h
  proof (induction ops arbitrary: s)
    case (Cons x xs)
    have p: "\<forall>f \<in> axes. \<bar>f (rf_motion (refund s))\<bar> \<le> 2 ^ 30" using Cons.prems(5) by (auto simp: algebra_simps)
    have h: "unat (rhead (mring s)) + 1 < 2 ^ 32" using Cons.prems(6) by simp
    have x: "op_fits (c_motion_ring cfg) x (ring_list (mring s))" using Cons.prems(3) by simp
    note one = motion_op_law [OF Cons.prems(1,2) x Cons.prems(4) p h]
    have small: "\<bar>op_lost f x (ring_list (mring s))\<bar> \<le> 2 ^ 15" if "f \<in> axes" for f
      using op_lost_small [OF Cons.prems(4) that] .
    have "\<forall>f \<in> axes. \<bar>f (rf_motion (refund (motion_op_fn x s)))\<bar> + 2 ^ 15 * int (length xs) \<le> 2 ^ 30"
    proof
      fix f assume f: "f \<in> axes"
      show "\<bar>f (rf_motion (refund (motion_op_fn x s)))\<bar> + 2 ^ 15 * int (length xs) \<le> 2 ^ 30"
        using bspec [OF Cons.prems(5) f] small [OF f] one f by (simp add: algebra_simps) (smt (verit) one)
    qed
    with Cons.IH [of "motion_op_fn x s"] one Cons.prems(2,3,6) show ?case by (auto simp: algebra_simps)
  qed simp
  then have r: "motion_wf cfg s'" "ring_list (mring s') = q"
    "\<forall>f \<in> axes. f (rf_motion (refund s')) = f (rf_motion (refund s)) + ops_lost f ops (ring_list (mring s))"
    unfolding q_def s'_def by blast+
  then have "inflight s' = length (filter (has_motion \<circ> mr_motion) q)" by (simp add: motion_wf_def moving_def)
  moreover have "fst (motion_ring_consume now failed s') = (case ring_list (mring s') of [] \<Rightarrow> (KIND_NONE, False)
         | r # rs \<Rightarrow> (if failed then mr_kind r else KIND_NONE, mr_overrode r))"
    using ring_list_Cons [of "mring s'"] ring_list_nil_iff [of "mring s'"]
    by (auto simp: motion_ring_consume_def Let_def simp del: ring_list_nil_iff split: list.split)
  ultimately show ?thesis using r by blast
qed

definition one_sent :: motion_state where
  "one_sent = motion_ring_push (Some (mouse_body_of mouse_frame)) True KIND_MOUSE
     \<lparr>mring = \<lparr>rslots = replicate 48 \<lparr>mr_motion = zero_motion, mr_overrode = False, mr_kind = KIND_NONE\<rparr>,
               rhead = 0, rtail = 0\<rparr>, refund = no_refund, inflight = 0\<rparr>"

lemma one_sent_wf:
  "motion_wf default_kconfig one_sent \<and> refund one_sent = no_refund
   \<and> ring_list (mring one_sent) = [\<lparr>mr_motion = mb_motion (mouse_body_of mouse_frame), mr_overrode = True, mr_kind = KIND_MOUSE\<rparr>]"
proof -
  let ?s = "\<lparr>mring = \<lparr>rslots = replicate 48 \<lparr>mr_motion = zero_motion, mr_overrode = False, mr_kind = KIND_NONE\<rparr>,
               rhead = 0, rtail = 0\<rparr>, refund = no_refund, inflight = 0\<rparr> :: motion_state"
  have "motion_wf default_kconfig ?s"
    by (simp add: motion_wf_def ring_fit_def ring_gap_def refund_wf_def no_refund_def moving_def ring_list_def)
  then show ?thesis
    using motion_push_law [of default_kconfig ?s "Some (mouse_body_of mouse_frame)" True KIND_MOUSE]
    by (simp add: one_sent_def ring_gap_def ring_list_def)
qed

theorem motion_accounting_witness:
  "inflight (fold motion_op_fn [Pushed None False KIND_KB, Consumed 50 True] one_sent) = 0
   \<and> dx (rf_motion (refund (fold motion_op_fn [Pushed None False KIND_KB, Consumed 50 True] one_sent))) = 32767"
proof -
  have m: "motion_ok (mb_motion (mouse_body_of mouse_frame))" by (simp add: mouse_frame_motion motion_ok_def in_i16_def)
  have "rhead (mring one_sent) = 1" by (simp add: one_sent_def motion_ring_push_def ring_put_def Let_def)
  then show ?thesis
    using motion_accounting [of default_kconfig one_sent "[Pushed None False KIND_KB, Consumed 50 True]" 60 False] one_sent_wf m
    by (simp add: mouse_frame_motion no_refund_def zero_motion_def has_motion_iff)
qed

lemma kind_bit_iff: "bit (kind_bit k) n \<longleftrightarrow> n = kind_no k"
proof -
  have "kind_no k < 8" by (cases k) simp_all
  then show ?thesis
    unfolding kind_bit_def by (simp only: bit_push_bit_iff bit_1_iff) auto
qed

lemma harvest_fold:
  "bit (fold (\<lambda>i kinds. let k = f i in if k \<noteq> KIND_NONE then kinds OR kind_bit k else kinds) is (w :: u8)) n
     \<longleftrightarrow> bit w n \<or> (\<exists>i \<in> set is. f i \<noteq> KIND_NONE \<and> n = kind_no (f i))"
  by (induction "is" arbitrary: w) (auto simp: Let_def bit_or_iff kind_bit_iff)

lemma harvest_bits:
  assumes "ring_fit r"
  shows "bit (harvest_kinds r) n
    \<longleftrightarrow> (\<exists>rec \<in> set (ring_list r). mr_kind rec \<noteq> KIND_NONE \<and> n = kind_no (mr_kind rec))"
proof -
  let ?n = "min (unat (rhead r - rtail r)) (length (rslots r))"
  have n: "?n = ring_gap r" using assms by (simp add: ring_fit_def ring_gap_def)
  have "rhead r - of_nat (ring_gap r) + of_nat i = rtail r + of_nat i" for i
    by (simp add: ring_gap_def)
  then show ?thesis
    unfolding harvest_kinds_def Let_def n harvest_fold [unfolded Let_def]
    by (auto simp: ring_list_def)
qed

text \<open>
  Dropping the queue asks for a resync of exactly the HID kinds that were queued: the harvested
  mask has the bit of a kind if and only if an outstanding record has that kind.
\<close>

lemma harvest_kinds_exact:
  assumes "ring_fit r"
  shows "bit (harvest_kinds r) n
    \<longleftrightarrow> (\<exists>rec \<in> set (ring_list r). mr_kind rec \<noteq> KIND_NONE \<and> n = kind_no (mr_kind rec))"
  by (rule harvest_bits [OF assms])

text \<open>
  A pool whose motion cancels to zero keeps its stamp, so the motion of a later failure inherits
  the old stamp and can be discarded as stale the moment it is refunded.
\<close>

lemma cancelled_refund_keeps_stamp:
  "refund (snd (motion_ring_consume 150 True (one_sent\<lparr>refund :=
       \<lparr>rf_motion = \<lparr>dx = - 32767, dy = - 3, scroll_x = 2, scroll_y = 0\<rparr>, rf_stamp = 10\<rparr>\<rparr>)))
     = \<lparr>rf_motion = zero_motion, rf_stamp = 10\<rparr>"
proof -
  have "ring_nonempty (mring one_sent)" using one_sent_wf by (metis list.distinct(1) ring_list_nil_iff)
  moreover from this have "mr_motion (ring_peek (mring one_sent)) = mb_motion (mouse_body_of mouse_frame)"
    using one_sent_wf ring_list_Cons [of "mring one_sent"] by simp
  ultimately show ?thesis
    by (simp add: motion_ring_consume_def Let_def mouse_frame_motion has_motion_def motion_map2_def zero_motion_def in_i32_def)
qed

end
