(* ===== verification/Bench.thy ===== *)
theory Bench
  imports Protocol EsbRadio
begin

text \<open>
  The throughput benchmark \<open>src/src/esb/bench.c\<close>: its state, the transitions driven by the
  shell, the timers and the transmit events, the burst of pings it writes straight to the radio,
  and the evaluation of the dongle's report. The two work functions that send BENCH_STOP through
  the transport are in HopWork.
\<close>

section \<open>State\<close>

datatype bench_state = BENCH_IDLE | BENCH_RUNNING | BENCH_STOPPING | BENCH_DONE

datatype bench_work_item = W_bench_tx | W_bench_complete | W_bench_poll | W_bench_timeout

record bench_result =
  br_tx_ok :: u32
  br_tx_fail :: u32
  br_throughput :: u32
  br_rssi_avg :: int
  br_rssi_min :: int
  br_rssi_max :: int
  br_rssi_samples :: u32

record bench =
  bn_state :: bench_state
  bn_tx_ok :: u32
  bn_tx_fail :: u32
  bn_seq :: u8
  bn_result :: bench_result
  bn_wq :: "bench_work_item workq"

definition zero_result :: bench_result where
  "zero_result = \<lparr>br_tx_ok = 0, br_tx_fail = 0, br_throughput = 0, br_rssi_avg = 0, br_rssi_min = 0,
     br_rssi_max = 0, br_rssi_samples = 0\<rparr>"

definition bench_boot :: bench where
  "bench_boot = \<lparr>bn_state = BENCH_IDLE, bn_tx_ok = 0, bn_tx_fail = 0, bn_seq = 0,
     bn_result = zero_result, bn_wq = no_work\<rparr>"

definition bench_cancel :: "bench_work_item \<Rightarrow> bench \<Rightarrow> bench" where
  "bench_cancel w b = b\<lparr>bn_wq := cancel w (bn_wq b)\<rparr>"

definition bench_resched :: "bench_work_item \<Rightarrow> u32 \<Rightarrow> bench \<Rightarrow> bench" where
  "bench_resched w d b = b\<lparr>bn_wq := resched w d (bn_wq b)\<rparr>"

definition bench_submit :: "bench_work_item \<Rightarrow> bench \<Rightarrow> bench" where
  "bench_submit w b = b\<lparr>bn_wq := submit w (bn_wq b)\<rparr>"

section \<open>Operations\<close>

definition esb_bench_start :: "kconfig \<Rightarrow> bench \<Rightarrow> bench" where
  "esb_bench_start cfg b =
     bench_resched W_bench_complete (of_nat (c_bench_duration_s cfg * 1000))
       (bench_submit W_bench_tx
         (b\<lparr>bn_state := BENCH_RUNNING, bn_tx_ok := 0, bn_tx_fail := 0, bn_seq := 0,
            bn_result := zero_result\<rparr>))"

definition esb_bench_reset :: "bench \<Rightarrow> bench" where
  "esb_bench_reset b =
     (bench_cancel W_bench_timeout (bench_cancel W_bench_poll (bench_cancel W_bench_complete
       (bench_cancel W_bench_tx b))))\<lparr>bn_state := BENCH_IDLE\<rparr>"

definition own_counts :: "kconfig \<Rightarrow> bench \<Rightarrow> bench_result \<Rightarrow> bench_result" where
  "own_counts cfg b r = r\<lparr>br_tx_ok := bn_tx_ok b, br_tx_fail := bn_tx_fail b,
     br_throughput := bn_tx_ok b div of_nat (c_bench_duration_s cfg)\<rparr>"

definition bench_result_timeout_fn :: "kconfig \<Rightarrow> bench \<Rightarrow> bench" where
  "bench_result_timeout_fn cfg b =
     (if bn_state b \<noteq> BENCH_STOPPING then b
      else (bench_cancel W_bench_poll b)
             \<lparr>bn_result := (own_counts cfg b (bn_result b))\<lparr>br_rssi_samples := 0\<rparr>,
              bn_state := BENCH_DONE\<rparr>)"

definition esb_bench_on_rx :: "kconfig \<Rightarrow> bytes \<Rightarrow> bench \<Rightarrow> bench" where
  "esb_bench_on_rx cfg data b =
     (if length data < 1 \<or> data ! 0 \<noteq> pkt_bench_result then b
      else if bn_state b \<noteq> BENCH_STOPPING then b
      else if length data < 8 then b
      else (bench_cancel W_bench_timeout (bench_cancel W_bench_poll b))
             \<lparr>bn_result := (own_counts cfg b (bn_result b))
                  \<lparr>br_rssi_avg := as_i8 (data ! 1), br_rssi_min := as_i8 (data ! 2),
                   br_rssi_max := as_i8 (data ! 3), br_rssi_samples := rd32 (drop 4 data)\<rparr>,
              bn_state := BENCH_DONE\<rparr>)"

definition esb_bench_notify_tx_success :: "bench \<Rightarrow> bench" where
  "esb_bench_notify_tx_success b =
     (if bn_state b = BENCH_RUNNING then bench_submit W_bench_tx (b\<lparr>bn_tx_ok := bn_tx_ok b + 1\<rparr>) else b)"

definition esb_bench_notify_tx_fail :: "bench \<Rightarrow> bench" where
  "esb_bench_notify_tx_fail b =
     (if bn_state b = BENCH_RUNNING then bench_submit W_bench_tx (b\<lparr>bn_tx_fail := bn_tx_fail b + 1\<rparr>) else b)"

section \<open>The burst of pings\<close>

text \<open>The ping struct: type, sequence number and 30 bytes left zero.\<close>

definition bench_ping :: "u8 \<Rightarrow> payload" where
  "bench_ping sq = \<lparr>pl_pipe = 1, pl_data = layout (Bench_Ping sq (replicate 30 0)), pl_noack = False,
     pl_pid = 0, pl_rssi = 0\<rparr>"

text \<open>The loop ends because a write that succeeds takes a slot of the FIFO.\<close>

function bench_fill :: "kconfig \<Rightarrow> u8 \<Rightarrow> esb \<Rightarrow> u8 \<times> esb" where
  "bench_fill cfg sq s =
     (let (r, s') = esb_write_payload cfg (bench_ping sq) s
      in if r = OK then bench_fill cfg (sq + 1) s' else (sq + 1, s'))"
  by pat_completeness auto

lemma write_takes_slot:
  "esb_write_payload cfg p s = (OK, s') \<Longrightarrow> tx_size s' - fcount (tx_fifo s') < tx_size s - fcount (tx_fifo s)"
  by (auto simp: esb_write_payload_def Let_def split: if_splits)

termination bench_fill
  by (relation "measure (\<lambda>(cfg, sq, s). tx_size s - fcount (tx_fifo s))")
    (auto dest: write_takes_slot [OF sym])

definition bench_tx_fn :: "kconfig \<Rightarrow> bench \<times> esb \<Rightarrow> bench \<times> esb" where
  "bench_tx_fn cfg = (\<lambda>(b, s).
     if bn_state b \<noteq> BENCH_RUNNING then (b, s)
     else let (sq, s') = bench_fill cfg (bn_seq b) s in (b\<lparr>bn_seq := sq\<rparr>, s'))"


declare bench_fill.simps [simp del]

lemma bench_ping_simps [simp]:
  "pl_pipe (bench_ping sq) = 1" "length (pl_data (bench_ping sq)) = 32"
  by (simp_all add: bench_ping_def)

section \<open>Properties\<close>

lemma bench_fill_law:
  assumes k: "c_max_payload cfg = 32" "1 < c_pipe_count cfg"
    and "esb_wf cfg s" "esb_initialized s" "bench_fill cfg sq s = (sq', s')"
    and "free = tx_size s - fcount (tx_fifo s)"
  shows "sq' = sq + of_nat free + 1 \<and> esb_wf cfg s' \<and> esb_tx_full s'
    \<and> map pl_data (tx_queue s') = map pl_data (tx_queue s)
        @ map (\<lambda>i. pl_data (bench_ping (sq + of_nat i))) [0..<free]"
  using assms(3-)
proof (induction free arbitrary: s sq)
  case 0
  then have "write_error cfg (bench_ping sq) s = Some ENOMEM"
    using k by (simp add: write_error_def esb_tx_full_def)
  then have "esb_write_payload cfg (bench_ping sq) s = (Err ENOMEM, s)"
    using write_error_iff [of cfg "bench_ping sq" s] by simp
  with 0 show ?case by (subst (asm) bench_fill.simps) (simp add: esb_tx_full_def)
next
  case (Suc n)
  let ?s = "snd (esb_write_payload cfg (bench_ping sq) s)"
  have e: "write_error cfg (bench_ping sq) s = None"
    using Suc.prems k by (simp add: write_error_def esb_tx_full_def)
  have ok: "esb_write_payload cfg (bench_ping sq) s = (OK, ?s)"
    using write_error_iff [of cfg "bench_ping sq" s] e by simp
  have w: "esb_wf cfg ?s" and q: "map pl_data (tx_queue ?s) = map pl_data (tx_queue s) @ [pl_data (bench_ping sq)]"
    using write_ok [OF Suc.prems(1) e] by simp_all
  have i: "esb_initialized ?s" and sz: "tx_size ?s = tx_size s"
    using ok by (auto simp: esb_write_payload_def Let_def split: if_splits)
  have "length (tx_queue ?s) = fcount (tx_fifo s) + 1"
    using arg_cong [OF q, of length] by simp
  then have n: "n = tx_size ?s - fcount (tx_fifo ?s)" using Suc.prems(4) sz by simp
  have "bench_fill cfg (sq + 1) ?s = (sq', s')"
    using Suc.prems(3) arg_cong [OF ok, of fst] by (subst (asm) bench_fill.simps) (simp add: split_beta)
  from Suc.IH [OF w i this n] q
  show ?case by (simp add: upt_conv_Cons map_Suc_upt [symmetric] add.assoc add.left_commute del: upt_Suc)
qed

text \<open>
  A burst fills the transmit FIFO: it queues one ping per free slot behind what was queued,
  with consecutive sequence numbers from the stored one on; the number of the write that found
  the FIFO full is used up too, so each burst leaves a gap of one in the sequence.
\<close>

lemma bench_burst_fills:
  assumes "kconfig_ok cfg" and "esb_wf cfg s" and "esb_initialized s" and "bn_state b = BENCH_RUNNING"
    and "bench_tx_fn cfg (b, s) = (b', s')"
  shows "let free = tx_size s - fcount (tx_fifo s) in
      map pl_data (tx_queue s') = map pl_data (tx_queue s)
        @ map (\<lambda>i. layout (Bench_Ping (bn_seq b + of_nat i) (replicate 30 0))) [0..<free]
    \<and> esb_tx_full s' \<and> esb_wf cfg s' \<and> b' = b\<lparr>bn_seq := bn_seq b + of_nat free + 1\<rparr>"
proof -
  obtain sq where f: "bench_fill cfg (bn_seq b) s = (sq, s')" and b: "b' = b\<lparr>bn_seq := sq\<rparr>"
    using assms(4,5) by (auto simp: bench_tx_fn_def split: prod.splits)
  then show ?thesis
    using bench_fill_law [OF _ _ assms(2,3) f refl] assms(1)
    by (simp add: Let_def bench_ping_def kconfig_ok_def)
qed

text \<open>
  A benchmark finishes exactly once: a report is taken only while the benchmark is stopping
  and only when complete, it ends the benchmark with the endpoint's own counts, the throughput
  per second and the dongle's signal figures, and stops both timers; the timeout ends it with no
  samples; whatever arrives afterwards changes nothing, and the counts only move while running.
\<close>

lemma bench_finishes_once:
  fixes n :: u32 and cfg :: kconfig
  assumes r: "in_i8 avg" "in_i8 lo" "in_i8 hi" and s: "bn_state b = BENCH_STOPPING"
  defines "fin \<equiv> esb_bench_on_rx cfg (layout (Bench_Result avg lo hi n)) b"
    and "late \<equiv> bench_result_timeout_fn cfg b"
  shows "bn_state fin = BENCH_DONE \<and> bn_wq fin W_bench_poll = None \<and> bn_wq fin W_bench_timeout = None
    \<and> bn_result fin = \<lparr>br_tx_ok = bn_tx_ok b, br_tx_fail = bn_tx_fail b,
         br_throughput = bn_tx_ok b div of_nat (c_bench_duration_s cfg), br_rssi_avg = avg,
         br_rssi_min = lo, br_rssi_max = hi, br_rssi_samples = n\<rparr>
    \<and> bn_state late = BENCH_DONE \<and> br_rssi_samples (bn_result late) = 0 \<and> bn_wq late W_bench_poll = None
    \<and> (\<forall>d \<in> {fin, late}. esb_bench_on_rx cfg frame d = d \<and> bench_result_timeout_fn cfg d = d
         \<and> esb_bench_notify_tx_success d = d \<and> esb_bench_notify_tx_fail d = d
         \<and> bench_tx_fn cfg (d, radio) = (d, radio))"
  using s as_i8_of_i8 [OF r(1)] as_i8_of_i8 [OF r(2)] as_i8_of_i8 [OF r(3)]
  by (cases "bn_result b")
    (auto simp: fin_def late_def esb_bench_on_rx_def bench_result_timeout_fn_def own_counts_def bench_cancel_def
      esb_bench_notify_tx_success_def esb_bench_notify_tx_fail_def bench_tx_fn_def)

end
