(* ===== verification/Transport.thy ===== *)
theory Transport
  imports LinkQuality Motion Bench HopState
begin

text \<open>
  The transport \<open>src/src/esb/esb_transport.c\<close>: sending a frame, the radio's events and the
  bookkeeping tied to them, channel changes, the blocking side trip to the rendezvous channel,
  the reception mailbox, the resync of HID state after lost reports, and the start and stop of the
  radio slot. The record \<open>link\<close> puts the transport together with the radio library and the two
  components its event handler calls, the hop manager and the benchmark. \<open>now\<close> is the clock
  read by the call; register writes without an effect on this state are left out.
\<close>

section \<open>State\<close>

datatype tr_work_item = W_rx | W_hid_resync | W_adaptive

record transport =
  t_has_cb :: bool
  a_base0 :: bytes
  a_base1 :: bytes
  a_prefixes :: bytes
  t_channel :: nat
  boot_channel :: nat
  t_configured :: bool
  sync_in_progress :: bool
  sync_success :: bool
  sync_sem :: nat
  rx_slots :: "bytes list"
  rx_active :: nat
  tx_ok_count :: u32
  tx_fail_count :: u32
  tx_retried_count :: u32
  tx_exhausted_count :: u32
  consecutive_fail :: u32
  hid_tx_count :: u32
  hid_bucket_count :: u32
  hid_bucket_ms :: u32
  hid_rate_hz :: nat
  crit_ring :: flag_ring
  noack_ring :: flag_ring
  mot :: motion_state
  resync_pending :: u8
  resync_cbs :: "nat list"
  adaptive_count :: nat
  first_fail_ms :: u32
  last_success_ms :: u32
  busy_streak :: nat
  quiet_until :: u32
  lq :: link_quality
  degraded_armed :: bool
  last_activity_ms :: u32
  activity_seen :: bool
  last_tx_event_ms :: u32
  jitter_rng :: u32
  peer_rssi_last :: int
  peer_rssi_ewma :: int
  peer_rssi_valid :: bool
  bt_suspended :: bool
  hfxo_held :: bool
  t_wq :: "tr_work_item workq"

record link =
  tr :: transport
  radio :: esb
  hopm :: hop
  bn :: bench

definition on_tr :: "(transport \<Rightarrow> transport) \<Rightarrow> link \<Rightarrow> link" where
  "on_tr f l = l\<lparr>tr := f (tr l)\<rparr>"

definition on_hop :: "(hop \<Rightarrow> hop) \<Rightarrow> link \<Rightarrow> link" where
  "on_hop f l = l\<lparr>hopm := f (hopm l)\<rparr>"

definition on_radio :: "(esb \<Rightarrow> 'r \<times> esb) \<Rightarrow> link \<Rightarrow> link" where
  "on_radio f l = l\<lparr>radio := snd (f (radio l))\<rparr>"

section \<open>HID resync requests\<close>

definition esb_transport_register_hid_resync_cb :: "nat \<Rightarrow> transport \<Rightarrow> rc \<times> transport" where
  "esb_transport_register_hid_resync_cb cb t =
     (if 4 \<le> length (resync_cbs t) then (Err ENOMEM, t) else (OK, t\<lparr>resync_cbs := resync_cbs t @ [cb]\<rparr>))"

definition hid_resync_request :: "kconfig \<Rightarrow> u8 \<Rightarrow> transport \<Rightarrow> transport" where
  "hid_resync_request cfg kinds t = t\<lparr>resync_pending := resync_pending t OR kinds,
     t_wq := sched W_hid_resync (c_hid_resync_delay_ms cfg) (t_wq t)\<rparr>"

text \<open>The calls made, in order: the consumer and the mask.\<close>

definition hid_resync_work_fn :: "transport \<Rightarrow> (nat \<times> u8) list \<times> transport" where
  "hid_resync_work_fn t =
     (let kinds = resync_pending t; t1 = t\<lparr>resync_pending := 0\<rparr>
      in if kinds = 0 then ([], t1) else (map (\<lambda>cb. (cb, kinds)) (resync_cbs t1), t1))"

section \<open>Retransmit count\<close>

definition adaptive_retry_work_fn :: "kconfig \<Rightarrow> link \<Rightarrow> link" where
  "adaptive_retry_work_fn cfg l =
     (let want = adaptive_retry_target cfg (lq (tr l));
          (r, s) = esb_set_retransmit_count want (radio l);
          l1 = (if want \<noteq> adaptive_count (tr l)
                then (if r = OK then l\<lparr>radio := s, tr := (tr l)\<lparr>adaptive_count := want\<rparr>\<rparr> else l\<lparr>radio := s\<rparr>)
                else l)
      in on_tr (\<lambda>t. t\<lparr>t_wq := resched W_adaptive (c_adaptive_interval_ms cfg) (t_wq t)\<rparr>) l1)"

definition restore_retransmit_count :: "link \<Rightarrow> link" where
  "restore_retransmit_count l = on_radio (esb_set_retransmit_count (adaptive_count (tr l))) l"

section \<open>Activity and reception\<close>

definition note_activity :: "u32 \<Rightarrow> transport \<Rightarrow> transport" where
  "note_activity now t = t\<lparr>last_activity_ms := now, activity_seen := True\<rparr>"

definition esb_transport_ms_since_activity :: "u32 \<Rightarrow> transport \<Rightarrow> u32" where
  "esb_transport_ms_since_activity now t =
     (if \<not> activity_seen t then 0xFFFFFFFF else now - last_activity_ms t)"

text \<open>\<open>rx_work_fn\<close>: the frame handed to the registered callback, if any.\<close>

definition rx_work_fn :: "u32 \<Rightarrow> transport \<Rightarrow> bytes option \<times> transport" where
  "rx_work_fn now t =
     (if \<not> t_has_cb t then (None, t)
      else let t1 = note_activity now t in (Some (rx_slots t1 ! rx_active t1), t1))"

definition rx_publish :: "kconfig \<Rightarrow> payload \<Rightarrow> transport \<Rightarrow> transport" where
  "rx_publish cfg p t =
     (if 0 < length (pl_data p) \<and> length (pl_data p) \<le> c_max_payload cfg
      then let slot = (rx_active t + 1) mod 2 in
        t\<lparr>rx_slots := (rx_slots t)[slot := pl_data p], rx_active := slot, t_wq := submit W_rx (t_wq t)\<rparr>
      else t)"

text \<open>\<open>while (esb_read_rx_payload(..) == 0)\<close>: every pass takes a frame off the radio's queue.\<close>

function rx_drain :: "kconfig \<Rightarrow> transport \<times> esb \<Rightarrow> transport \<times> esb" where
  "rx_drain cfg (t, s) = (case esb_read_rx_payload s of
     (Inl _, s') \<Rightarrow> (t, s')
   | (Inr p, s') \<Rightarrow> rx_drain cfg (rx_publish cfg p t, s'))"
  by pat_completeness auto

termination rx_drain
  by (relation "measure (\<lambda>(cfg, t, s). fcount (rx_fifo s))")
    (auto simp: esb_read_rx_payload_def split: if_splits)

declare rx_drain.simps [simp del]

section \<open>Dropping the queue\<close>

definition tx_bookkeeping_resync :: "kconfig \<Rightarrow> link \<Rightarrow> link" where
  "tx_bookkeeping_resync cfg l =
     (let t = tr l;
          t1 = t\<lparr>noack_ring := ring_snap (noack_ring t), crit_ring := ring_snap (crit_ring t)\<rparr>;
          kinds = harvest_kinds (mring (mot t1));
          t2 = (if kinds \<noteq> 0 then hid_resync_request cfg kinds t1 else t1);
          t3 = t2\<lparr>mot := motion_drop_all (mot t2)\<rparr>
      in restore_retransmit_count (l\<lparr>tr := t3\<rparr>))"

definition esb_flush_tx_and_reset :: "kconfig \<Rightarrow> link \<Rightarrow> link" where
  "esb_flush_tx_and_reset cfg l = tx_bookkeeping_resync cfg (on_radio esb_flush_tx l)"

definition esb_restore_tx_or_drop :: "kconfig \<Rightarrow> link \<Rightarrow> link" where
  "esb_restore_tx_or_drop cfg l = (case esb_restore_tx (radio l) of
     (Inl _, s) \<Rightarrow> tx_bookkeeping_resync cfg (l\<lparr>radio := s\<rparr>)
   | (Inr _, s) \<Rightarrow> l\<lparr>radio := s\<rparr>)"

text \<open>
  \<open>esb_transport_flush_tx\<close> first sleeps, for a bounded time, until the radio has been silent
  (\<open>FLUSH_QUIET_MS\<close>, 0 by default); the wait changes no state, so the flush is what is modelled.
\<close>

definition esb_transport_flush_tx :: "kconfig \<Rightarrow> link \<Rightarrow> link" where
  "esb_transport_flush_tx cfg l = esb_flush_tx_and_reset cfg l"

section \<open>Events of the radio\<close>

text \<open>\<open>motion_ring_consume\<close> with the resync request and the restore it makes.\<close>

definition consume_motion :: "kconfig \<Rightarrow> u32 \<Rightarrow> bool \<Rightarrow> link \<Rightarrow> link" where
  "consume_motion cfg now failed l =
     (let ((kind, restore), m) = motion_ring_consume now failed (mot (tr l));
          l1 = on_tr (\<lambda>t. t\<lparr>mot := m\<rparr>) l;
          l2 = (if kind \<noteq> KIND_NONE then on_tr (hid_resync_request cfg (kind_bit kind)) l1 else l1)
      in if restore then restore_retransmit_count l2 else l2)"

definition consume_override :: "link \<Rightarrow> link" where
  "consume_override l =
     (let (overrode, r) = consume_flag (crit_ring (tr l));
          l1 = on_tr (\<lambda>t. t\<lparr>crit_ring := r\<rparr>) l
      in if overrode then restore_retransmit_count l1 else l1)"

text \<open>The threshold check of the cooperative hop, with its hysteresis.\<close>

definition degraded_fires :: "kconfig \<Rightarrow> link_quality \<Rightarrow> bool" where
  "degraded_fires cfg q \<longleftrightarrow>
     c_degraded_threshold cfg \<le> lq_count q \<or> c_degraded_fast cfg \<le> lq_fast q"

definition degraded_check :: "kconfig \<Rightarrow> u32 \<Rightarrow> link \<Rightarrow> link" where
  "degraded_check cfg now l =
     (let t = tr l in
      if degraded_armed t then
        (if lq_count (lq t) \<le> c_degraded_rearm cfg then on_tr (\<lambda>t. t\<lparr>degraded_armed := False\<rparr>) l else l)
      else if degraded_fires cfg (lq t)
        then on_hop (channel_hop_ep_on_link_degraded_isr now) (on_tr (\<lambda>t. t\<lparr>degraded_armed := True\<rparr>) l)
      else l)"

definition record_success :: "kconfig \<Rightarrow> u32 \<Rightarrow> nat \<Rightarrow> link \<Rightarrow> link" where
  "record_success cfg now attempts l =
     (let (was_noack, r) = consume_flag (noack_ring (tr l));
          l1 = on_tr (\<lambda>t. t\<lparr>noack_ring := r\<rparr>) l
      in if was_noack then l1
         else degraded_check cfg now
                (on_tr (\<lambda>t. t\<lparr>lq := link_quality_record cfg attempts (1 < attempts) (lq t)\<rparr>) l1))"

definition on_tx_success :: "kconfig \<Rightarrow> u32 \<Rightarrow> nat \<Rightarrow> link \<Rightarrow> link" where
  "on_tx_success cfg now attempts l =
     (if sync_in_progress (tr l)
      then on_tr (\<lambda>t. t\<lparr>sync_success := True, sync_in_progress := False, sync_sem := 1\<rparr>) l
      else
        let l1 = on_tr (\<lambda>t. t\<lparr>tx_ok_count := tx_ok_count t + 1,
                     tx_retried_count := tx_retried_count t + (if 1 < attempts then 1 else 0),
                     consecutive_fail := 0, first_fail_ms := 0, last_success_ms := nz_stamp now\<rparr>) l;
            l2 = on_hop (channel_hop_ep_on_tx_success_isr cfg now) l1;
            l3 = record_success cfg now attempts l2;
            l4 = l3\<lparr>bn := esb_bench_notify_tx_success (bn l3)\<rparr>
        in consume_motion cfg now False (consume_override l4))"

text \<open>The two independent triggers of a failure: the window of failures, and the weak link.\<close>

definition fail_window :: "kconfig \<Rightarrow> u32 \<Rightarrow> link \<Rightarrow> link" where
  "fail_window cfg now l =
     (let t = tr l in
      if consecutive_fail t = 1 then on_tr (\<lambda>t. t\<lparr>first_fail_ms := nz_stamp now\<rparr>) l
      else if first_fail_ms t \<noteq> 0 \<and> c_tx_fail_window_ms cfg \<le> now - first_fail_ms t
        then on_tr (\<lambda>t. t\<lparr>first_fail_ms := nz_stamp now\<rparr>) (on_hop (channel_hop_ep_on_tx_fail_isr cfg now) l)
      else l)"

definition weak_link :: "kconfig \<Rightarrow> u32 \<Rightarrow> link \<Rightarrow> link" where
  "weak_link cfg now l =
     (let t = tr l in
      if 0 < c_weak_link_ms cfg \<and> last_success_ms t \<noteq> 0 \<and> c_weak_link_ms cfg \<le> now - last_success_ms t
      then on_tr (\<lambda>t. t\<lparr>last_success_ms := nz_stamp now\<rparr>) (on_hop (channel_hop_ep_on_tx_fail_isr cfg now) l)
      else l)"

definition on_tx_failed :: "kconfig \<Rightarrow> u32 \<Rightarrow> link \<Rightarrow> link" where
  "on_tx_failed cfg now l =
     (if sync_in_progress (tr l)
      then on_radio esb_flush_tx
             (on_tr (\<lambda>t. t\<lparr>sync_success := False, sync_in_progress := False, sync_sem := 1\<rparr>) l)
      else
        let l1 = on_tr (\<lambda>t. t\<lparr>tx_fail_count := tx_fail_count t + 1,
                     tx_exhausted_count := tx_exhausted_count t + 1,
                     consecutive_fail := consecutive_fail t + 1\<rparr>) l;
            l2 = weak_link cfg now (fail_window cfg now l1);
            l3 = on_tr (\<lambda>t. t\<lparr>noack_ring := snd (consume_flag (noack_ring t)),
                              lq := link_quality_shift_window cfg True (lq t)\<rparr>) l2;
            l4 = l3\<lparr>bn := esb_bench_notify_tx_fail (bn l3)\<rparr>;
            l5 = consume_motion cfg now True (consume_override l4)
        in if esb_tx_full (radio l5) then esb_flush_tx_and_reset cfg l5 else l5)"

definition zmk_esb_transport_evt_cb :: "kconfig \<Rightarrow> u32 \<Rightarrow> esb_evt \<Rightarrow> link \<Rightarrow> link" where
  "zmk_esb_transport_evt_cb cfg now ev l = (case ev of
     Tx_Success attempts \<Rightarrow>
       on_tx_success cfg now attempts (on_tr (\<lambda>t. t\<lparr>last_tx_event_ms := nz_stamp now\<rparr>) l)
   | Tx_Failed _ \<Rightarrow> on_tx_failed cfg now (on_tr (\<lambda>t. t\<lparr>last_tx_event_ms := nz_stamp now\<rparr>) l)
   | Rx_Received \<Rightarrow> (let (t, s) = rx_drain cfg (tr l, radio l) in l\<lparr>tr := t, radio := s\<rparr>))"

text \<open>The library's event interrupt runs the callback once per pending flag.\<close>

definition esb_event_interrupt :: "kconfig \<Rightarrow> u32 \<Rightarrow> link \<Rightarrow> link" where
  "esb_event_interrupt cfg now l =
     (let (evs, s) = esb_evt_irq_handler (radio l)
      in fold (zmk_esb_transport_evt_cb cfg now) evs (l\<lparr>radio := s\<rparr>))"

section \<open>Frames of the building blocks\<close>

lemma link_parts [simp]:
  "tr (on_tr f l) = f (tr l)" "radio (on_tr f l) = radio l" "hopm (on_tr f l) = hopm l" "bn (on_tr f l) = bn l"
  "tr (on_hop g l) = tr l" "radio (on_hop g l) = radio l" "hopm (on_hop g l) = g (hopm l)" "bn (on_hop g l) = bn l"
  "tr (on_radio k l) = tr l" "radio (on_radio k l) = snd (k (radio l))" "hopm (on_radio k l) = hopm l"
  "bn (on_radio k l) = bn l"
  by (simp_all add: on_tr_def on_hop_def on_radio_def)

text \<open>The part of the radio that the retransmission knobs leave alone.\<close>

definition same_queue :: "esb \<Rightarrow> esb \<Rightarrow> bool" where
  "same_queue s s' \<longleftrightarrow> tx_fifo s' = tx_fifo s \<and> rx_fifo s' = rx_fifo s \<and> tx_stash s' = tx_stash s
     \<and> esb_initialized s' = esb_initialized s \<and> esb_st s' = esb_st s \<and> esb_pids s' = esb_pids s
     \<and> rf_channel s' = rf_channel s \<and> ec_tx_auto (esb_cfg s') = ec_tx_auto (esb_cfg s)
     \<and> int_tx_success s' = int_tx_success s \<and> int_tx_failed s' = int_tx_failed s"

lemma same_queue_refl [simp]: "same_queue s s"
  by (simp add: same_queue_def)

lemma same_queue_trans: "same_queue a b \<Longrightarrow> same_queue b c \<Longrightarrow> same_queue a c"
  by (simp add: same_queue_def)

lemma same_queue_knobs [simp]:
  "same_queue s (snd (esb_set_retransmit_count n s))" "same_queue s (snd (esb_set_retransmit_delay d s))"
  by (simp_all add: same_queue_def esb_set_retransmit_count_def esb_set_retransmit_delay_def)

lemma same_queueD:
  assumes "same_queue s s'"
  shows "tx_fifo s' = tx_fifo s" "tx_stash s' = tx_stash s" "esb_initialized s' = esb_initialized s"
    "esb_st s' = esb_st s" "esb_pids s' = esb_pids s" "rf_channel s' = rf_channel s"
    "ec_tx_auto (esb_cfg s') = ec_tx_auto (esb_cfg s)" "esb_tx_full s' = esb_tx_full s" "rx_fifo s' = rx_fifo s"
  using assms by (simp_all add: same_queue_def esb_tx_full_def)

lemma restore_count_parts [simp]:
  "tr (restore_retransmit_count l) = tr l" "hopm (restore_retransmit_count l) = hopm l"
  "bn (restore_retransmit_count l) = bn l" "same_queue (radio l) (radio (restore_retransmit_count l))"
  "same_queue (radio l) (radio (restore_retransmit_count (on_tr f l)))"
  by (simp_all add: restore_retransmit_count_def)

lemma consume_override_parts [simp]:
  "tr (consume_override l) = (tr l)\<lparr>crit_ring := snd (consume_flag (crit_ring (tr l)))\<rparr>"
  "hopm (consume_override l) = hopm l" "bn (consume_override l) = bn l"
  "same_queue (radio l) (radio (consume_override l))"
  by (auto simp: consume_override_def split_beta Let_def)

lemma resync_request_parts [simp]:
  "mot (hid_resync_request cfg k t) = mot t" "noack_ring (hid_resync_request cfg k t) = noack_ring t"
  "crit_ring (hid_resync_request cfg k t) = crit_ring t" "lq (hid_resync_request cfg k t) = lq t"
  "t_channel (hid_resync_request cfg k t) = t_channel t" "rx_slots (hid_resync_request cfg k t) = rx_slots t"
  "rx_active (hid_resync_request cfg k t) = rx_active t"
  "adaptive_count (hid_resync_request cfg k t) = adaptive_count t"
  "busy_streak (hid_resync_request cfg k t) = busy_streak t"
  "sync_in_progress (hid_resync_request cfg k t) = sync_in_progress t"
  "sync_sem (hid_resync_request cfg k t) = sync_sem t" "sync_success (hid_resync_request cfg k t) = sync_success t"
  by (simp_all add: hid_resync_request_def)

lemma consume_motion_parts:
  assumes "motion_ring_consume now failed (mot (tr l)) = ((kind, restore), m)"
  shows "tr (consume_motion cfg now failed l) = (let t = (tr l)\<lparr>mot := m\<rparr>
      in if kind \<noteq> KIND_NONE then hid_resync_request cfg (kind_bit kind) t else t)"
    and "hopm (consume_motion cfg now failed l) = hopm l" and "bn (consume_motion cfg now failed l) = bn l"
    and "same_queue (radio l) (radio (consume_motion cfg now failed l))"
proof -
  let ?l = "let l1 = on_tr (\<lambda>t. t\<lparr>mot := m\<rparr>) l
            in if kind \<noteq> KIND_NONE then on_tr (hid_resync_request cfg (kind_bit kind)) l1 else l1"
  have eq: "consume_motion cfg now failed l = (if restore then restore_retransmit_count ?l else ?l)"
    using assms by (simp add: consume_motion_def Let_def)
  have r: "radio ?l = radio l" by (simp add: Let_def)
  show "same_queue (radio l) (radio (consume_motion cfg now failed l))"
    using restore_count_parts(4) [of ?l] unfolding eq r by (simp add: r)
qed (use assms in \<open>simp_all add: consume_motion_def Let_def\<close>)

section \<open>Well-formed links\<close>

definition tr_wf :: "kconfig \<Rightarrow> transport \<Rightarrow> bool" where
  "tr_wf cfg t \<longleftrightarrow>
     length (rslots (noack_ring t)) = c_noack_ring cfg \<and> length (rslots (crit_ring t)) = c_crit_ring cfg
   \<and> length (rslots (mring (mot t))) = c_motion_ring cfg \<and> inflight (mot t) \<le> 255
   \<and> refund_wf (refund (mot t)) \<and> lq_wf cfg (lq t)
   \<and> length (rx_slots t) = 2 \<and> (\<forall>f \<in> set (rx_slots t). length f \<le> c_max_payload cfg) \<and> rx_active t < 2
   \<and> adaptive_count t \<le> 255 \<and> busy_streak t < 256"

definition link_wf :: "kconfig \<Rightarrow> link \<Rightarrow> bool" where
  "link_wf cfg l \<longleftrightarrow> tr_wf cfg (tr l) \<and> esb_wf cfg (radio l) \<and> esb_down (radio l) \<and> hop_wf cfg (hopm l)"

lemma link_wfI: "tr_wf cfg (tr l) \<Longrightarrow> esb_wf cfg (radio l) \<Longrightarrow> esb_down (radio l) \<Longrightarrow> hop_wf cfg (hopm l) \<Longrightarrow> link_wf cfg l"
  by (simp add: link_wf_def)

lemma link_wfD: "link_wf cfg l \<Longrightarrow> tr_wf cfg (tr l) \<and> esb_wf cfg (radio l) \<and> esb_down (radio l) \<and> hop_wf cfg (hopm l)"
  by (simp add: link_wf_def)

text \<open>Radio operations as steps: each keeps the radio well formed.\<close>

lemma link_wf_radio:
  "link_wf cfg l \<Longrightarrow> radio_step cfg (radio l) (snd (k (radio l))) \<Longrightarrow> link_wf cfg (on_radio k l)"
  by (auto simp: link_wf_def intro: radio_step_wf radio_step_down)

lemma link_wf_radio_set:
  "link_wf cfg l \<Longrightarrow> radio_step cfg (radio l) s \<Longrightarrow> link_wf cfg (l\<lparr>radio := s\<rparr>)"
  by (auto simp: link_wf_def intro: radio_step_wf radio_step_down)

lemma link_wf_tr: "link_wf cfg l \<Longrightarrow> (tr_wf cfg (tr l) \<Longrightarrow> tr_wf cfg (f (tr l))) \<Longrightarrow> link_wf cfg (on_tr f l)"
  by (simp add: link_wf_def)

lemma link_wf_hop: "link_wf cfg l \<Longrightarrow> (hop_wf cfg (hopm l) \<Longrightarrow> hop_wf cfg (f (hopm l))) \<Longrightarrow> link_wf cfg (on_hop f l)"
  by (simp add: link_wf_def)

lemma link_wf_bn [simp]: "link_wf cfg (l\<lparr>bn := b\<rparr>) = link_wf cfg l"
  by (simp add: link_wf_def)

lemma tr_wf_request [simp]: "tr_wf cfg (hid_resync_request cfg k t) = tr_wf cfg t"
  by (simp add: tr_wf_def)

lemma length_consume_flag [simp]: "length (rslots (snd (consume_flag r))) = length (rslots r)"
  by (simp add: consume_flag_def)

lemma tr_wf_consume_motion:
  assumes "tr_wf cfg t"
  shows "tr_wf cfg (t\<lparr>mot := snd (motion_ring_consume now failed (mot t))\<rparr>)"
  using assms
  by (auto simp: tr_wf_def motion_ring_consume_def Let_def refund_wf_def)

lemma link_wf_restore_count: "link_wf cfg l \<Longrightarrow> link_wf cfg (restore_retransmit_count l)"
  unfolding restore_retransmit_count_def by (rule link_wf_radio) (auto intro: r_count)

lemma link_wf_consume_motion: "link_wf cfg l \<Longrightarrow> link_wf cfg (consume_motion cfg now failed l)"
  using tr_wf_consume_motion [of cfg "tr l" now failed]
  by (auto simp: consume_motion_def split_beta Let_def intro!: link_wf_restore_count link_wf_tr)

lemma link_wf_consume_override: "link_wf cfg l \<Longrightarrow> link_wf cfg (consume_override l)"
  by (auto simp: consume_override_def split_beta Let_def tr_wf_def intro!: link_wf_restore_count link_wf_tr)

lemma link_wf_resync: "link_wf cfg l \<Longrightarrow> link_wf cfg (tx_bookkeeping_resync cfg l)"
  unfolding tx_bookkeeping_resync_def Let_def
  by (rule link_wf_restore_count) (auto simp: link_wf_def tr_wf_def motion_drop_all_def)

lemma link_wf_flush: "link_wf cfg l \<Longrightarrow> link_wf cfg (esb_flush_tx_and_reset cfg l)"
  unfolding esb_flush_tx_and_reset_def by (intro link_wf_resync link_wf_radio r_flush)

lemma link_wf_restore: "link_wf cfg l \<Longrightarrow> link_wf cfg (esb_restore_tx_or_drop cfg l)"
  using link_wf_radio_set [OF _ r_restore, of cfg l]
  by (auto simp: esb_restore_tx_or_drop_def split: sum.splits prod.splits intro!: link_wf_resync)

lemma record_wf:
  assumes "kconfig_ok cfg" "lq_wf cfg q"
  shows "lq_wf cfg (link_quality_record cfg a b q)"
proof -
  have "lq_wf cfg (q'\<lparr>lq_ewma_x10 := e\<rparr>)" if "lq_wf cfg q'" "e \<le> 2550" for q' e
    using that by (simp add: lq_wf_def lq_history_def)
  moreover have "(lq_ewma_x10 q * 7 + a mod 256 * 10 mod 65536) div 8 mod 65536 \<le> 2550"
  proof -
    have "a mod 256 * 10 mod 65536 \<le> 2550" by (rule order_trans [OF mod_less_eq_dividend]) simp
    moreover have "lq_ewma_x10 q \<le> 2550" using assms(2) by (simp add: lq_wf_def)
    ultimately have "(lq_ewma_x10 q * 7 + a mod 256 * 10 mod 65536) div 8 \<le> 2550" by simp
    then show ?thesis by (rule order_trans [OF mod_less_eq_dividend])
  qed
  moreover have "lq_ewma_x10 (link_quality_shift_window cfg b q) = lq_ewma_x10 q"
    by (simp add: link_quality_shift_window_def Let_def)
  ultimately show ?thesis
    using shift_wf [OF assms, of b] by (simp add: link_quality_record_def Let_def)
qed

lemma link_wf_degraded: "link_wf cfg l \<Longrightarrow> link_wf cfg (degraded_check cfg now l)"
  by (auto simp: degraded_check_def Let_def tr_wf_def intro!: link_wf_tr link_wf_hop hop_wf_degraded)

lemma link_wf_success:
  assumes c: "kconfig_ok cfg" and "link_wf cfg l"
  shows "link_wf cfg (on_tx_success cfg now a l)"
proof -
  have r: "link_wf cfg (record_success cfg now a k)" if "link_wf cfg k" for k
    using that record_wf [OF c, of "lq (tr k)"]
    by (auto simp: record_success_def split_beta Let_def tr_wf_def intro!: link_wf_degraded link_wf_tr)
  show ?thesis
    unfolding on_tx_success_def Let_def using assms(2)
    by (auto intro!: link_wf_consume_motion link_wf_consume_override r link_wf_hop link_wf_tr hop_wf_tx_success)
      (simp_all add: tr_wf_def)
qed

lemma link_wf_failed:
  assumes c: "kconfig_ok cfg" and l: "link_wf cfg l"
  shows "link_wf cfg (on_tx_failed cfg now l)"
proof -
  have t: "link_wf cfg (fail_window cfg now k)" "link_wf cfg (weak_link cfg now k)" if "link_wf cfg k" for k
    using that by (auto simp: fail_window_def weak_link_def Let_def tr_wf_def
        intro!: link_wf_tr link_wf_hop hop_wf_tx_fail)
  have s: "tr_wf cfg t \<Longrightarrow> tr_wf cfg (t\<lparr>noack_ring := snd (consume_flag (noack_ring t)),
              lq := link_quality_shift_window cfg True (lq t)\<rparr>)" for t
    using shift_wf [OF c, of "lq t"] by (simp add: tr_wf_def)
  show ?thesis
    unfolding on_tx_failed_def Let_def using l
    by (auto intro!: link_wf_flush link_wf_consume_motion link_wf_consume_override t link_wf_tr s link_wf_radio r_flush)
      (simp_all add: tr_wf_def)
qed

lemma rx_publish_wf: "tr_wf cfg t \<Longrightarrow> tr_wf cfg (rx_publish cfg p t)"
  by (auto simp: rx_publish_def tr_wf_def Let_def dest: set_update_subset_insert [THEN subsetD])

lemma rx_drain_wf:
  "tr_wf cfg t \<Longrightarrow> esb_wf cfg s \<Longrightarrow> esb_down s \<Longrightarrow>
     tr_wf cfg (fst (rx_drain cfg (t, s))) \<and> esb_wf cfg (snd (rx_drain cfg (t, s))) \<and> esb_down (snd (rx_drain cfg (t, s)))"
proof (induction cfg "(t, s)" arbitrary: t s rule: rx_drain.induct)
  case (1 cfg t s)
  have w: "esb_wf cfg (snd (esb_read_rx_payload s))" "esb_down (snd (esb_read_rx_payload s))"
    using "1.prems" radio_step_wf [OF r_read] radio_step_down [OF r_read] by blast+
  show ?case
  proof (cases "fst (esb_read_rx_payload s)")
    case (Inl e)
    with "1.prems" w show ?thesis by (subst (1 2 3) rx_drain.simps) (simp add: split_beta)
  next
    case (Inr p)
    then have "(Inr p, snd (esb_read_rx_payload s)) = esb_read_rx_payload s" by (metis surjective_pairing)
    with Inr "1.hyps" [of "fst (esb_read_rx_payload s)" "snd (esb_read_rx_payload s)" p] "1.prems" w rx_publish_wf
    show ?thesis by (subst (1 2 3) rx_drain.simps) (simp add: split_beta)
  qed
qed

lemma link_wf_event:
  assumes "kconfig_ok cfg" "link_wf cfg l"
  shows "link_wf cfg (zmk_esb_transport_evt_cb cfg now ev l)"
proof (cases ev)
  case Rx_Received
  with rx_drain_wf [of cfg "tr l" "radio l"] assms(2) show ?thesis
    by (simp add: zmk_esb_transport_evt_cb_def split_beta link_wf_def)
qed (use assms in \<open>auto simp: zmk_esb_transport_evt_cb_def tr_wf_def
      intro!: link_wf_success link_wf_failed link_wf_tr\<close>)

lemma link_wf_interrupt:
  assumes "kconfig_ok cfg" "link_wf cfg l"
  shows "link_wf cfg (esb_event_interrupt cfg now l)"
proof -
  have "link_wf cfg (fold (zmk_esb_transport_evt_cb cfg now) evs k)" if "link_wf cfg k" for evs k
    using that by (induction evs arbitrary: k) (auto intro: link_wf_event [OF assms(1)])
  moreover have "link_wf cfg (l\<lparr>radio := snd (esb_evt_irq_handler (radio l))\<rparr>)"
    using assms(2) by (rule link_wf_radio_set) (rule r_event)
  ultimately show ?thesis by (simp add: esb_event_interrupt_def split_beta)
qed

section \<open>Properties\<close>

lemma rx_read:
  assumes "fifo_wf (rx_fifo s)" "esb_initialized s" "0 < fcount (rx_fifo s)"
  shows "esb_read_rx_payload s = (Inr (hd (fifo_list (rx_fifo s))), s\<lparr>rx_fifo := fifo_drop (rx_fifo s)\<rparr>)"
    and "fifo_wf (fifo_drop (rx_fifo s))" and "fifo_list (fifo_drop (rx_fifo s)) = tl (fifo_list (rx_fifo s))"
  using assms fifo_drop_law [of "rx_fifo s"] fifo_list_hd [of "rx_fifo s"] hd_conv_nth [of "fifo_list (rx_fifo s)"]
  by (simp_all add: esb_read_rx_payload_def)

lemma rx_drain_law:
  assumes "fifo_wf (rx_fifo s)" "esb_initialized s" "fifo_list (rx_fifo s) = fs"
  shows "fst (rx_drain cfg (t, s)) = fold (rx_publish cfg) fs t
    \<and> fcount (rx_fifo (snd (rx_drain cfg (t, s)))) = 0 \<and> tx_fifo (snd (rx_drain cfg (t, s))) = tx_fifo s"
  using assms
proof (induction fs arbitrary: t s)
  case Nil
  then have "fcount (rx_fifo s) = 0" by (metis fifo_list_nil_iff)
  with Nil show ?case by (subst (1 2 3) rx_drain.simps) (simp add: esb_read_rx_payload_def)
next
  case (Cons f fs)
  then have "0 < fcount (rx_fifo s)" by (metis fifo_list_nil_iff list.distinct(1) neq0_conv)
  note r = rx_read [OF Cons.prems(1,2) this]
  have "rx_drain cfg (t, s) = rx_drain cfg (rx_publish cfg f t, s\<lparr>rx_fifo := fifo_drop (rx_fifo s)\<rparr>)"
    by (subst rx_drain.simps) (simp add: r(1) Cons.prems(3))
  with Cons.IH [of "s\<lparr>rx_fifo := fifo_drop (rx_fifo s)\<rparr>" "rx_publish cfg f t"] r(2,3) Cons.prems
  show ?case by simp
qed

text \<open>
  Draining the radio: after a reception event the radio's queue is empty, and the mailbox
  holds the last frame received; earlier frames of the same event are overwritten. The slot the
  consumer last saw is only reused by the second frame after it.
\<close>

lemma rx_mailbox_latest:
  assumes "link_wf cfg l" and "esb_initialized (radio l)"
    and "fifo_list (rx_fifo (radio l)) = fs @ [f]" and "0 < length (pl_data f)" "length (pl_data f) \<le> c_max_payload cfg"
  shows "let l' = zmk_esb_transport_evt_cb cfg now Rx_Received l in
     fcount (rx_fifo (radio l')) = 0 \<and> rx_slots (tr l') ! rx_active (tr l') = pl_data f
   \<and> t_wq (tr l') W_rx = Some 0 \<and> tx_fifo (radio l') = tx_fifo (radio l)
   \<and> (fs = [] \<longrightarrow> rx_slots (tr l') ! rx_active (tr l) = rx_slots (tr l) ! rx_active (tr l))"
proof -
  have w: "fifo_wf (rx_fifo (radio l))" "tr_wf cfg (tr l)" using assms(1) by (simp_all add: link_wf_def esb_wf_def)
  have keep: "length (rx_slots (fold (rx_publish cfg) gs t)) = 2" if "length (rx_slots t) = 2" for gs t
    using that by (induction gs arbitrary: t) (simp_all add: rx_publish_def Let_def)
  have len: "length (rx_slots (fold (rx_publish cfg) fs (tr l))) = 2" using w(2) by (intro keep) (simp add: tr_wf_def)
  have act: "rx_active (tr l) < 2" using w(2) by (simp add: tr_wf_def)
  have ne: "Suc a mod 2 \<noteq> a" for a by presburger
  have pub: "rx_slots (rx_publish cfg f t) ! rx_active (rx_publish cfg f t) = pl_data f
      \<and> t_wq (rx_publish cfg f t) W_rx = Some 0
      \<and> (rx_active t < 2 \<longrightarrow> rx_slots (rx_publish cfg f t) ! rx_active t = rx_slots t ! rx_active t)"
    if "length (rx_slots t) = 2" for t
    using assms(4,5) that by (auto simp: rx_publish_def Let_def nth_list_update ne)
  show ?thesis
    using rx_drain_law [OF w(1) assms(2,3), of cfg "tr l"] pub [OF len] act
    by (cases "fs = []") (simp_all add: zmk_esb_transport_evt_cb_def split_beta Let_def)
qed

text \<open>The state of the C variables at boot.\<close>

definition transport_boot :: "kconfig \<Rightarrow> transport" where
  "transport_boot cfg = \<lparr>t_has_cb = False, a_base0 = replicate 4 0, a_base1 = replicate 4 0,
     a_prefixes = replicate 8 0, t_channel = 0, boot_channel = 0, t_configured = False,
     sync_in_progress = False, sync_success = False, sync_sem = 0, rx_slots = [[], []], rx_active = 0,
     tx_ok_count = 0, tx_fail_count = 0, tx_retried_count = 0, tx_exhausted_count = 0,
     consecutive_fail = 0, hid_tx_count = 0, hid_bucket_count = 0, hid_bucket_ms = 0, hid_rate_hz = 0,
     crit_ring = \<lparr>rslots = replicate (c_crit_ring cfg) False, rhead = 0, rtail = 0\<rparr>,
     noack_ring = \<lparr>rslots = replicate (c_noack_ring cfg) False, rhead = 0, rtail = 0\<rparr>,
     mot = \<lparr>mring = \<lparr>rslots = replicate (c_motion_ring cfg)
                         \<lparr>mr_motion = zero_motion, mr_overrode = False, mr_kind = KIND_NONE\<rparr>,
                      rhead = 0, rtail = 0\<rparr>, refund = no_refund, inflight = 0\<rparr>,
     resync_pending = 0, resync_cbs = [], adaptive_count = c_retransmit_count cfg,
     first_fail_ms = 0, last_success_ms = 0, busy_streak = 0, quiet_until = 0,
     lq = lq_reset\<lparr>lq_ewma_x10 := 0\<rparr>, degraded_armed = False, last_activity_ms = 0,
     activity_seen = False, last_tx_event_ms = 0, jitter_rng = 0, peer_rssi_last = 0,
     peer_rssi_ewma = 0, peer_rssi_valid = False, bt_suspended = False, hfxo_held = False,
     t_wq = no_work\<rparr>"

lemma transport_boot_wf: "kconfig_ok cfg \<Longrightarrow> tr_wf cfg (transport_boot cfg)"
  by (simp add: tr_wf_def transport_boot_def kconfig_ok_def refund_wf_def no_refund_def lq_wf_def lq_reset_def
      lq_history_def)

definition up_link :: link where
  "up_link = \<lparr>tr = (transport_boot default_kconfig)\<lparr>t_configured := True, t_channel := 40, boot_channel := 40\<rparr>,
     radio = up_esb, hopm = idle_hop, bn = bench_boot\<rparr>"

lemma up_link_parts [simp]: "radio up_link = up_esb" "hopm up_link = idle_hop" "bn up_link = bench_boot"
  "\<not> sync_in_progress (tr up_link)" "t_configured (tr up_link)" "t_channel (tr up_link) = 40"
  "quiet_until (tr up_link) = 0" "consecutive_fail (tr up_link) = 0" "last_success_ms (tr up_link) = 0"
  by (simp_all add: up_link_def transport_boot_def)

lemma up_link_wf: "link_wf default_kconfig up_link"
proof -
  have "tr_wf default_kconfig (tr up_link)"
    using transport_boot_wf [OF kconfig_ok_default] by (simp add: up_link_def tr_wf_def)
  then show ?thesis
    using up_esb_wf idle_hop_wf by (simp add: link_wf_def esb_down_def)
qed

section \<open>What the bookkeeping leaves alone\<close>

text \<open>The transport without the rings, the pending resync and its work items.\<close>

definition tr_core :: "transport \<Rightarrow> transport" where
  "tr_core t = t\<lparr>noack_ring := \<lparr>rslots = [], rhead = 0, rtail = 0\<rparr>, crit_ring := \<lparr>rslots = [], rhead = 0, rtail = 0\<rparr>,
     mot := \<lparr>mring = \<lparr>rslots = [], rhead = 0, rtail = 0\<rparr>, refund = no_refund, inflight = 0\<rparr>,
     resync_pending := 0, t_wq := no_work\<rparr>"

lemma core_fields:
  assumes "tr_core t' = tr_core t"
  shows "consecutive_fail t' = consecutive_fail t" "first_fail_ms t' = first_fail_ms t"
    "last_success_ms t' = last_success_ms t" "sync_in_progress t' = sync_in_progress t"
    "quiet_until t' = quiet_until t" "t_channel t' = t_channel t" "boot_channel t' = boot_channel t"
    "t_configured t' = t_configured t" "lq t' = lq t" "resync_cbs t' = resync_cbs t"
    "sync_sem t' = sync_sem t" "sync_success t' = sync_success t" "busy_streak t' = busy_streak t"
    "adaptive_count t' = adaptive_count t" "degraded_armed t' = degraded_armed t"
  using arg_cong [OF assms, of consecutive_fail] arg_cong [OF assms, of first_fail_ms]
    arg_cong [OF assms, of last_success_ms] arg_cong [OF assms, of sync_in_progress]
    arg_cong [OF assms, of quiet_until] arg_cong [OF assms, of t_channel] arg_cong [OF assms, of boot_channel]
    arg_cong [OF assms, of t_configured] arg_cong [OF assms, of lq] arg_cong [OF assms, of resync_cbs]
    arg_cong [OF assms, of sync_sem] arg_cong [OF assms, of sync_success] arg_cong [OF assms, of busy_streak]
    arg_cong [OF assms, of adaptive_count] arg_cong [OF assms, of degraded_armed]
  by (simp_all add: tr_core_def)

lemma core_updates [simp]:
  "tr_core (t\<lparr>noack_ring := r\<rparr>) = tr_core t" "tr_core (t\<lparr>crit_ring := r\<rparr>) = tr_core t"
  "tr_core (t\<lparr>mot := m\<rparr>) = tr_core t" "tr_core (t\<lparr>resync_pending := k\<rparr>) = tr_core t"
  "tr_core (hid_resync_request cfg k t) = tr_core t"
  by (simp_all add: tr_core_def hid_resync_request_def)

lemma core_bookkeeping [simp]:
  "tr_core (tr (consume_motion cfg now failed l)) = tr_core (tr l)"
  "tr_core (tr (tx_bookkeeping_resync cfg l)) = tr_core (tr l)"
  "tr_core (tr (esb_flush_tx_and_reset cfg l)) = tr_core (tr l)"
  "tr_core (tr (esb_restore_tx_or_drop cfg l)) = tr_core (tr l)"
  by (simp_all add: consume_motion_def tx_bookkeeping_resync_def esb_flush_tx_and_reset_def
      esb_restore_tx_or_drop_def split_beta Let_def split: sum.split)

lemma hop_bookkeeping [simp]:
  "hopm (consume_motion cfg now failed l) = hopm l" "hopm (tx_bookkeeping_resync cfg l) = hopm l"
  "hopm (esb_flush_tx_and_reset cfg l) = hopm l" "hopm (esb_restore_tx_or_drop cfg l) = hopm l"
  "bn (consume_motion cfg now failed l) = bn l" "bn (tx_bookkeeping_resync cfg l) = bn l"
  "bn (esb_flush_tx_and_reset cfg l) = bn l" "bn (esb_restore_tx_or_drop cfg l) = bn l"
  by (simp_all add: consume_motion_def tx_bookkeeping_resync_def esb_flush_tx_and_reset_def
      esb_restore_tx_or_drop_def split_beta Let_def split: sum.split)

lemma resync_parts:
  "mot (tr (tx_bookkeeping_resync cfg l)) = motion_drop_all (mot (tr l))"
  "noack_ring (tr (tx_bookkeeping_resync cfg l)) = ring_snap (noack_ring (tr l))"
  "crit_ring (tr (tx_bookkeeping_resync cfg l)) = ring_snap (crit_ring (tr l))"
  "resync_pending (tr (tx_bookkeeping_resync cfg l)) = resync_pending (tr l) OR harvest_kinds (mring (mot (tr l)))"
  "harvest_kinds (mring (mot (tr l))) \<noteq> 0 \<Longrightarrow> t_wq (tr (tx_bookkeeping_resync cfg l)) W_hid_resync \<noteq> None"
  "same_queue (radio l) (radio (tx_bookkeeping_resync cfg l))"
  using restore_count_parts(5) [of l] 
  by (auto simp: tx_bookkeeping_resync_def Let_def hid_resync_request_def on_tr_def restore_retransmit_count_def)

end
