(* ===== verification/Events.thy ===== *)
theory Events
  imports Transport
begin

text \<open>
  What the radio's events do across components (\<open>zmk_esb_transport_evt_cb\<close> of
  \<open>src/src/esb/esb_transport.c\<close>): when failures ask the hop manager for a hop, what happens to the
  motion and the HID reports of packets that fail or are dropped, and when the degraded-link
  trigger of the cooperative hop fires.
\<close>

section \<open>Failure triggers\<close>

text \<open>One failed transmission, outside a side trip.\<close>

lemma failed_step:
  fixes cfg :: kconfig and now :: u32 and n :: nat
  assumes "\<not> sync_in_progress (tr l)"
  defines "l' \<equiv> zmk_esb_transport_evt_cb cfg now (Tx_Failed n) l" and "c \<equiv> consecutive_fail (tr l) + 1"
  defines "window \<equiv> c \<noteq> 1 \<and> first_fail_ms (tr l) \<noteq> 0 \<and> c_tx_fail_window_ms cfg \<le> now - first_fail_ms (tr l)"
    and "weak \<equiv> 0 < c_weak_link_ms cfg \<and> last_success_ms (tr l) \<noteq> 0 \<and> c_weak_link_ms cfg \<le> now - last_success_ms (tr l)"
  shows "hopm l' = (if weak then channel_hop_ep_on_tx_fail_isr cfg now else id)
      ((if window then channel_hop_ep_on_tx_fail_isr cfg now else id) (hopm l))"
    and "consecutive_fail (tr l') = c" and "sync_in_progress (tr l') = False"
    and "first_fail_ms (tr l') = (if c = 1 \<or> window then nz_stamp now else first_fail_ms (tr l))"
    and "last_success_ms (tr l') = (if weak then nz_stamp now else last_success_ms (tr l))"
proof -
  let ?l1 = "on_tr (\<lambda>t. t\<lparr>last_tx_event_ms := nz_stamp now, tx_fail_count := tx_fail_count t + 1,
      tx_exhausted_count := tx_exhausted_count t + 1, consecutive_fail := consecutive_fail t + 1\<rparr>) l"
  let ?l2 = "weak_link cfg now (fail_window cfg now ?l1)"
  let ?l3 = "on_tr (\<lambda>t. t\<lparr>noack_ring := snd (consume_flag (noack_ring t)),
                          lq := link_quality_shift_window cfg True (lq t)\<rparr>) ?l2"
  have eq: "hopm l' = hopm ?l2" "tr_core (tr l') = tr_core (tr ?l3)"
    using assms(1) by (simp_all add: l'_def zmk_esb_transport_evt_cb_def on_tx_failed_def Let_def on_tr_def)
  have l2: "hopm ?l2 = (if weak then channel_hop_ep_on_tx_fail_isr cfg now else id)
      ((if window then channel_hop_ep_on_tx_fail_isr cfg now else id) (hopm l))"
    "consecutive_fail (tr ?l2) = c" "\<not> sync_in_progress (tr ?l2)"
    "first_fail_ms (tr ?l2) = (if c = 1 \<or> window then nz_stamp now else first_fail_ms (tr l))"
    "last_success_ms (tr ?l2) = (if weak then nz_stamp now else last_success_ms (tr l))"
    using assms(1) by (auto simp: weak_link_def fail_window_def Let_def c_def window_def weak_def)
  show "hopm l' = (if weak then channel_hop_ep_on_tx_fail_isr cfg now else id)
      ((if window then channel_hop_ep_on_tx_fail_isr cfg now else id) (hopm l))"
    using eq(1) l2(1) by simp
  show "consecutive_fail (tr l') = c" "sync_in_progress (tr l') = False"
    "first_fail_ms (tr l') = (if c = 1 \<or> window then nz_stamp now else first_fail_ms (tr l))"
    "last_success_ms (tr l') = (if weak then nz_stamp now else last_success_ms (tr l))"
    using core_fields [OF eq(2)] l2(2-5) by simp_all
qed

definition failures :: "kconfig \<Rightarrow> u32 list \<Rightarrow> link \<Rightarrow> link" where
  "failures cfg ts l = fold (\<lambda>t. zmk_esb_transport_evt_cb cfg t (Tx_Failed (c_retransmit_count cfg + 1))) ts l"

lemma failures_inside_window:
  assumes "\<forall>t \<in> set ts. t - f < c_tx_fail_window_ms cfg" "f \<noteq> 0" "last_success_ms (tr l) = 0"
    "\<not> sync_in_progress (tr l)" "first_fail_ms (tr l) = f" "0 < unat (consecutive_fail (tr l))"
    "unat (consecutive_fail (tr l)) + length ts < 2 ^ 32"
  shows "hopm (failures cfg ts l) = hopm l \<and> first_fail_ms (tr (failures cfg ts l)) = f
    \<and> last_success_ms (tr (failures cfg ts l)) = 0 \<and> \<not> sync_in_progress (tr (failures cfg ts l))
    \<and> unat (consecutive_fail (tr (failures cfg ts l))) = unat (consecutive_fail (tr l)) + length ts"
  using assms
proof (induction ts arbitrary: l)
  case Nil
  then show ?case by (simp add: failures_def)
next
  case (Cons t ts)
  let ?l = "zmk_esb_transport_evt_cb cfg t (Tx_Failed (c_retransmit_count cfg + 1)) l"
  have c: "unat (consecutive_fail (tr l) + 1) = unat (consecutive_fail (tr l)) + 1"
    using Cons.prems(7) by (simp add: unat_word_ariths)
  then have ne: "consecutive_fail (tr l) + 1 \<noteq> 1" using Cons.prems(6) by (metis add_diff_cancel_right' add_left_imp_eq unat_0 less_irrefl add.commute add.right_neutral)
  have "\<not> c_tx_fail_window_ms cfg \<le> t - f" using Cons.prems(1) by (simp add: not_le)
  then have "hopm ?l = hopm l" "consecutive_fail (tr ?l) = consecutive_fail (tr l) + 1"
    "\<not> sync_in_progress (tr ?l)" "first_fail_ms (tr ?l) = f" "last_success_ms (tr ?l) = 0"
    using failed_step [of l cfg t "c_retransmit_count cfg + 1"] Cons.prems ne by simp_all
  with Cons.IH [of ?l] Cons.prems c show ?case by (simp add: failures_def)
qed

text \<open>
  C34. A streak of failures asks for a hop exactly when it has lasted the window: however many
  failures arrive inside the window (after a channel change or boot, when no success has been seen
  yet), the hop manager is not touched; the first one outside it submits a hop, when the manager
  is active and neither cooling down, nor holding, nor waiting for an offer.
\<close>

theorem fail_streak_requests_hop:
  assumes s: "\<not> sync_in_progress (tr l)" "consecutive_fail (tr l) = 0" "last_success_ms (tr l) = 0"
    and ts: "\<forall>t \<in> set ts. t - nz_stamp t0 < c_tx_fail_window_ms cfg" "length ts < 2 ^ 31"
    and late: "c_tx_fail_window_ms cfg \<le> t1 - nz_stamp t0"
    and h: "hop_active (hopm l)" "\<not> last_tx_was_offer (hopm l)" "hop_cooldown_until (hopm l) = 0"
      "rdv_hold_until (hopm l) = 0"
  shows "hopm (failures cfg (t0 # ts) l) = hopm l
    \<and> hopm (failures cfg (t0 # ts @ [t1]) l) = hop_submit W_hop (hopm l)"
proof -
  let ?n = "c_retransmit_count cfg + 1"
  let ?l0 = "zmk_esb_transport_evt_cb cfg t0 (Tx_Failed ?n) l"
  let ?l1 = "failures cfg ts ?l0"
  have l0: "hopm ?l0 = hopm l" "consecutive_fail (tr ?l0) = 1" "first_fail_ms (tr ?l0) = nz_stamp t0"
    "last_success_ms (tr ?l0) = 0" "\<not> sync_in_progress (tr ?l0)"
    using failed_step [OF s(1), of cfg t0 ?n] s by simp_all
  have l1: "hopm ?l1 = hopm l" "first_fail_ms (tr ?l1) = nz_stamp t0" "last_success_ms (tr ?l1) = 0"
    "\<not> sync_in_progress (tr ?l1)" "unat (consecutive_fail (tr ?l1)) = 1 + length ts"
    using failures_inside_window [of ts "nz_stamp t0" cfg ?l0] l0 ts by simp_all
  have "unat (consecutive_fail (tr ?l1) + 1) = 2 + length ts"
    using l1(5) ts(2) by (simp add: unat_word_ariths)
  then have "consecutive_fail (tr ?l1) + 1 \<noteq> 1" by auto
  then have "hopm (zmk_esb_transport_evt_cb cfg t1 (Tx_Failed ?n) ?l1) = channel_hop_ep_on_tx_fail_isr cfg t1 (hopm l)"
    using failed_step(1) [OF l1(4), of cfg t1 ?n] l1 late by simp
  also have "\<dots> = hop_submit W_hop (hopm l)"
    using h by (simp add: channel_hop_ep_on_tx_fail_isr_def tx_fail_hop_def hop_cooldown_active_def until_active_def)
  finally show ?thesis using l1(1) by (simp add: failures_def)
qed

theorem fail_streak_requests_hop_witness:
  "hop_wq (hopm (failures default_kconfig [1000, 1030, 1060, 1085] up_link)) W_hop = Some 0"
  using fail_streak_requests_hop [of up_link "[1030, 1060]" 1000 default_kconfig 1085]
  by (simp add: nz_stamp_def idle_hop_def hop_submit_def)

section \<open>Reports that die\<close>

text \<open>
  C35. A dropped queue is never silent: flushing empties the transmit queue and every per-send
  ring, counts nothing in flight, keeps the motion owed by earlier failures and everything parked,
  and the resync worker then calls every registered consumer once, with a mask that names the HID
  kind of every report that was dropped; a second run of the worker calls nobody.
\<close>

theorem flush_notifies_owners:
  fixes cfg :: kconfig
  assumes fit: "ring_fit (mring (mot (tr l)))" and i: "esb_initialized (radio l)"
    and rec: "rec \<in> set (ring_list (mring (mot (tr l))))" "mr_kind rec \<noteq> KIND_NONE"
  defines "l' \<equiv> esb_transport_flush_tx cfg l"
  defines "calls \<equiv> fst (hid_resync_work_fn (tr l'))" and "t' \<equiv> snd (hid_resync_work_fn (tr l'))"
  shows "tx_queue (radio l') = [] \<and> tx_stash (radio l') = tx_stash (radio l)
    \<and> ring_list (mring (mot (tr l'))) = [] \<and> ring_list (noack_ring (tr l')) = []
    \<and> ring_list (crit_ring (tr l')) = [] \<and> inflight (mot (tr l')) = 0
    \<and> refund (mot (tr l')) = refund (mot (tr l)) \<and> t_wq (tr l') W_hid_resync \<noteq> None
    \<and> map fst calls = resync_cbs (tr l) \<and> (\<forall>(cb, mask) \<in> set calls. bit mask (kind_no (mr_kind rec)))
    \<and> fst (hid_resync_work_fn t') = []"
proof -
  let ?f = "on_radio esb_flush_tx l"
  have l': "l' = tx_bookkeeping_resync cfg ?f"
    by (simp add: l'_def esb_transport_flush_tx_def esb_flush_tx_and_reset_def)
  have bit: "bit (harvest_kinds (mring (mot (tr l)))) (kind_no (mr_kind rec))"
    using harvest_bits [OF fit] rec by blast
  then have h: "harvest_kinds (mring (mot (tr l))) \<noteq> 0" by auto
  have p: "bit (resync_pending (tr l')) (kind_no (mr_kind rec))"
    using bit by (simp add: l' resync_parts bit_or_iff)
  then have "resync_pending (tr l') \<noteq> 0" by auto
  moreover have "resync_cbs (tr l') = resync_cbs (tr l)"
    using core_fields(10) [of "tr l'" "tr l"] by (simp add: l')
  ultimately have c: "calls = map (\<lambda>cb. (cb, resync_pending (tr l'))) (resync_cbs (tr l))"
    "t' = (tr l')\<lparr>resync_pending := 0\<rparr>"
    by (simp_all add: calls_def t'_def hid_resync_work_fn_def Let_def)
  have "map fst calls = resync_cbs (tr l)" by (simp add: c comp_def)
  moreover have "\<forall>(cb, mask) \<in> set calls. bit mask (kind_no (mr_kind rec))" using p by (auto simp: c)
  moreover have "tx_queue (radio l') = []" "tx_stash (radio l') = tx_stash (radio l)"
    using same_queueD [OF resync_parts(6) [of ?f cfg]] i by (simp_all add: l' esb_flush_tx_def)
  ultimately show ?thesis
    using resync_parts(5) [of ?f cfg] h
    by (simp add: l' resync_parts motion_drop_all_def) (simp add: c hid_resync_work_fn_def)
qed

text \<open>A link with a keyboard report in the queue, and its rings.\<close>

definition kb_sent :: motion_state where
  "kb_sent = motion_ring_push None False KIND_KB (mot (transport_boot default_kconfig))"

lemma kb_sent_list:
  "motion_wf default_kconfig kb_sent
   \<and> ring_list (mring kb_sent) = [\<lparr>mr_motion = zero_motion, mr_overrode = False, mr_kind = KIND_KB\<rparr>]"
proof -
  let ?m = "mot (transport_boot default_kconfig)"
  have "motion_wf default_kconfig ?m" "ring_list (mring ?m) = []" "ring_gap (mring ?m) = 0" "rhead (mring ?m) = 0"
    by (simp_all add: transport_boot_def motion_wf_def ring_fit_def ring_gap_def refund_wf_def no_refund_def moving_def ring_list_def)
  then show ?thesis
    using motion_push_law [of default_kconfig ?m None False KIND_KB] by (simp add: kb_sent_def)
qed

theorem flush_notifies_owners_witness:
  "let l = on_tr (\<lambda>t. t\<lparr>mot := kb_sent, resync_cbs := [7]\<rparr>) up_link
   in \<exists>mask. fst (hid_resync_work_fn (tr (esb_transport_flush_tx default_kconfig l))) = [(7, mask)] \<and> bit mask 1"
proof -
  let ?l = "on_tr (\<lambda>t. t\<lparr>mot := kb_sent, resync_cbs := [7]\<rparr>) up_link"
  let ?calls = "fst (hid_resync_work_fn (tr (esb_transport_flush_tx default_kconfig ?l)))"
  have "map fst ?calls = [7] \<and> (\<forall>(cb, mask) \<in> set ?calls. bit mask 1)"
    using flush_notifies_owners [of ?l "\<lparr>mr_motion = zero_motion, mr_overrode = False, mr_kind = KIND_KB\<rparr>" default_kconfig]
      kb_sent_list by (simp add: motion_wf_def)
  then show ?thesis by (auto simp: Let_def)
qed

lemma failed_unfold:
  assumes "\<not> sync_in_progress (tr l)"
  obtains k where "zmk_esb_transport_evt_cb cfg now (Tx_Failed n) l =
        (let l5 = consume_motion cfg now True k in if esb_tx_full (radio l5) then esb_flush_tx_and_reset cfg l5 else l5)"
    and "mot (tr k) = mot (tr l)" and "same_queue (radio l) (radio k)"
    and "noack_ring (tr k) = snd (consume_flag (noack_ring (tr l)))"
    and "crit_ring (tr k) = snd (consume_flag (crit_ring (tr l)))"
    and "resync_pending (tr k) = resync_pending (tr l)"
proof -
  let ?l1 = "on_tr (\<lambda>t. t\<lparr>last_tx_event_ms := nz_stamp now, tx_fail_count := tx_fail_count t + 1,
      tx_exhausted_count := tx_exhausted_count t + 1, consecutive_fail := consecutive_fail t + 1\<rparr>) l"
  let ?l2 = "weak_link cfg now (fail_window cfg now ?l1)"
  let ?l3 = "on_tr (\<lambda>t. t\<lparr>noack_ring := snd (consume_flag (noack_ring t)),
                          lq := link_quality_shift_window cfg True (lq t)\<rparr>) ?l2"
  let ?k = "consume_override (?l3\<lparr>bn := esb_bench_notify_tx_fail (bn ?l3)\<rparr>)"
  have l2: "mot (tr ?l2) = mot (tr l)" "radio ?l2 = radio l" "noack_ring (tr ?l2) = noack_ring (tr l)"
    "crit_ring (tr ?l2) = crit_ring (tr l)" "resync_pending (tr ?l2) = resync_pending (tr l)"
    by (simp_all add: weak_link_def fail_window_def Let_def)
  have "same_queue (radio (?l3\<lparr>bn := esb_bench_notify_tx_fail (bn ?l3)\<rparr>)) (radio ?k)"
    by (rule consume_override_parts(4))
  then have "same_queue (radio l) (radio ?k)" using l2(2) by simp
  moreover have "zmk_esb_transport_evt_cb cfg now (Tx_Failed n) l =
        (let l5 = consume_motion cfg now True ?k in if esb_tx_full (radio l5) then esb_flush_tx_and_reset cfg l5 else l5)"
    using assms by (simp add: zmk_esb_transport_evt_cb_def on_tx_failed_def Let_def on_tr_def)
  ultimately show ?thesis using l2 by (intro that [of ?k]) simp_all
qed

lemma failed_law:
  assumes s: "\<not> sync_in_progress (tr l)" and full: "\<not> esb_tx_full (radio l)"
    and w: "motion_wf cfg (mot (tr l))" and ne: "ring_list (mring (mot (tr l))) = rec # rs"
    and m: "motion_ok (mr_motion rec)" and r: "refund (mot (tr l)) = no_refund"
  shows "let t' = tr (zmk_esb_transport_evt_cb cfg now (Tx_Failed n) l) in
      ring_list (mring (mot t')) = rs \<and> rf_motion (refund (mot t')) = mr_motion rec
    \<and> inflight (mot t') = moving rs
    \<and> (mr_kind rec \<noteq> KIND_NONE \<longrightarrow> bit (resync_pending t') (kind_no (mr_kind rec)) \<and> t_wq t' W_hid_resync \<noteq> None)"
proof -
  obtain kind restore m' where c: "motion_ring_consume now True (mot (tr l)) = ((kind, restore), m')"
    by (metis surjective_pairing)
  note acc = consume_law [OF w ne _ c]
  have b: "\<forall>f \<in> {dx, dy, scroll_x, scroll_y}. \<bar>f (rf_motion (refund (mot (tr l))))\<bar> \<le> 2 ^ 30 \<and> \<bar>f (mr_motion rec)\<bar> \<le> 2 ^ 15"
    using m r by (auto simp: no_refund_def motion_ok_def in_i16_def)
  obtain k where k: "zmk_esb_transport_evt_cb cfg now (Tx_Failed n) l =
        (let l5 = consume_motion cfg now True k in if esb_tx_full (radio l5) then esb_flush_tx_and_reset cfg l5 else l5)"
    and mk: "mot (tr k) = mot (tr l)" and rk: "same_queue (radio l) (radio k)"
    by (rule failed_unfold [OF s])
  have ck: "motion_ring_consume now True (mot (tr k)) = ((kind, restore), m')" using c mk by simp
  note parts = consume_motion_parts [OF ck, of cfg]
  have "\<not> esb_tx_full (radio (consume_motion cfg now True k))"
    using full same_queueD(8) [OF same_queue_trans [OF rk parts(4)]] by simp
  then have eq: "tr (zmk_esb_transport_evt_cb cfg now (Tx_Failed n) l) = tr (consume_motion cfg now True k)"
    by (simp add: k Let_def)
  have a: "ring_list (mring m') = rs" "inflight m' = moving rs" "kind = mr_kind rec"
    "\<forall>f \<in> {dx, dy, scroll_x, scroll_y}. f (rf_motion (refund m')) = f (mr_motion rec)"
    using acc [OF b] r by (simp_all add: no_refund_def)
  have "rf_motion (refund m') = mr_motion rec" using a(4) by (cases "mr_motion rec"; cases "rf_motion (refund m')") simp
  moreover have "bit (kind_bit kind) (kind_no kind)" by (simp add: kind_bit_iff)
  ultimately show ?thesis
    using a unfolding eq parts(1)
    by (auto simp: Let_def hid_resync_request_def bit_or_iff split: option.splits)
qed

text \<open>
  A report that fails its last retry is accounted for: its record leaves the motion ring, its
  motion goes back to the refund pool, and if it was a HID report its kind is pending for resync
  with the worker scheduled.
\<close>

lemma failed_report_accounted:
  assumes s: "\<not> sync_in_progress (tr l)" and full: "\<not> esb_tx_full (radio l)"
    and w: "motion_wf cfg (mot (tr l))" and ne: "ring_list (mring (mot (tr l))) = rec # rs"
    and m: "motion_ok (mr_motion rec)" and r: "refund (mot (tr l)) = no_refund"
  shows "let t' = tr (zmk_esb_transport_evt_cb cfg now (Tx_Failed n) l) in
      ring_list (mring (mot t')) = rs \<and> rf_motion (refund (mot t')) = mr_motion rec
    \<and> inflight (mot t') = moving rs
    \<and> (mr_kind rec \<noteq> KIND_NONE \<longrightarrow> bit (resync_pending t') (kind_no (mr_kind rec)) \<and> t_wq t' W_hid_resync \<noteq> None)"
  by (rule failed_law [OF assms])

section \<open>The degraded-link trigger\<close>

definition deliveries :: "kconfig \<Rightarrow> (u32 \<times> nat) list \<Rightarrow> link \<Rightarrow> link" where
  "deliveries cfg es l = fold (\<lambda>(t, a). record_success cfg t a) es l"

lemma record_success_armed:
  assumes "degraded_armed (tr l)"
  shows "hopm (record_success cfg t a l) = hopm l
    \<and> (degraded_armed (tr (record_success cfg t a l)) \<or>
         lq_count (lq (tr (record_success cfg t a l))) \<le> c_degraded_rearm cfg)"
  using assms by (simp add: record_success_def degraded_check_def split_beta Let_def)

text \<open>
  C36. The degraded-link trigger has hysteresis: once it has fired it stays silent, whatever is
  delivered, until the count of retried packets has been at or below the re-arm level; and a
  delivery that brings the window to the threshold while it is not armed fires the hook of the
  cooperative hop and arms it.
\<close>

theorem degraded_trigger_hysteresis:
  assumes "\<forall>n \<in> {1..length es}. c_degraded_rearm cfg < lq_count (lq (tr (deliveries cfg (take n es) l)))"
  shows "(degraded_armed (tr l) \<longrightarrow>
      hopm (deliveries cfg es l) = hopm l \<and> degraded_armed (tr (deliveries cfg es l)))
    \<and> (\<not> degraded_armed (tr l) \<and> ring_list (noack_ring (tr l)) = [] \<and>
         c_degraded_threshold cfg \<le> lq_count (lq (tr (record_success cfg t a l))) \<longrightarrow>
       hopm (record_success cfg t a l) = channel_hop_ep_on_link_degraded_isr t (hopm l)
     \<and> degraded_armed (tr (record_success cfg t a l)))"
proof (intro conjI impI)
  assume "\<not> degraded_armed (tr l) \<and> ring_list (noack_ring (tr l)) = [] \<and>
         c_degraded_threshold cfg \<le> lq_count (lq (tr (record_success cfg t a l)))"
  then show "hopm (record_success cfg t a l) = channel_hop_ep_on_link_degraded_isr t (hopm l)"
    "degraded_armed (tr (record_success cfg t a l))"
    by (auto simp: record_success_def consume_flag_def degraded_check_def degraded_fires_def split_beta Let_def
        split: if_splits)
next
  assume armed: "degraded_armed (tr l)"
  have "hopm (deliveries cfg es l) = hopm l \<and> degraded_armed (tr (deliveries cfg es l))"
    using assms
  proof (induction es rule: rev_induct)
    case Nil
    then show ?case using armed by (simp add: deliveries_def)
  next
    case (snoc e es)
    have "\<forall>n \<in> {1..length es}. c_degraded_rearm cfg < lq_count (lq (tr (deliveries cfg (take n es) l)))"
    proof
      fix n assume "n \<in> {1..length es}"
      with snoc.prems [THEN bspec, of n] show "c_degraded_rearm cfg < lq_count (lq (tr (deliveries cfg (take n es) l)))"
        by simp
    qed
    then have ih: "hopm (deliveries cfg es l) = hopm l" "degraded_armed (tr (deliveries cfg es l))"
      using snoc.IH by simp_all
    have step: "deliveries cfg (es @ [e]) l = record_success cfg (fst e) (snd e) (deliveries cfg es l)"
      by (simp add: deliveries_def split_beta)
    have "c_degraded_rearm cfg < lq_count (lq (tr (deliveries cfg (es @ [e]) l)))"
      using snoc.prems [THEN bspec, of "length es + 1"] by simp
    with record_success_armed [OF ih(2), of cfg "fst e" "snd e"] ih(1) step show ?case by auto
  qed
  then show "hopm (deliveries cfg es l) = hopm l" "degraded_armed (tr (deliveries cfg es l))" by simp_all
qed

theorem degraded_trigger_hysteresis_witness:
  "hopm (deliveries default_kconfig [(5, 1)] (on_tr (\<lambda>t. t\<lparr>lq := \<lparr>lq_window = 0xF0, lq_count = 4, lq_ewma_x10 = 20\<rparr>,
     degraded_armed := True\<rparr>) up_link)) = idle_hop"
proof -
  let ?l = "on_tr (\<lambda>t. t\<lparr>lq := \<lparr>lq_window = 0xF0, lq_count = 4, lq_ewma_x10 = 20\<rparr>, degraded_armed := True\<rparr>) up_link"
  have "lq_count (lq (tr (deliveries default_kconfig [(5, 1)] ?l))) = 4"
    by (simp add: deliveries_def record_success_def consume_flag_def ring_nonempty_def transport_boot_def up_link_def
        on_tr_def degraded_check_def degraded_fires_def link_quality_record_def link_quality_shift_window_def Let_def
        drop_bit_eq_div on_hop_def)
  then show ?thesis
    using degraded_trigger_hysteresis [of "[(5, 1)]" default_kconfig ?l] by simp
qed

section \<open>What a failure does to the lockstep of rings and queue\<close>

text \<open>
  The library keeps a packet that failed at the front of its queue, and sends it again with the
  next start, but the event has already consumed its ring record and refunded its motion: the
  motion is then carried twice, and the rings are one entry short of the queue.
\<close>

lemma failed_radio:
  assumes s: "\<not> sync_in_progress (tr l)" and full: "\<not> esb_tx_full (radio l)"
  shows "same_queue (radio l) (radio (zmk_esb_transport_evt_cb cfg now (Tx_Failed n) l))"
proof -
  obtain k where k: "zmk_esb_transport_evt_cb cfg now (Tx_Failed n) l =
        (let l5 = consume_motion cfg now True k in if esb_tx_full (radio l5) then esb_flush_tx_and_reset cfg l5 else l5)"
    and rk: "same_queue (radio l) (radio k)"
    by (rule failed_unfold [OF s])
  obtain kind restore m where "motion_ring_consume now True (mot (tr k)) = ((kind, restore), m)"
    by (metis surjective_pairing)
  from consume_motion_parts(4) [OF this]
  have q: "same_queue (radio l) (radio (consume_motion cfg now True k))"
    by (rule same_queue_trans [OF rk])
  then show ?thesis using full same_queueD(8) [OF q] by (simp add: k Let_def)
qed

lemma failure_breaks_lockstep:
  fixes now :: u32
  assumes s: "\<not> sync_in_progress (tr l)" and full: "\<not> esb_tx_full (radio l)"
    and w: "motion_wf cfg (mot (tr l))" and ne: "ring_list (mring (mot (tr l))) = rec # rs"
    and m: "motion_ok (mr_motion rec)" and r: "refund (mot (tr l)) = no_refund"
    and st: "retransmits_remaining (radio l) = 0"
      "\<not> int_tx_success (radio l)" "\<not> int_tx_failed (radio l)" "\<not> int_rx_received (radio l)"
  defines "l1 \<equiv> l\<lparr>radio := on_radio_disabled_tx_wait_for_ack cfg None (radio l)\<rparr>"
  defines "l2 \<equiv> esb_event_interrupt cfg now l1"
  shows "tx_queue (radio l2) = tx_queue (radio l) \<and> ring_list (mring (mot (tr l2))) = rs
    \<and> rf_motion (refund (mot (tr l2))) = mr_motion rec"
proof -
  let ?n = "ec_retransmit_count (esb_cfg (radio l)) + 1"
  let ?k = "l\<lparr>radio := snd (esb_evt_irq_handler (radio l1))\<rparr>"
  have l2: "l2 = zmk_esb_transport_evt_cb cfg now (Tx_Failed ?n) ?k"
    using st by (simp add: l2_def l1_def esb_event_interrupt_def esb_evt_irq_handler_def
        on_radio_disabled_tx_wait_for_ack_def)
  have k: "tx_queue (radio ?k) = tx_queue (radio l)" "\<not> esb_tx_full (radio ?k)"
    using st full by (simp_all add: l1_def esb_evt_irq_handler_def on_radio_disabled_tx_wait_for_ack_def esb_tx_full_def)
  show ?thesis
    using failed_law [of ?k cfg rec rs now ?n] same_queueD(1) [OF failed_radio [of ?k cfg now ?n]] s w ne m r k
    by (simp add: l2 Let_def)
qed

end
