(* ===== verification/Sending.thy ===== *)
theory Sending
  imports Transport
begin

text \<open>
  The calls of \<open>src/src/esb/esb_transport.c\<close> made from threads: sending a frame, changing the
  channel, the blocking side trip, the getters, and the start and stop of the radio slot. Each
  runs under the scheduler lock, so it is one step; the radio's interrupts come in between.
\<close>

section \<open>Quiet periods and back-pressure\<close>

definition esb_transport_is_quiet :: "u32 \<Rightarrow> transport \<Rightarrow> bool" where
  "esb_transport_is_quiet now t \<longleftrightarrow>
     sync_in_progress t \<or> quiet_until t \<noteq> 0 \<and> before_deadline (quiet_until t) now"

definition esb_transport_shell_backpressure :: "kconfig \<Rightarrow> link \<Rightarrow> bool" where
  "esb_transport_shell_backpressure cfg l \<longleftrightarrow> c_tx_fifo cfg div 2 \<le> esb_tx_count (radio l)"

definition esb_transport_pointer_backpressure :: "kconfig \<Rightarrow> transport \<Rightarrow> bool" where
  "esb_transport_pointer_backpressure cfg t \<longleftrightarrow> c_inflight_cap cfg \<le> inflight (mot t)"

definition esb_transport_get_hid_tx_stats :: "u32 \<Rightarrow> transport \<Rightarrow> u32 \<times> nat" where
  "esb_transport_get_hid_tx_stats now t = (hid_tx_count t,
     if hid_bucket_ms t = 0 \<or> 2000 < now - hid_bucket_ms t then 0 else hid_rate_hz t)"

definition esb_transport_on_rx_link_stats :: "kconfig \<Rightarrow> bytes \<Rightarrow> link \<Rightarrow> link" where
  "esb_transport_on_rx_link_stats cfg data l =
     (if length data < 3 then l
      else on_hop (channel_hop_ep_note_peer_rssi cfg (t_channel (tr l)) (as_i8 (data ! 2)))
             (on_tr (\<lambda>t. t\<lparr>peer_rssi_last := as_i8 (data ! 1), peer_rssi_ewma := as_i8 (data ! 2),
                           peer_rssi_valid := True\<rparr>) l))"

definition esb_transport_get_peer_rssi :: "transport \<Rightarrow> (int \<times> int) option" where
  "esb_transport_get_peer_rssi t =
     (if \<not> peer_rssi_valid t then None else Some (peer_rssi_last t, peer_rssi_ewma t))"

definition esb_transport_reset_consecutive_fail :: "transport \<Rightarrow> transport" where
  "esb_transport_reset_consecutive_fail t = t\<lparr>consecutive_fail := 0\<rparr>"

section \<open>Addresses and life cycle\<close>

definition esb_transport_set_addresses :: "bytes \<Rightarrow> bytes \<Rightarrow> bytes \<Rightarrow> nat \<Rightarrow> transport \<Rightarrow> transport" where
  "esb_transport_set_addresses b0 b1 pfx channel t =
     t\<lparr>a_base0 := b0, a_base1 := b1, a_prefixes := pfx, t_channel := channel,
       boot_channel := channel, t_configured := True\<rparr>"

definition esb_transport_init :: "transport \<Rightarrow> transport" where
  "esb_transport_init t = t\<lparr>t_has_cb := True, t_wq := no_work, sync_sem := 0,
     lq := (lq t)\<lparr>lq_ewma_x10 := 10\<rparr>\<rparr>"

definition esb_transport_deinit :: "transport \<Rightarrow> transport" where
  "esb_transport_deinit t = t\<lparr>t_configured := False\<rparr>"

definition esb_init_and_configure :: "kconfig \<Rightarrow> rc \<Rightarrow> rc \<Rightarrow> link \<Rightarrow> rc \<times> link" where
  "esb_init_and_configure cfg timer_rc ppi_rc l =
     (let config = \<lparr>ec_retransmit_count = c_retransmit_count cfg,
            ec_retransmit_delay = c_retransmit_delay_us cfg,
            ec_selective_auto_ack = c_hid_noack cfg, ec_tx_auto = True\<rparr>;
          (r, s) = esb_init config timer_rc ppi_rc (radio l); t = tr l
      in case r of
           Err e \<Rightarrow> (Err e, l\<lparr>radio := s\<rparr>)
         | OK \<Rightarrow> (OK, if t_configured t
             then on_radio (esb_set_rf_channel (t_channel t))
                    (on_radio (esb_set_prefixes cfg (a_prefixes t) 2)
                      (on_radio (esb_set_base_address_1 (a_base1 t))
                        (on_radio (esb_set_base_address_0 (a_base0 t)) (l\<lparr>radio := s\<rparr>))))
             else l\<lparr>radio := s\<rparr>))"

text \<open>\<open>hf_rc\<close> is the result of the oscillator request.\<close>

definition esb_transport_on_slot_start :: "kconfig \<Rightarrow> rc \<Rightarrow> rc \<Rightarrow> rc \<Rightarrow> link \<Rightarrow> link" where
  "esb_transport_on_slot_start cfg hf_rc timer_rc ppi_rc l =
     (let l1 = on_tr (\<lambda>t. t\<lparr>bt_suspended := True,
                            hfxo_held := (hfxo_held t \<or> hf_rc = OK)\<rparr>) l;
          (r, l2) = esb_init_and_configure cfg timer_rc ppi_rc l1
      in if r \<noteq> OK then l2
         else on_tr (\<lambda>t. t\<lparr>consecutive_fail := 0, adaptive_count := c_retransmit_count cfg,
                t_wq := resched W_adaptive (c_adaptive_interval_ms cfg) (t_wq t)\<rparr>) l2)"

definition esb_transport_on_slot_stop :: "link \<Rightarrow> link" where
  "esb_transport_on_slot_stop l =
     (let l1 = on_tr (\<lambda>t. t\<lparr>consecutive_fail := 0, t_wq := cancel W_adaptive (t_wq t)\<rparr>) l
      in on_tr (\<lambda>t. t\<lparr>bt_suspended := False, hfxo_held := False\<rparr>) (l1\<lparr>radio := esb_disable (radio l1)\<rparr>))"

section \<open>Changing the channel\<close>

text \<open>What a committed change resets, once the radio is on the new channel.\<close>

definition channel_changed :: "kconfig \<Rightarrow> u32 \<Rightarrow> transport \<Rightarrow> transport" where
  "channel_changed cfg now t =
     t\<lparr>consecutive_fail := 0, peer_rssi_valid := False, first_fail_ms := 0, last_success_ms := 0,
       lq := lq_reset, degraded_armed := False, mot := (mot t)\<lparr>refund := no_refund\<rparr>,
       quiet_until := nz_stamp (now + c_post_quiet_ms cfg)\<rparr>"

text \<open>Setting the channel of the radio, stopping the transmission once it was busy too often.\<close>

definition retune :: "kconfig \<Rightarrow> nat \<Rightarrow> link \<Rightarrow> rc \<times> link" where
  "retune cfg channel l =
     (let (r, s) = esb_set_rf_channel channel (radio l);
          l1 = l\<lparr>radio := s\<rparr>;
          l2 = (if r = Err EBUSY then on_tr (\<lambda>t. t\<lparr>busy_streak := (busy_streak t + 1) mod 256\<rparr>) l1 else l1);
          (r3, l3) = (if r = Err EBUSY \<and> c_stop_tx_after_busy cfg \<le> busy_streak (tr l2)
            then (let l' = on_radio esb_stop_tx l2; (r', s') = esb_set_rf_channel channel (radio l')
                  in (r', l'\<lparr>radio := s'\<rparr>))
            else (r, l2))
      in (r3, if r3 = OK then on_tr (\<lambda>t. t\<lparr>busy_streak := 0\<rparr>) l3 else l3))"

definition esb_transport_set_channel :: "kconfig \<Rightarrow> u32 \<Rightarrow> nat \<Rightarrow> link \<Rightarrow> rc \<times> link" where
  "esb_transport_set_channel cfg now channel l =
     (if \<not> t_configured (tr l) then (Err ENODEV, l)
      else
        let (r, l1) = retune cfg channel (on_radio esb_stash_tx l)
        in if r \<noteq> OK then (r, esb_restore_tx_or_drop cfg l1)
           else (OK, on_tr (channel_changed cfg now)
                       (esb_restore_tx_or_drop cfg (on_tr (\<lambda>t. t\<lparr>t_channel := channel\<rparr>) l1))))"

section \<open>The blocking side trip\<close>

text \<open>
  \<open>esb_transport_send_blocking\<close> up to the wait: \<open>OK\<close> means that the caller now waits on the
  semaphore; the flag \<open>sync_in_progress\<close> stays set until the radio answers or the wait ends.
\<close>

definition send_blocking_begin :: "kconfig \<Rightarrow> nat \<Rightarrow> nat \<Rightarrow> bytes \<Rightarrow> link \<Rightarrow> rc \<times> link" where
  "send_blocking_begin cfg channel pipe data l =
     (if c_max_payload cfg < length data then (Err EMSGSIZE, l)
      else if \<not> t_configured (tr l) then (Err ENODEV, l)
      else if sync_in_progress (tr l) then (Err EBUSY, l)
      else
        let l1 = on_radio esb_stash_tx l;
            (r, s) = esb_set_rf_channel channel (radio l1);
            l2 = l1\<lparr>radio := s\<rparr>
        in if r \<noteq> OK then (r, esb_restore_tx_or_drop cfg l2)
           else
             let l3 = on_tr (\<lambda>t. t\<lparr>sync_sem := 0, sync_success := False, sync_in_progress := True\<rparr>) l2;
                 pkt = \<lparr>pl_pipe = pipe, pl_data = data, pl_noack = False, pl_pid = 0, pl_rssi = 0\<rparr>;
                 (w, s4) = esb_write_payload cfg pkt (radio l3);
                 l4 = l3\<lparr>radio := s4\<rparr>
             in if w \<noteq> OK
                then (w, on_radio esb_start_tx (esb_restore_tx_or_drop cfg
                            (on_radio (esb_set_rf_channel (t_channel (tr l4)))
                              (on_tr (\<lambda>t. t\<lparr>sync_in_progress := False\<rparr>) l4))))
                else (OK, l4))"

text \<open>After the wait; it timed out exactly when the semaphore was not given.\<close>

definition send_blocking_finish :: "kconfig \<Rightarrow> link \<Rightarrow> rc \<times> link" where
  "send_blocking_finish cfg l =
     (let timed_out = (sync_sem (tr l) = 0);
          l1 = on_tr (\<lambda>t. t\<lparr>sync_sem := 0\<rparr>) l;
          l2 = on_radio esb_start_tx (esb_restore_tx_or_drop cfg
                 (on_radio (esb_set_rf_channel (t_channel (tr l1))) l1))
      in if timed_out then (Err ETIMEDOUT, on_tr (\<lambda>t. t\<lparr>sync_in_progress := False\<rparr>) l2)
         else (if sync_success (tr l2) then OK else Err EIO, l2))"

section \<open>Sending a frame\<close>

definition is_shell :: "bytes \<Rightarrow> bool" where
  "is_shell data \<longleftrightarrow> 1 \<le> length data
     \<and> (data ! 0 = pkt_shell_data \<or> data ! 0 = pkt_shell_poll \<or> data ! 0 = pkt_shell_stop)"

definition is_user_traffic :: "bytes \<Rightarrow> bool" where
  "is_user_traffic data \<longleftrightarrow> 1 \<le> length data
     \<and> (data ! 0 = pkt_hid_report \<or> data ! 0 = pkt_shell_data \<or> data ! 0 = pkt_shell_poll
        \<or> data ! 0 = pkt_shell_start \<or> data ! 0 = pkt_shell_stop)"

definition is_critical :: "bytes \<Rightarrow> bool" where
  "is_critical data \<longleftrightarrow> 1 \<le> length data
     \<and> (data ! 0 = pkt_beacon \<or> data ! 0 = pkt_pair_resp \<or> data ! 0 = pkt_disconnect
        \<or> data ! 0 = pkt_verify_req \<or> data ! 0 = pkt_hop_proposal \<or> data ! 0 = pkt_hop_offer
        \<or> data ! 0 = pkt_idle)"

definition noack_of :: "kconfig \<Rightarrow> nat \<Rightarrow> bytes \<Rightarrow> bool" where
  "noack_of cfg pipe data \<longleftrightarrow> c_hid_noack cfg \<and> pipe = 1 \<and> 2 \<le> length data
     \<and> data ! 0 = pkt_hid_report \<and> data ! 1 = report_mouse"

definition hid_kind_of :: "bool \<Rightarrow> bytes \<Rightarrow> hid_kind" where
  "hid_kind_of noack data =
     (if 2 \<le> length data \<and> data ! 0 = pkt_hid_report \<and> \<not> noack then
        (if data ! 1 = report_keyboard then KIND_KB
         else if data ! 1 = report_consumer then KIND_CONS
         else if data ! 1 = report_mouse then KIND_MOUSE else KIND_NONE)
      else KIND_NONE)"

definition note_hid_tx :: "u32 \<Rightarrow> transport \<Rightarrow> transport" where
  "note_hid_tx now t =
     (let t1 = t\<lparr>hid_tx_count := hid_tx_count t + 1, hid_bucket_count := hid_bucket_count t + 1\<rparr>
      in if hid_bucket_ms t1 = 0 then t1\<lparr>hid_bucket_ms := now\<rparr>
         else if 1000 \<le> now - hid_bucket_ms t1
         then t1\<lparr>hid_rate_hz := min 65535 (unat (hid_bucket_count t1)), hid_bucket_count := 0,
                 hid_bucket_ms := now\<rparr>
         else t1)"

text \<open>The delay jitter that every send applies, also one that is then refused.\<close>

definition apply_jitter :: "kconfig \<Rightarrow> u32 \<Rightarrow> u32 \<Rightarrow> link \<Rightarrow> link" where
  "apply_jitter cfg now addr l =
     (let (d, r) = jittered_retransmit_delay cfg now addr (jitter_rng (tr l))
      in on_radio (esb_set_retransmit_delay d) (on_tr (\<lambda>t. t\<lparr>jitter_rng := r\<rparr>) l))"

text \<open>The per-send bookkeeping between the admission of a frame and the motion block.\<close>

definition note_send :: "kconfig \<Rightarrow> u32 \<Rightarrow> bool \<Rightarrow> bytes \<Rightarrow> link \<Rightarrow> link" where
  "note_send cfg now noack data l =
     (let l1 = on_tr (\<lambda>t. t\<lparr>noack_ring := ring_put noack (noack_ring t)\<rparr>) l;
          l2 = (if 1 \<le> length data \<and> data ! 0 = pkt_shell_bg_poll then l1 else on_tr (note_activity now) l1);
          l3 = (if 1 \<le> length data \<and> data ! 0 = pkt_hid_report then on_tr (note_hid_tx now) l2 else l2);
          l4 = (if is_user_traffic data
                then on_hop (channel_hop_ep_note_user_tx cfg (boot_channel (tr l3)) now) l3 else l3);
          l5 = on_tr (\<lambda>t. t\<lparr>crit_ring := ring_put (is_critical data) (crit_ring t)\<rparr>) l4
      in if is_critical data then on_radio (esb_set_retransmit_count (c_critical_retransmit cfg)) l5 else l5)"

text \<open>The motion block: the frame that goes out, with the refund applied, and the ring's record.\<close>

definition attach_motion :: "kconfig \<Rightarrow> u32 \<Rightarrow> bool \<Rightarrow> bytes \<Rightarrow> link \<Rightarrow> bytes \<times> link" where
  "attach_motion cfg now noack data l =
     (let kind = hid_kind_of noack data in
      if is_mouse_report data then
        let (body, rf) = motion_refund_apply cfg now (mouse_body_of data, refund (mot (tr l)));
            override = has_motion (mb_motion body) \<and> mb_buttons body = 0 \<and> \<not> noack;
            l1 = (if override then on_radio (esb_set_retransmit_count (c_pointer_retransmit cfg)) l else l)
        in (put_motion (mb_motion body) data,
            on_tr (\<lambda>t. t\<lparr>mot := motion_ring_push (Some body) override kind ((mot t)\<lparr>refund := rf\<rparr>)\<rparr>) l1)
      else (data, on_tr (\<lambda>t. t\<lparr>mot := motion_ring_push None False kind (mot t)\<rparr>) l))"

definition transmit :: "kconfig \<Rightarrow> u32 \<Rightarrow> nat \<Rightarrow> bytes \<Rightarrow> link \<Rightarrow> rc \<times> link" where
  "transmit cfg now pipe data l =
     (let noack = noack_of cfg pipe data;
          (frame, l1) = attach_motion cfg now noack data (note_send cfg now noack data l);
          (r, s) = esb_write_payload cfg
             \<lparr>pl_pipe = pipe, pl_data = frame, pl_noack = noack, pl_pid = 0, pl_rssi = 0\<rparr> (radio l1)
      in (r, l1\<lparr>radio := s\<rparr>))"

text \<open>\<open>addr\<close> seeds the jitter generator on first use.\<close>

definition esb_transport_send :: "kconfig \<Rightarrow> u32 \<Rightarrow> u32 \<Rightarrow> nat \<Rightarrow> bytes \<Rightarrow> link \<Rightarrow> rc \<times> link" where
  "esb_transport_send cfg now addr pipe data l =
     (if c_max_payload cfg < length data then (Err EMSGSIZE, l)
      else if sync_in_progress (tr l) then (Err EAGAIN, l)
      else
        let l1 = apply_jitter cfg now addr l in
        if quiet_until (tr l1) \<noteq> 0 \<and> before_deadline (quiet_until (tr l1)) now then (Err EAGAIN, l1)
        else
          let l2 = on_tr (\<lambda>t. t\<lparr>quiet_until := 0\<rparr>) l1 in
          if esb_tx_full (radio l2) \<and> is_shell data then (Err ENOMEM, l2)
          else transmit cfg now pipe data
                 (if esb_tx_full (radio l2) then esb_flush_tx_and_reset cfg l2 else l2))"

section \<open>Refusals\<close>

definition send_refusal :: "kconfig \<Rightarrow> u32 \<Rightarrow> bytes \<Rightarrow> link \<Rightarrow> errno option" where
  "send_refusal cfg now data l =
     (if c_max_payload cfg < length data then Some EMSGSIZE
      else if esb_transport_is_quiet now (tr l) then Some EAGAIN
      else if esb_tx_full (radio l) \<and> is_shell data then Some ENOMEM else None)"

lemma jitter_parts [simp]:
  "hopm (apply_jitter cfg now addr l) = hopm l" "bn (apply_jitter cfg now addr l) = bn l"
  "same_queue (radio l) (radio (apply_jitter cfg now addr l))"
  "tr (apply_jitter cfg now addr l)
     = (tr l)\<lparr>jitter_rng := snd (jittered_retransmit_delay cfg now addr (jitter_rng (tr l)))\<rparr>"
  by (simp_all add: apply_jitter_def split_beta Let_def)

lemma jitter_full [simp]: "esb_tx_full (radio (apply_jitter cfg now addr l)) = esb_tx_full (radio l)"
  using jitter_parts(3) by (rule same_queueD(8))

lemma sat_motion_ok: "motion_ok (motion_map2 (\<lambda>t _. sat16 t) a b)"
  by (simp add: motion_ok_def motion_map2_def)

lemma body_motion_ok [simp]: "motion_ok (mb_motion (mouse_body_of data))"
  by (simp add: motion_ok_def mouse_body_of_def)

lemma refund_apply_ok: "motion_ok (mb_motion body) \<Longrightarrow> motion_ok (mb_motion (fst (motion_refund_apply cfg now (body, rf))))"
  by (simp add: motion_refund_apply_def Let_def sat_motion_ok)

text \<open>The frame that goes out keeps its type, its report id and its length.\<close>

lemma put_motion_head:
  assumes "is_mouse_report data"
  shows "length (put_motion m data) = length data" "put_motion m data ! 0 = data ! 0"
    "put_motion m data ! 1 = data ! 1" "put_motion m data \<noteq> []"
  using assms by (auto simp: is_mouse_report_def put_motion_def nth_append)

definition out_frame :: "kconfig \<Rightarrow> u32 \<Rightarrow> bytes \<Rightarrow> motion_refund \<Rightarrow> bytes" where
  "out_frame cfg now data rf =
     (if is_mouse_report data
      then put_motion (mb_motion (fst (motion_refund_apply cfg now (mouse_body_of data, rf)))) data else data)"

lemma out_frame_head:
  "length (out_frame cfg now data rf) = length data" "out_frame cfg now data rf = [] \<longleftrightarrow> data = []"
  "is_mouse_report (out_frame cfg now data rf) = is_mouse_report data"
  "is_critical (out_frame cfg now data rf) = is_critical data"
  "hid_kind_of na (out_frame cfg now data rf) = hid_kind_of na data"
proof -
  let ?f = "out_frame cfg now data rf"
  have h: "length ?f = length data" "1 \<le> length data \<Longrightarrow> ?f ! 0 = data ! 0" "2 \<le> length data \<Longrightarrow> ?f ! 1 = data ! 1"
    using put_motion_head [of data] by (auto simp: out_frame_def)
  show "length ?f = length data" by (rule h(1))
  show "?f = [] \<longleftrightarrow> data = []" using h(1) by (metis length_0_conv)
  show "is_mouse_report ?f = is_mouse_report data" using h by (auto simp: is_mouse_report_def)
  show "is_critical ?f = is_critical data" using h by (auto simp: is_critical_def)
  show "hid_kind_of na ?f = hid_kind_of na data" using h by (auto simp: hid_kind_of_def)
qed

lemma attach_parts:
  "fst (attach_motion cfg now na data l) = out_frame cfg now data (refund (mot (tr l)))"
  "same_queue (radio l) (radio (snd (attach_motion cfg now na data l)))"
  "hopm (snd (attach_motion cfg now na data l)) = hopm l" "bn (snd (attach_motion cfg now na data l)) = bn l"
  "noack_ring (tr (snd (attach_motion cfg now na data l))) = noack_ring (tr l)"
  "crit_ring (tr (snd (attach_motion cfg now na data l))) = crit_ring (tr l)"
  "tr_core (tr (snd (attach_motion cfg now na data l))) = tr_core (tr l)"
  by (simp_all add: attach_motion_def out_frame_def split_beta Let_def)

lemma note_send_parts:
  "same_queue (radio l) (radio (note_send cfg now na data l))" "mot (tr (note_send cfg now na data l)) = mot (tr l)"
  "noack_ring (tr (note_send cfg now na data l)) = ring_put na (noack_ring (tr l))"
  "crit_ring (tr (note_send cfg now na data l)) = ring_put (is_critical data) (crit_ring (tr l))"
  "bn (note_send cfg now na data l) = bn l"
  "hopm (note_send cfg now na data l) = (if is_user_traffic data
     then channel_hop_ep_note_user_tx cfg (boot_channel (tr l)) now (hopm l) else hopm l)"
  by (simp_all add: note_send_def note_activity_def note_hid_tx_def Let_def)

section \<open>Rings and queue in lockstep\<close>

text \<open>
  Between a send and its event, every ring holds one record per queued packet, in order: the
  acknowledge flag, whether it is critical, its HID kind and the motion it carries.
\<close>

definition pkt_motion :: "payload \<Rightarrow> motion" where
  "pkt_motion p = (if is_mouse_report (pl_data p) then mb_motion (mouse_body_of (pl_data p)) else zero_motion)"

definition pkt_kind :: "payload \<Rightarrow> hid_kind" where
  "pkt_kind p = hid_kind_of (pl_noack p) (pl_data p)"

definition rings_wf :: "kconfig \<Rightarrow> transport \<Rightarrow> bool" where
  "rings_wf cfg t \<longleftrightarrow> ring_wf (noack_ring t) \<and> length (rslots (noack_ring t)) = c_noack_ring cfg
     \<and> ring_wf (crit_ring t) \<and> length (rslots (crit_ring t)) = c_crit_ring cfg \<and> motion_wf cfg (mot t)"

definition lockstep :: "kconfig \<Rightarrow> link \<Rightarrow> bool" where
  "lockstep cfg l \<longleftrightarrow> rings_wf cfg (tr l)
     \<and> ring_list (noack_ring (tr l)) = map pl_noack (tx_queue (radio l))
     \<and> ring_list (crit_ring (tr l)) = map (is_critical \<circ> pl_data) (tx_queue (radio l))
     \<and> map mr_kind (ring_list (mring (mot (tr l)))) = map pkt_kind (tx_queue (radio l))
     \<and> map mr_motion (ring_list (mring (mot (tr l)))) = map pkt_motion (tx_queue (radio l))"

text \<open>The FIFO fits every ring: with the default sizes 8 packets against 16, 16 and 48 records.\<close>

definition rings_fit :: "kconfig \<Rightarrow> bool" where
  "rings_fit cfg \<longleftrightarrow> c_tx_fifo cfg \<le> c_noack_ring cfg \<and> c_tx_fifo cfg \<le> c_crit_ring cfg
     \<and> c_tx_fifo cfg \<le> c_motion_ring cfg"

lemma lockstep_gaps:
  assumes "lockstep cfg l"
  shows "ring_gap (noack_ring (tr l)) = fcount (tx_fifo (radio l))"
    "ring_gap (crit_ring (tr l)) = fcount (tx_fifo (radio l))"
    "ring_gap (mring (mot (tr l))) = fcount (tx_fifo (radio l))"
proof -
  have l: "ring_list (noack_ring (tr l)) = map pl_noack (tx_queue (radio l))"
    "ring_list (crit_ring (tr l)) = map (is_critical \<circ> pl_data) (tx_queue (radio l))"
    "map mr_kind (ring_list (mring (mot (tr l)))) = map pkt_kind (tx_queue (radio l))"
    using assms by (simp_all add: lockstep_def)
  show "ring_gap (noack_ring (tr l)) = fcount (tx_fifo (radio l))"
    "ring_gap (crit_ring (tr l)) = fcount (tx_fifo (radio l))"
    "ring_gap (mring (mot (tr l))) = fcount (tx_fifo (radio l))"
    using arg_cong [OF l(1), of length] arg_cong [OF l(2), of length] arg_cong [OF l(3), of length] by simp_all
qed

lemma attach_ring:
  assumes w: "motion_wf cfg (mot (tr l))" and g: "ring_gap (mring (mot (tr l))) < c_motion_ring cfg"
    and small: "c_motion_ring cfg \<le> 255" and h: "unat (rhead (mring (mot (tr l)))) + 1 < 2 ^ 32"
    and frame: "frame = out_frame cfg now data (refund (mot (tr l)))"
    and p: "p = \<lparr>pl_pipe = pipe, pl_data = frame, pl_noack = na, pl_pid = pid, pl_rssi = 0\<rparr>"
  defines "m' \<equiv> mot (tr (snd (attach_motion cfg now na data l)))"
  shows "motion_wf cfg m' \<and> map mr_kind (ring_list (mring m')) = map mr_kind (ring_list (mring (mot (tr l)))) @ [pkt_kind p]
    \<and> map mr_motion (ring_list (mring m')) = map mr_motion (ring_list (mring (mot (tr l)))) @ [pkt_motion p]"
proof (cases "is_mouse_report data")
  case False
  then show ?thesis
    using motion_push_law [OF w g small h, of None False "hid_kind_of na data"]
    by (simp add: m'_def attach_motion_def Let_def pkt_kind_def pkt_motion_def p frame out_frame_head)
next
  case True
  let ?ap = "motion_refund_apply cfg now (mouse_body_of data, refund (mot (tr l)))"
  let ?ov = "has_motion (mb_motion (fst ?ap)) \<and> mb_buttons (fst ?ap) = 0 \<and> \<not> na"
  let ?m = "(mot (tr l))\<lparr>refund := snd ?ap\<rparr>"
  have rf: "refund_wf (snd ?ap)"
    using w by (auto simp: motion_refund_apply_def Let_def motion_wf_def refund_wf_def no_refund_def has_motion_iff
        motion_map2_def)
  have m: "motion_wf cfg ?m" using w rf by (simp add: motion_wf_def)
  have eq: "m' = motion_ring_push (Some (fst ?ap)) ?ov (hid_kind_of na data) ?m"
    using True by (simp add: m'_def attach_motion_def split_beta Let_def)
  have "motion_ok (mb_motion (fst ?ap))" by (rule refund_apply_ok) simp
  then have mm: "pkt_motion p = mb_motion (fst ?ap)"
    using True put_motion_law [OF True, of "mb_motion (fst ?ap)"] out_frame_head(3) [of cfg now data]
    by (simp add: pkt_motion_def p frame) (simp add: out_frame_def)
  show ?thesis
    using motion_push_law [OF m _ small, of "Some (fst ?ap)" ?ov "hid_kind_of na data"] g h mm
    by (simp add: eq pkt_kind_def p frame out_frame_head)
qed

lemma radio_step_knobs: "esb_wf cfg s \<Longrightarrow> esb_wf cfg (snd (esb_set_retransmit_count n s))"
  "esb_wf cfg s \<Longrightarrow> esb_wf cfg (snd (esb_set_retransmit_delay d s))"
  by (rule esb_wf_setters, assumption)+

lemma note_send_wf: "esb_wf cfg (radio l) \<Longrightarrow> esb_wf cfg (radio (note_send cfg now na data l))"
  by (simp add: note_send_def Let_def radio_step_knobs)

lemma attach_wf: "esb_wf cfg (radio l) \<Longrightarrow> esb_wf cfg (radio (snd (attach_motion cfg now na data l)))"
  by (simp add: attach_motion_def split_beta Let_def radio_step_knobs)

lemma transmit_ok:
  assumes "esb_initialized (radio l)" "\<not> esb_tx_full (radio l)" "data \<noteq> []" "length data \<le> c_max_payload cfg"
    "pipe < c_pipe_count cfg"
  shows "fst (transmit cfg now pipe data l) = OK"
proof -
  let ?na = "noack_of cfg pipe data"
  let ?n = "note_send cfg now ?na data l"
  let ?a = "snd (attach_motion cfg now ?na data ?n)"
  let ?q = "\<lparr>pl_pipe = pipe, pl_data = out_frame cfg now data (refund (mot (tr l))), pl_noack = ?na, pl_pid = 0, pl_rssi = 0\<rparr>"
  have r: "same_queue (radio l) (radio ?a)"
    using same_queue_trans [OF note_send_parts(1) attach_parts(2)] .
  have "write_error cfg ?q (radio ?a) = None"
    using same_queueD [OF r] assms by (simp add: write_error_def out_frame_head)
  then have "fst (esb_write_payload cfg ?q (radio ?a)) = OK"
    using write_error_iff [of cfg ?q "radio ?a"] by (metis fst_conv option.simps(4))
  then show ?thesis
    by (subst transmit_def) (simp add: split_beta attach_parts(1) note_send_parts(2) Let_def)
qed

text \<open>A transmission with room in the queue, without the rings.\<close>

lemma transmit_law:
  fixes cfg :: kconfig and now :: u32 and data :: bytes and pipe :: nat
  assumes e: "esb_wf cfg (radio l)" "esb_initialized (radio l)" and room: "\<not> esb_tx_full (radio l)"
    and d: "data \<noteq> []" "length data \<le> c_max_payload cfg" "pipe < c_pipe_count cfg"
  defines "p \<equiv> \<lparr>pl_pipe = pipe, pl_data = out_frame cfg now data (refund (mot (tr l))), pl_noack = noack_of cfg pipe data,
      pl_pid = (esb_pids (radio l) ! pipe + 1) mod 4, pl_rssi = 0\<rparr>"
    and "a \<equiv> snd (attach_motion cfg now (noack_of cfg pipe data) data (note_send cfg now (noack_of cfg pipe data) data l))"
  shows "\<exists>s. transmit cfg now pipe data l = (OK, a\<lparr>radio := s\<rparr>) \<and> tx_queue s = tx_queue (radio l) @ [p] \<and> esb_initialized s"
proof -
  let ?na = "noack_of cfg pipe data"
  let ?n = "note_send cfg now ?na data l"
  let ?q = "\<lparr>pl_pipe = pipe, pl_data = out_frame cfg now data (refund (mot (tr l))), pl_noack = ?na, pl_pid = 0, pl_rssi = 0\<rparr>"
  have r: "same_queue (radio l) (radio a)"
    using same_queue_trans [OF note_send_parts(1) attach_parts(2)] by (simp add: a_def)
  have wa: "esb_wf cfg (radio a)"
    using e(1) by (simp add: a_def attach_wf note_send_wf)
  have err: "write_error cfg ?q (radio a) = None"
    using same_queueD [OF r] e(2) room d by (simp add: write_error_def out_frame_head)
  obtain s where w: "esb_write_payload cfg ?q (radio a) = (OK, s)"
    using write_error_iff [of cfg ?q "radio a"] err by simp
  have "transmit cfg now pipe data l = (OK, a\<lparr>radio := s\<rparr>)"
    by (subst transmit_def) (simp add: a_def split_beta attach_parts(1) note_send_parts(2) w [unfolded a_def] Let_def)
  moreover have "tx_queue s = tx_queue (radio l) @ [p]"
    using write_ok [OF wa err] same_queueD [OF r] w by (simp add: p_def)
  moreover have "esb_initialized s"
    using same_queueD [OF r] e(2) w by (auto simp: esb_write_payload_def Let_def split: if_splits)
  ultimately show ?thesis by blast
qed

lemma lockstep_transmit:
  fixes cfg :: kconfig and now :: u32 and data :: bytes and pipe :: nat
  assumes c: "kconfig_ok cfg" "rings_fit cfg" and e: "esb_wf cfg (radio l)" "esb_initialized (radio l)"
    and room: "\<not> esb_tx_full (radio l)" and d: "data \<noteq> []" "length data \<le> c_max_payload cfg" "pipe < c_pipe_count cfg"
    and ls: "lockstep cfg l" and h: "unat (rhead (mring (mot (tr l)))) + 1 < 2 ^ 32"
  defines "p \<equiv> \<lparr>pl_pipe = pipe, pl_data = out_frame cfg now data (refund (mot (tr l))), pl_noack = noack_of cfg pipe data,
      pl_pid = (esb_pids (radio l) ! pipe + 1) mod 4, pl_rssi = 0\<rparr>"
  shows "fst (transmit cfg now pipe data l) = OK
    \<and> tx_queue (radio (snd (transmit cfg now pipe data l))) = tx_queue (radio l) @ [p]
    \<and> lockstep cfg (snd (transmit cfg now pipe data l))"
proof -
  let ?na = "noack_of cfg pipe data"
  let ?n = "note_send cfg now ?na data l"
  let ?a = "snd (attach_motion cfg now ?na data ?n)"
  obtain s where t: "transmit cfg now pipe data l = (OK, ?a\<lparr>radio := s\<rparr>)"
    and q: "tx_queue s = tx_queue (radio l) @ [p]"
    using transmit_law [OF e room d, of now] by (auto simp: p_def)
  note gaps = lockstep_gaps [OF ls]
  have lt: "fcount (tx_fifo (radio l)) < c_tx_fifo cfg" using room e(1) by (simp add: esb_tx_full_def esb_wf_def not_le)
  have rw: "rings_wf cfg (tr l)" using ls by (simp add: lockstep_def)
  have na: "ring_wf (ring_put ?na (noack_ring (tr l))) \<and> ring_list (ring_put ?na (noack_ring (tr l))) = ring_list (noack_ring (tr l)) @ [?na]"
    using rw gaps lt c(2) by (intro ring_put_law) (simp_all add: rings_wf_def rings_fit_def)
  have cr: "ring_wf (ring_put (is_critical data) (crit_ring (tr l)))
      \<and> ring_list (ring_put (is_critical data) (crit_ring (tr l))) = ring_list (crit_ring (tr l)) @ [is_critical data]"
    using rw gaps lt c(2) by (intro ring_put_law) (simp_all add: rings_wf_def rings_fit_def)
  have "c_motion_ring cfg \<le> 255" using c(1) by (simp add: kconfig_ok_def)
  then have mo: "motion_wf cfg (mot (tr ?a)) \<and> map mr_kind (ring_list (mring (mot (tr ?a)))) = map mr_kind (ring_list (mring (mot (tr l)))) @ [pkt_kind p]
    \<and> map mr_motion (ring_list (mring (mot (tr ?a)))) = map mr_motion (ring_list (mring (mot (tr l)))) @ [pkt_motion p]"
    using attach_ring [of cfg ?n _ now data p pipe ?na "pl_pid p"] rw gaps lt c(2) h
    by (simp add: note_send_parts rings_wf_def rings_fit_def p_def)
  have "lockstep cfg (?a\<lparr>radio := s\<rparr>)"
    using ls na cr mo rw q
    by (simp add: lockstep_def rings_wf_def attach_parts note_send_parts p_def out_frame_head)
  then show ?thesis using t q by simp
qed

lemma resync_mot_wf: "motion_wf cfg m \<Longrightarrow> motion_wf cfg (motion_drop_all m)"
  by (simp add: motion_wf_def motion_drop_all_def ring_fit_snap moving_def)

lemma resync_radio:
  "radio (tx_bookkeeping_resync cfg l) = snd (esb_set_retransmit_count (adaptive_count (tr l)) (radio l))"
  by (simp add: tx_bookkeeping_resync_def restore_retransmit_count_def Let_def hid_resync_request_def)

lemma lockstep_resync:
  assumes "rings_wf cfg (tr l)" "tx_queue (radio l) = []"
  shows "lockstep cfg (tx_bookkeeping_resync cfg l)"
  using assms same_queueD(1) [OF resync_parts(6) [of l cfg]] resync_mot_wf [of cfg "mot (tr l)"]
  by (simp add: lockstep_def rings_wf_def resync_parts ring_snap_wf) (simp add: motion_drop_all_def)

lemma lockstep_flush:
  assumes "rings_wf cfg (tr l)" "esb_initialized (radio l)"
  shows "lockstep cfg (esb_flush_tx_and_reset cfg l) \<and> tx_queue (radio (esb_flush_tx_and_reset cfg l)) = []"
  using lockstep_resync [of cfg "on_radio esb_flush_tx l"] same_queueD(1) [OF resync_parts(6) [of "on_radio esb_flush_tx l" cfg]] assms
  by (simp add: esb_flush_tx_and_reset_def) (simp add: esb_flush_tx_def)

lemma lockstep_same:
  assumes "lockstep cfg l" "same_queue (radio l) (radio l')" "noack_ring (tr l') = noack_ring (tr l)"
    "crit_ring (tr l') = crit_ring (tr l)" "mot (tr l') = mot (tr l)"
  shows "lockstep cfg l'"
  using assms same_queueD(1) [OF assms(2)] by (simp add: lockstep_def rings_wf_def)

section \<open>Properties of sending\<close>

text \<open>An admitted frame: \<open>transmit\<close> on a link with room, which has lost its queue if it was full.\<close>

lemma send_admitted:
  assumes w: "link_wf cfg l" "esb_initialized (radio l)" and acc: "send_refusal cfg now data l = None"
  shows "\<exists>b. esb_transport_send cfg now addr pipe data l = transmit cfg now pipe data b \<and> length data \<le> c_max_payload cfg
    \<and> (lockstep cfg l \<longrightarrow> lockstep cfg b) \<and> esb_wf cfg (radio b) \<and> esb_initialized (radio b) \<and> \<not> esb_tx_full (radio b)
    \<and> esb_pids (radio b) = esb_pids (radio l) \<and> refund (mot (tr b)) = refund (mot (tr l))
    \<and> rhead (mring (mot (tr b))) = rhead (mring (mot (tr l)))
    \<and> tx_queue (radio b) = (if esb_tx_full (radio l) then [] else tx_queue (radio l))"
proof -
  let ?l2 = "on_tr (\<lambda>t. t\<lparr>quiet_until := 0\<rparr>) (apply_jitter cfg now addr l)"
  let ?b = "if esb_tx_full (radio ?l2) then esb_flush_tx_and_reset cfg ?l2 else ?l2"
  let ?f = "on_radio esb_flush_tx ?l2"
  have send: "esb_transport_send cfg now addr pipe data l = transmit cfg now pipe data ?b"
    using acc by (auto simp: send_refusal_def esb_transport_send_def esb_transport_is_quiet_def Let_def split: if_splits)
  have len: "length data \<le> c_max_payload cfg" using acc by (auto simp: send_refusal_def split: if_splits)
  have s2: "same_queue (radio l) (radio ?l2)" by simp
  have f: "esb_flush_tx_and_reset cfg ?l2 = tx_bookkeeping_resync cfg ?f" by (simp add: esb_flush_tx_and_reset_def)
  have wl2: "esb_wf cfg (radio ?l2)" using w(1) by (simp add: link_wf_def apply_jitter_def split_beta Let_def radio_step_knobs)
  then have wf: "esb_wf cfg (radio (tx_bookkeeping_resync cfg ?f))"
    by (simp add: resync_radio radio_step_knobs esb_wf_flush)
  have "lockstep cfg ?b" if "lockstep cfg l"
  proof -
    have ls2: "lockstep cfg ?l2" by (rule lockstep_same [OF that s2]) simp_all
    then have rw: "rings_wf cfg (tr ?l2)" by (simp add: lockstep_def)
    have "esb_initialized (radio ?l2)" using same_queueD(3) [OF s2] w(2) by simp
    with ls2 lockstep_flush [OF rw] show ?thesis by simp
  qed
  moreover have "0 < tx_size (radio l)" using w(1) by (simp add: link_wf_def esb_wf_def fifo_wf_def)
  ultimately show ?thesis
    using wl2 wf w(2) same_queueD [OF s2] same_queueD [OF resync_parts(6) [of ?f cfg]] send len
    by (intro exI [of _ ?b]) (auto simp: f resync_parts motion_drop_all_def ring_snap_def esb_flush_tx_def esb_tx_full_def)
qed

text \<open>
  C37. A refused send leaves no trace. The send is refused exactly when the frame is too long
  (EMSGSIZE), the transport is quiet (EAGAIN, the same answer that \<open>is_quiet\<close> gives) or the queue
  is full and the frame is a shell frame (ENOMEM); then neither the queue, the rings, the refund
  pool, the counters, the hop manager nor the benchmark change, only the jitter generator and an
  expired quiet deadline. Every other frame is accepted by an initialised radio.
\<close>

theorem send_refused_without_trace:
  assumes "link_wf cfg l"
  shows "(case send_refusal cfg now data l of
      Some e \<Rightarrow> (let (r, l') = esb_transport_send cfg now addr pipe data l in
          r = Err e \<and> same_queue (radio l) (radio l') \<and> hopm l' = hopm l \<and> bn l' = bn l
        \<and> tr l' = (tr l)\<lparr>jitter_rng := jitter_rng (tr l'), quiet_until := quiet_until (tr l')\<rparr>)
    | None \<Rightarrow> esb_initialized (radio l) \<and> data \<noteq> [] \<and> pipe < c_pipe_count cfg
        \<longrightarrow> fst (esb_transport_send cfg now addr pipe data l) = OK)"
proof (cases "send_refusal cfg now data l")
  case (Some e)
  then show ?thesis
    by (auto simp: send_refusal_def esb_transport_send_def esb_transport_is_quiet_def Let_def split_beta
        split: if_splits)
next
  case None
  have "fst (esb_transport_send cfg now addr pipe data l) = OK"
    if "esb_initialized (radio l)" "data \<noteq> []" "pipe < c_pipe_count cfg"
    using send_admitted [OF assms that(1) None, of addr pipe] transmit_ok that(2,3) by metis
  with None show ?thesis by simp
qed

text \<open>
  C2. An accepted frame goes to the back of the queue, after everything queued, or alone when the
  queue was full and had to be dropped; the frame is the caller's, except that a mouse report
  carries the refund; and the rings stay in lockstep with the queue, record for packet.
\<close>

theorem send_keeps_lockstep:
  assumes c: "kconfig_ok cfg" "rings_fit cfg" and w: "link_wf cfg l" "esb_initialized (radio l)"
    and ls: "lockstep cfg l" and acc: "send_refusal cfg now data l = None" "data \<noteq> []" "pipe < c_pipe_count cfg"
    and h: "unat (rhead (mring (mot (tr l)))) + 1 < 2 ^ 32"
  shows "let (r, l') = esb_transport_send cfg now addr pipe data l in
      r = OK \<and> lockstep cfg l'
    \<and> tx_queue (radio l') = (if esb_tx_full (radio l) then [] else tx_queue (radio l))
        @ [\<lparr>pl_pipe = pipe, pl_data = out_frame cfg now data (refund (mot (tr l))), pl_noack = noack_of cfg pipe data,
            pl_pid = (esb_pids (radio l) ! pipe + 1) mod 4, pl_rssi = 0\<rparr>]"
proof -
  obtain b where b: "esb_transport_send cfg now addr pipe data l = transmit cfg now pipe data b" "length data \<le> c_max_payload cfg"
      "lockstep cfg b" "esb_wf cfg (radio b)" "esb_initialized (radio b)" "\<not> esb_tx_full (radio b)"
      "esb_pids (radio b) = esb_pids (radio l)" "refund (mot (tr b)) = refund (mot (tr l))"
      "rhead (mring (mot (tr b))) = rhead (mring (mot (tr l)))"
      "tx_queue (radio b) = (if esb_tx_full (radio l) then [] else tx_queue (radio l))"
    using send_admitted [OF w acc(1), of addr pipe] ls by blast
  show ?thesis
    using lockstep_transmit [OF c b(4-6) acc(2) b(2) acc(3) b(3), of now] h b(1,7-10) by (simp add: split_beta)
qed

lemma up_link_lockstep: "lockstep default_kconfig up_link"
  by (simp add: lockstep_def rings_wf_def up_link_def transport_boot_def ring_wf_def ring_gap_def ring_list_def
      motion_wf_def ring_fit_def moving_def refund_wf_def no_refund_def)

lemma default_rings_fit: "rings_fit default_kconfig"
  by (simp add: rings_fit_def)

definition kb_report :: bytes where
  "kb_report = [0x06, 0x00, 0, 0, 4, 0, 0, 0, 0, 0]"

lemma kb_report_accepted: "send_refusal default_kconfig now kb_report up_link = None"
  by (simp add: send_refusal_def kb_report_def esb_transport_is_quiet_def esb_tx_full_def)

theorem send_refused_without_trace_witness:
  "fst (esb_transport_send default_kconfig 500 0x20001000 1 kb_report up_link) = OK"
  using send_refused_without_trace [OF up_link_wf, where now = 500 and data = kb_report and addr = "0x20001000" and pipe = 1]
    kb_report_accepted
  by (simp add: kb_report_def)

theorem send_keeps_lockstep_witness:
  "lockstep default_kconfig (snd (esb_transport_send default_kconfig 500 0x20001000 1 kb_report up_link))"
  using send_keeps_lockstep [OF kconfig_ok_default default_rings_fit up_link_wf _ up_link_lockstep kb_report_accepted,
      where pipe = 1 and addr = "0x20001000"]
  by (simp add: kb_report_def split_beta up_link_def transport_boot_def)

end
