(* ===== verification/LinkInv.thy ===== *)
theory LinkInv
  imports Sending
begin

text \<open>
  Every call of the transport keeps the link well formed: the rings, the mailbox, the refund pool
  and the counters of the transport, the radio's FIFOs, and the hop manager's tables.
\<close>

lemma link_wf_jitter: "link_wf cfg l \<Longrightarrow> link_wf cfg (apply_jitter cfg now addr l)"
  unfolding apply_jitter_def split_beta Let_def
  by (rule link_wf_radio) (auto simp: tr_wf_def intro!: link_wf_tr r_delay)

lemma tr_wf_note:
  assumes "tr_wf cfg t"
  shows "tr_wf cfg (t\<lparr>noack_ring := ring_put b (noack_ring t)\<rparr>)" "tr_wf cfg (t\<lparr>crit_ring := ring_put b (crit_ring t)\<rparr>)"
    "tr_wf cfg (note_activity now t)" "tr_wf cfg (note_hid_tx now t)"
  using assms by (simp_all add: tr_wf_def note_activity_def note_hid_tx_def Let_def)

lemma link_wf_note_send: "link_wf cfg l \<Longrightarrow> link_wf cfg (note_send cfg now na data l)"
  by (auto simp: note_send_def Let_def
      intro!: link_wf_radio link_wf_tr link_wf_hop tr_wf_note hop_wf_user_tx r_count)

lemma refund_apply_wf: "refund_wf rf \<Longrightarrow> refund_wf (snd (motion_refund_apply cfg now (body, rf)))"
  by (auto simp: motion_refund_apply_def Let_def refund_wf_def no_refund_def has_motion_iff motion_map2_def)

lemma link_wf_attach: "link_wf cfg l \<Longrightarrow> link_wf cfg (snd (attach_motion cfg now na data l))"
  by (auto simp: attach_motion_def split_beta Let_def tr_wf_def motion_ring_push_def refund_apply_wf
      intro!: link_wf_tr link_wf_radio r_count)

lemma link_wf_transmit: "link_wf cfg l \<Longrightarrow> link_wf cfg (snd (transmit cfg now pipe data l))"
  by (auto simp: transmit_def split_beta Let_def intro!: link_wf_radio_set link_wf_attach link_wf_note_send r_write)

lemma link_wf_send: "link_wf cfg l \<Longrightarrow> link_wf cfg (snd (esb_transport_send cfg now addr pipe data l))"
  by (auto simp: esb_transport_send_def Let_def tr_wf_def
      intro!: link_wf_transmit link_wf_flush link_wf_tr link_wf_jitter)

lemma link_wf_retune: "link_wf cfg l \<Longrightarrow> link_wf cfg (snd (retune cfg ch l))"
  by (auto simp: retune_def split_beta Let_def tr_wf_def intro!: link_wf_tr link_wf_radio_set link_wf_radio r_channel r_stop)

lemma tr_wf_changed:
  assumes "kconfig_ok cfg" "tr_wf cfg t"
  shows "tr_wf cfg (channel_changed cfg now t)"
  using assms lq_reset_wf by (simp add: tr_wf_def channel_changed_def refund_wf_def no_refund_def)

lemma link_wf_set_channel:
  assumes "kconfig_ok cfg" "link_wf cfg l"
  shows "link_wf cfg (snd (esb_transport_set_channel cfg now ch l))"
  using assms
  by (auto simp: esb_transport_set_channel_def split_beta Let_def tr_wf_def [of _ "_\<lparr>t_channel := _\<rparr>"]
      intro!: link_wf_restore link_wf_tr link_wf_retune link_wf_radio r_stash tr_wf_changed)
    (simp_all add: tr_wf_def)

lemma link_wf_begin: "link_wf cfg l \<Longrightarrow> link_wf cfg (snd (send_blocking_begin cfg ch pipe data l))"
  by (auto simp: send_blocking_begin_def split_beta Let_def tr_wf_def
      intro!: link_wf_restore link_wf_tr link_wf_radio_set link_wf_radio r_stash r_channel r_write r_start)

lemma link_wf_finish: "link_wf cfg l \<Longrightarrow> link_wf cfg (snd (send_blocking_finish cfg l))"
  by (auto simp: send_blocking_finish_def split_beta Let_def tr_wf_def
      intro!: link_wf_restore link_wf_tr link_wf_radio_set link_wf_radio r_channel r_start)

lemma link_wf_configure: "link_wf cfg l \<Longrightarrow> link_wf cfg (snd (esb_init_and_configure cfg tm ppi l))"
  by (auto simp: esb_init_and_configure_def split_beta Let_def split: rc.split
      intro!: link_wf_radio_set link_wf_radio r_init r_channel r_prefixes r_base0 r_base1)

lemma link_wf_slot_start:
  assumes "kconfig_ok cfg" "link_wf cfg l"
  shows "link_wf cfg (esb_transport_on_slot_start cfg hf tm ppi l)"
  using assms(2) kconfig_small(1) [OF assms(1)]
  by (auto simp: esb_transport_on_slot_start_def split_beta Let_def tr_wf_def intro!: link_wf_tr link_wf_configure)

lemma link_wf_slot_stop: "link_wf cfg l \<Longrightarrow> link_wf cfg (esb_transport_on_slot_stop l)"
  by (auto simp: esb_transport_on_slot_stop_def Let_def tr_wf_def intro!: link_wf_tr link_wf_radio_set r_disable)

lemma link_wf_stats:
  "kconfig_ok cfg \<Longrightarrow> link_wf cfg l \<Longrightarrow> link_wf cfg (esb_transport_on_rx_link_stats cfg data l)"
  by (auto simp: esb_transport_on_rx_link_stats_def tr_wf_def intro!: link_wf_hop link_wf_tr hop_wf_peer_rssi)

lemma link_wf_threads:
  assumes "link_wf cfg l" "kconfig_ok cfg"
  shows "link_wf cfg (on_tr (esb_transport_set_addresses b0 b1 pfx ch) l)" "link_wf cfg (on_tr esb_transport_init l)"
    "link_wf cfg (on_tr esb_transport_deinit l)" "link_wf cfg (adaptive_retry_work_fn cfg l)"
    "link_wf cfg (on_tr (\<lambda>t. snd (rx_work_fn now t)) l)" "link_wf cfg (on_tr (\<lambda>t. snd (hid_resync_work_fn t)) l)"
    "link_wf cfg (on_tr esb_transport_reset_consecutive_fail l)"
proof -
  show "link_wf cfg (on_tr (esb_transport_set_addresses b0 b1 pfx ch) l)"
    "link_wf cfg (on_tr esb_transport_deinit l)" "link_wf cfg (on_tr esb_transport_reset_consecutive_fail l)"
    "link_wf cfg (on_tr (\<lambda>t. snd (rx_work_fn now t)) l)" "link_wf cfg (on_tr (\<lambda>t. snd (hid_resync_work_fn t)) l)"
    using assms(1)
    by (auto simp: esb_transport_set_addresses_def esb_transport_deinit_def esb_transport_reset_consecutive_fail_def
        rx_work_fn_def hid_resync_work_fn_def note_activity_def Let_def tr_wf_def intro!: link_wf_tr)
  show "link_wf cfg (on_tr esb_transport_init l)"
    using assms(1) by (auto simp: esb_transport_init_def tr_wf_def lq_wf_def lq_history_def intro!: link_wf_tr)
  show "link_wf cfg (adaptive_retry_work_fn cfg l)"
    using link_wf_radio [OF assms(1), of "esb_set_retransmit_count (adaptive_retry_target cfg (lq (tr l)))", OF r_count] retry_byte [OF assms(2)] assms(1)
    by (simp add: adaptive_retry_work_fn_def split_beta Let_def tr_wf_def link_wf_def on_radio_def)
qed

lemma transmit_sync [simp]:
  "sync_in_progress (tr (snd (transmit cfg now pipe data l))) = sync_in_progress (tr l)"
  by (simp add: transmit_def split_beta Let_def core_fields(4) [OF attach_parts(7)])
    (simp add: note_send_def note_activity_def note_hid_tx_def Let_def)

lemma up_link_rhead [simp]: "rhead (mring (mot (tr up_link))) = 0"
  by (simp add: up_link_def transport_boot_def)

end
