(* ===== verification/Delivery.thy ===== *)
theory Delivery
  imports LinkInv
begin

text \<open>
  What one delivered packet does to the transmit queue and the bookkeeping rings.
\<close>

section \<open>Delivery\<close>

lemma consume_flag_law:
  assumes "ring_wf r" "ring_list r = x # xs"
  shows "ring_wf (snd (consume_flag r)) \<and> ring_list (snd (consume_flag r)) = xs"
proof -
  have ne: "ring_nonempty r" using assms(2) by (metis list.distinct(1) ring_list_nil_iff)
  with ring_drop_law [OF assms(1) ne] assms(2) show ?thesis by (simp add: consume_flag_def)
qed

lemma consume_rings:
  assumes w: "motion_wf cfg (mot t)" and ne: "ring_list (mring (mot t)) = rec # rs"
  shows "motion_wf cfg (snd (motion_ring_consume now False (mot t)))
    \<and> ring_list (mring (snd (motion_ring_consume now False (mot t)))) = rs"
proof -
  have nonempty: "ring_nonempty (mring (mot t))" using ne by (metis list.distinct(1) ring_list_nil_iff)
  have "ring_list (ring_drop (mring (mot t))) = rs" "ring_peek (mring (mot t)) = rec"
    using ring_list_Cons [OF nonempty] ne by simp_all
  with ring_fit_drop [OF _ nonempty] w ne show ?thesis
    by (auto simp: motion_ring_consume_def nonempty Let_def motion_wf_def moving_def)
qed

text \<open>The rings and the queue through one success event.\<close>

lemma success_rings:
  fixes now :: u32 and a :: nat and cfg :: kconfig
  assumes s: "\<not> sync_in_progress (tr l)"
  defines "l' \<equiv> zmk_esb_transport_evt_cb cfg now (Tx_Success a) l"
  shows "noack_ring (tr l') = snd (consume_flag (noack_ring (tr l)))"
    "crit_ring (tr l') = snd (consume_flag (crit_ring (tr l)))"
    "mot (tr l') = snd (motion_ring_consume now False (mot (tr l)))"
    "same_queue (radio l) (radio l')" "sync_in_progress (tr l') = False"
proof -
  define l0 where "l0 = on_tr (\<lambda>t. t\<lparr>last_tx_event_ms := nz_stamp now\<rparr>) l"
  let ?l1 = "on_hop (channel_hop_ep_on_tx_success_isr cfg now) (on_tr (\<lambda>t. t\<lparr>tx_ok_count := tx_ok_count t + 1,
                     tx_retried_count := tx_retried_count t + (if 1 < a then 1 else 0),
                     consecutive_fail := 0, first_fail_ms := 0, last_success_ms := nz_stamp now\<rparr>) l0)"
  let ?l3 = "record_success cfg now a ?l1"
  let ?k = "consume_override (?l3\<lparr>bn := esb_bench_notify_tx_success (bn ?l3)\<rparr>)"
  have s0: "\<not> sync_in_progress (tr l0)" using s by (simp add: l0_def)
  have "l' = on_tx_success cfg now a l0" by (simp add: l'_def zmk_esb_transport_evt_cb_def l0_def)
  also have "\<dots> = consume_motion cfg now False ?k" unfolding on_tx_success_def Let_def using s0 by (simp only: if_False)
  finally have eq: "l' = consume_motion cfg now False ?k" .
  have l3: "noack_ring (tr ?l3) = snd (consume_flag (noack_ring (tr l)))" "crit_ring (tr ?l3) = crit_ring (tr l)"
    "mot (tr ?l3) = mot (tr l)" "radio ?l3 = radio l" "sync_in_progress (tr ?l3) = False"
    using s by (simp_all add: record_success_def degraded_check_def split_beta Let_def l0_def)
  have "same_queue (radio (?l3\<lparr>bn := esb_bench_notify_tx_success (bn ?l3)\<rparr>)) (radio ?k)"
    by (rule consume_override_parts(4))
  then have k: "same_queue (radio l) (radio ?k)" using l3(4) by simp
  have mk: "mot (tr ?k) = mot (tr l)" "noack_ring (tr ?k) = snd (consume_flag (noack_ring (tr l)))"
    "crit_ring (tr ?k) = snd (consume_flag (crit_ring (tr l)))" "sync_in_progress (tr ?k) = False"
    using l3 by simp_all
  obtain kind restore m where c0: "motion_ring_consume now False (mot (tr l)) = ((kind, restore), m)"
    by (cases "motion_ring_consume now False (mot (tr l))") (metis surj_pair)
  then have c: "motion_ring_consume now False (mot (tr ?k)) = ((kind, restore), m)" unfolding mk(1) .
  have "kind = KIND_NONE" using c0 by (auto simp: motion_ring_consume_def Let_def split: if_splits)
  then have tr: "tr l' = (tr ?k)\<lparr>mot := m\<rparr>" using consume_motion_parts(1) [OF c, of cfg] by (simp add: eq)
  show "noack_ring (tr l') = snd (consume_flag (noack_ring (tr l)))"
    "crit_ring (tr l') = snd (consume_flag (crit_ring (tr l)))" "sync_in_progress (tr l') = False"
    unfolding tr using mk by simp_all
  show "mot (tr l') = snd (motion_ring_consume now False (mot (tr l)))" unfolding tr using c0 by simp
  show "same_queue (radio l) (radio l')"
    using same_queue_trans [OF k consume_motion_parts(4) [OF c, of cfg]] by (simp only: eq)
qed

text \<open>
   A delivered packet leaves the queue and every ring at the same time: when the packet at the
  front is acknowledged and its event is handled, outside a side trip, the queue and the rings
  each lose exactly their first entry and stay in lockstep.
\<close>

theorem delivery_keeps_lockstep:
  assumes w: "link_wf cfg l" and ls: "lockstep cfg l" and s: "\<not> sync_in_progress (tr l)"
    and st: "esb_st (radio l) = PTX_RX_ACK" "tx_queue (radio l) = p # ps"
    and flags: "\<not> int_tx_success (radio l)" "\<not> int_tx_failed (radio l)" "\<not> int_rx_received (radio l)"
    and plain: "pl_data frame = []"
  shows "let l' = esb_event_interrupt cfg now
             (l\<lparr>radio := on_radio_disabled_tx_wait_for_ack cfg (Some frame) (radio l)\<rparr>)
         in lockstep cfg l' \<and> tx_queue (radio l') = ps"
proof -
  let ?r1 = "on_radio_disabled_tx_wait_for_ack cfg (Some frame) (radio l)"
  let ?k = "l\<lparr>radio := snd (esb_evt_irq_handler ?r1)\<rparr>"
  have fw: "fifo_wf (tx_fifo (radio l))" using w by (simp add: link_wf_def esb_wf_def)
  have q: "tx_queue ?r1 = ps" using ack_queue [OF fw, of cfg frame] st(2) by simp
  have fl: "int_tx_success ?r1" "\<not> int_tx_failed ?r1" "\<not> int_rx_received ?r1"
    using flags plain by (simp_all add: wait_for_ack_Some ack_reception_def Let_def tx_fifo_remove_last_def)
  have ev: "esb_event_interrupt cfg now (l\<lparr>radio := ?r1\<rparr>)
      = zmk_esb_transport_evt_cb cfg now (Tx_Success (last_tx_attempts ?r1)) ?k"
    using fl by (simp add: esb_event_interrupt_def esb_evt_irq_handler_def)
  have qk: "tx_queue (radio ?k) = ps" using q by (simp add: esb_evt_irq_handler_def)
  have "\<not> sync_in_progress (tr ?k)" using s by simp
  note e = success_rings [OF this, of cfg now "last_tx_attempts ?r1"]
  have rw: "ring_wf (noack_ring (tr l))" "ring_wf (crit_ring (tr l))" "motion_wf cfg (mot (tr l))"
    and lists: "ring_list (noack_ring (tr l)) = pl_noack p # map pl_noack ps"
      "ring_list (crit_ring (tr l)) = is_critical (pl_data p) # map (is_critical \<circ> pl_data) ps"
      "map mr_kind (ring_list (mring (mot (tr l)))) = pkt_kind p # map pkt_kind ps"
      "map mr_motion (ring_list (mring (mot (tr l)))) = pkt_motion p # map pkt_motion ps"
    using ls st(2) by (simp_all add: lockstep_def rings_wf_def)
  obtain rec rs where ne: "ring_list (mring (mot (tr l))) = rec # rs" using lists(3) by auto
  show ?thesis
    using consume_flag_law [OF rw(1) lists(1)] consume_flag_law [OF rw(2) lists(2)] consume_rings [OF rw(3) ne, of now]
      same_queueD(1) [OF e(4)] qk ls lists(3,4) ne
    unfolding ev by (simp add: Let_def lockstep_def rings_wf_def e(1,2,3))
qed

text \<open>A link whose only packet has left the antenna and waits for its acknowledgement.\<close>

definition on_air :: link where
  "on_air = (let l = snd (transmit default_kconfig 500 1 kb_report up_link); s = radio l
     in l\<lparr>radio := s\<lparr>esb_st := PTX_RX_ACK, current_payload := Some (hd (tx_queue s)),
          retransmits_remaining := 0, int_tx_success := False, int_tx_failed := False, int_rx_received := False\<rparr>\<rparr>)"

lemma esb_wf_on_air:
  assumes "esb_wf cfg s" "tx_queue s \<noteq> []"
  shows "esb_wf cfg (s\<lparr>esb_st := PTX_RX_ACK, current_payload := Some (hd (tx_queue s)),
          retransmits_remaining := 0, int_tx_success := False, int_tx_failed := False, int_rx_received := False\<rparr>)"
proof -
  have "payload_ok cfg (hd (tx_queue s))" using assms hd_in_set [OF assms(2)] by (simp add: esb_wf_def)
  with assms(1) show ?thesis by (simp add: esb_wf_def)
qed

lemma on_air_ok:
  "link_wf default_kconfig on_air \<and> lockstep default_kconfig on_air \<and> (\<exists>p. tx_queue (radio on_air) = [p])
   \<and> \<not> sync_in_progress (tr on_air)"
proof -
  define l where "l = snd (transmit default_kconfig 500 1 kb_report up_link)"
  have air: "on_air = l\<lparr>radio := (radio l)\<lparr>esb_st := PTX_RX_ACK, current_payload := Some (hd (tx_queue (radio l))),
          retransmits_remaining := 0, int_tx_success := False, int_tx_failed := False, int_rx_received := False\<rparr>\<rparr>"
    unfolding on_air_def l_def Let_def by (rule refl)
  have kb: "kb_report \<noteq> []" "length kb_report = 10" by (simp_all add: kb_report_def)
  have wf: "esb_wf default_kconfig (radio up_link)" by (simp add: up_esb_wf)
  have "tx_queue (radio up_link) = []" by simp
  then have ls: "\<exists>p. tx_queue (radio l) = [p]" "lockstep default_kconfig l"
    using lockstep_transmit [OF kconfig_ok_default default_rings_fit wf _ _ kb(1) _ _ up_link_lockstep,
        of 1 500] kb(2) up_link_rhead
    by (simp_all add: esb_tx_full_def l_def)
  have w: "link_wf default_kconfig l" unfolding l_def by (rule link_wf_transmit [OF up_link_wf])
  have q: "tx_queue (radio on_air) = tx_queue (radio l)" "tr on_air = tr l" by (simp_all add: air)
  have ne: "tx_queue (radio l) \<noteq> []" using ls(1) by (metis list.distinct(1))
  then have i: "esb_initialized (radio l)" using w by (auto simp: link_wf_def esb_down_def)
  have "link_wf default_kconfig on_air"
    using w i esb_wf_on_air [OF _ ne, of default_kconfig]
    unfolding air by (simp add: link_wf_def esb_down_def)
  moreover have "lockstep default_kconfig on_air" using ls(2) by (simp add: lockstep_def q)
  moreover have "\<not> sync_in_progress (tr l)" by (simp add: l_def)
  ultimately show ?thesis using ls(1) q by simp
qed

lemma on_air_st: "esb_st (radio on_air) = PTX_RX_ACK"
  by (simp add: on_air_def Let_def)

theorem delivery_keeps_lockstep_witness:
  "tx_queue (radio (esb_event_interrupt default_kconfig 900
     (on_air\<lparr>radio := on_radio_disabled_tx_wait_for_ack default_kconfig (Some blank_payload) (radio on_air)\<rparr>))) = []"
proof -
  obtain p where q: "tx_queue (radio on_air) = p # []"
    using on_air_ok by blast
  have fl: "esb_st (radio on_air) = PTX_RX_ACK" "\<not> int_tx_success (radio on_air)" "\<not> int_tx_failed (radio on_air)"
    "\<not> int_rx_received (radio on_air)"
    by (simp_all add: on_air_def Let_def)
  have "pl_data blank_payload = []" by (simp add: blank_payload_def)
  with delivery_keeps_lockstep [OF _ _ _ fl(1) q fl(2-4)] on_air_ok show ?thesis by (simp add: Let_def)
qed

end
