(* ===== verification/HopWork.thy ===== *)
theory HopWork
  imports LinkInv
begin

text \<open>
  The work items of \<open>src/src/esb/channel_hop_ep.c\<close> that talk to the transport: negotiation of the
  next channel, the idle transition, the burst of proposals after a hop with its side trips to the
  rendezvous channel, the failure-driven hop, and the offer and commit of a cooperative hop; and
  the two of \<open>src/src/esb/bench.c\<close> that send BENCH_STOP. They run on the system work queue over
  the whole \<open>link\<close>; \<open>now\<close> is the clock, \<open>cyc\<close> the cycle counter, \<open>addr\<close> the jitter seed's address.
\<close>

section \<open>Proposals\<close>

definition send_pkt :: "kconfig \<Rightarrow> u32 \<Rightarrow> u32 \<Rightarrow> pkt \<Rightarrow> link \<Rightarrow> rc \<times> link" where
  "send_pkt cfg now addr p l = esb_transport_send cfg now addr pipe_data (layout p) l"

definition send_proposal :: "kconfig \<Rightarrow> u32 \<Rightarrow> u32 \<Rightarrow> nat \<Rightarrow> link \<Rightarrow> link" where
  "send_proposal cfg now addr candidate l =
     snd (send_pkt cfg now addr (Hop_Proposal (of_nat candidate) (of_nat (t_channel (tr l)))) l)"

definition negotiate_work_fn :: "kconfig \<Rightarrow> u32 \<Rightarrow> u32 \<Rightarrow> u32 \<Rightarrow> link \<Rightarrow> link" where
  "negotiate_work_fn cfg now cyc addr l =
     (let h = hopm l; current = t_channel (tr l) in
      if \<not> link_up h then l
      else if \<not> hop_active h then on_hop (hop_resched W_negotiate (c_negotiate_interval_ms cfg)) l
      else
        let needs_commit = (\<not> usable_next now current h (committed_next h));
            l1 = (if needs_commit then
                    (let (candidate, h1) = pick_candidate cfg now cyc current (h\<lparr>committed_synced := False\<rparr>);
                         k = l\<lparr>hopm := h1\<rparr>
                     in if candidate \<noteq> channel_invalid then send_proposal cfg now addr candidate k else k)
                  else if \<not> committed_synced h then send_proposal cfg now addr (committed_next h) l else l);
            burst = (0 < request_burst (hopm l1));
            l2 = (if burst then on_hop (\<lambda>h. h\<lparr>request_burst := request_burst h - 1\<rparr>) l1 else l1)
        in on_hop (hop_resched W_negotiate
             (if needs_commit \<or> burst then c_negotiate_retry_ms cfg else c_negotiate_interval_ms cfg)) l2)"

section \<open>Going idle\<close>

definition send_idle_packet :: "kconfig \<Rightarrow> u32 \<Rightarrow> u32 \<Rightarrow> link \<Rightarrow> link" where
  "send_idle_packet cfg now addr l = snd (send_pkt cfg now addr Idle (esb_transport_flush_tx cfg l))"

definition enter_idle_state :: "kconfig \<Rightarrow> u32 \<Rightarrow> u32 \<Rightarrow> link \<Rightarrow> link" where
  "enter_idle_state cfg now addr l =
     (if \<not> hop_active (hopm l) then l else send_idle_packet cfg now addr (on_hop leave_active l))"

definition idle_check_work_fn :: "kconfig \<Rightarrow> u32 \<Rightarrow> u32 \<Rightarrow> link \<Rightarrow> link" where
  "idle_check_work_fn cfg now addr l =
     (if \<not> link_up (hopm l) \<or> \<not> hop_active (hopm l) then l else enter_idle_state cfg now addr l)"

section \<open>The burst after a hop\<close>

text \<open>What a tick of the burst does once its packet is out.\<close>

definition burst_tail :: "kconfig \<Rightarrow> u32 \<Rightarrow> u32 \<Rightarrow> link \<Rightarrow> link" where
  "burst_tail cfg now addr l =
     (let l1 = on_hop (\<lambda>h. h\<lparr>burst_remaining := (burst_remaining h + 255) mod 256\<rparr>) l in
      if 0 < burst_remaining (hopm l1)
      then on_hop (hop_resched W_post_hop_burst (c_burst_interval_ms cfg)) l1
      else
        let l2 = on_hop (\<lambda>h. h\<lparr>pending_candidate := channel_invalid\<rparr>) l1
        in if \<not> hop_active (hopm l2) then send_idle_packet cfg now addr l2 else l2)"

definition burst_to_rendezvous :: "kconfig \<Rightarrow> link \<Rightarrow> bool" where
  "burst_to_rendezvous cfg l \<longleftrightarrow>
     (let tick = (256 + c_burst_count cfg - burst_remaining (hopm l)) mod 256 in
      0 < c_burst_rdv_every cfg \<and> 0 < tick \<and> tick mod c_burst_rdv_every cfg = 0
      \<and> boot_channel (tr l) \<noteq> t_channel (tr l))"

text \<open>
  A tick of the burst. \<open>True\<close> means that it is blocked in \<open>esb_transport_send_blocking\<close> on the
  rendezvous channel; \<open>post_hop_burst_resume\<close> is the rest of the tick after the wait.
\<close>

definition post_hop_burst_work_fn :: "kconfig \<Rightarrow> u32 \<Rightarrow> u32 \<Rightarrow> u32 \<Rightarrow> link \<Rightarrow> bool \<times> link" where
  "post_hop_burst_work_fn cfg now cyc addr l =
     (if burst_remaining (hopm l) = 0 then (False, l)
      else
        let current = t_channel (tr l);
            (candidate, h1) = (if usable_next now current (hopm l) (committed_next (hopm l))
                               then (committed_next (hopm l), hopm l)
                               else select_pending_candidate cfg now cyc current (hopm l));
            l1 = l\<lparr>hopm := h1\<rparr>
        in if burst_to_rendezvous cfg l1 then
             (let (r, l2) = send_blocking_begin cfg (boot_channel (tr l1)) pipe_data
                    (layout (Hop_Proposal (of_nat current) (of_nat current))) l1
              in if r = OK then (True, l2) else (False, burst_tail cfg now addr l2))
           else if candidate \<noteq> channel_invalid \<and> \<not> committed_synced (hopm l1)
             then (False, burst_tail cfg now addr (send_proposal cfg now addr candidate l1))
           else (False, burst_tail cfg now addr l1))"

definition post_hop_burst_resume :: "kconfig \<Rightarrow> u32 \<Rightarrow> u32 \<Rightarrow> link \<Rightarrow> link" where
  "post_hop_burst_resume cfg now addr l = burst_tail cfg now addr (snd (send_blocking_finish cfg l))"

section \<open>The failure-driven hop\<close>

definition hop_work_fn :: "kconfig \<Rightarrow> u32 \<Rightarrow> u32 \<Rightarrow> link \<Rightarrow> link" where
  "hop_work_fn cfg now cyc l =
     (let current = t_channel (tr l); rdv = boot_channel (tr l);
          l0 = on_hop (on_offs (persist_decay_check cfg rdv now)) l;
          (decision, h) = hop_decide cfg now cyc rdv current (hopm l0);
          l1 = l0\<lparr>hopm := h\<rparr>
      in case decision of
           None \<Rightarrow> (if rdv_fallback_pending (hopm l0) then l1
                    else on_tr esb_transport_reset_consecutive_fail l1)
         | Some (kind, target) \<Rightarrow>
             (let (r, l2) = esb_transport_set_channel cfg now target l1
              in if r \<noteq> OK
                 then on_hop (hop_resched W_hop_retry (c_hop_retry_delay_ms cfg))
                        (on_tr esb_transport_reset_consecutive_fail l2)
                 else on_hop (hop_committed cfg now rdv current kind target) l2))"

section \<open>The cooperative hop\<close>

definition coop_hop_offer_work_fn :: "kconfig \<Rightarrow> u32 \<Rightarrow> u32 \<Rightarrow> u32 \<Rightarrow> link \<Rightarrow> link" where
  "coop_hop_offer_work_fn cfg now cyc addr l =
     (let current = t_channel (tr l) in
      if \<not> link_up (hopm l) \<or> \<not> hop_active (hopm l) then on_hop (\<lambda>h. h\<lparr>coop_st := COOP_IDLE\<rparr>) l
      else if coop_st (hopm l) \<noteq> COOP_OFFERED then l
      else
        let (target, h1) = coop_hop_pick_target cfg now cyc current (hopm l);
            l1 = l\<lparr>hopm := h1\<rparr>
        in if target = channel_invalid \<or> target = current then on_hop (\<lambda>h. h\<lparr>coop_st := COOP_IDLE\<rparr>) l1
           else
             let l2 = on_hop (\<lambda>h. h\<lparr>coop_target := target, coop_seq := coop_seq h + 1,
                                   last_tx_was_offer := True\<rparr>) l1;
                 (r, l3) = send_pkt cfg now addr
                    (Hop_Offer (of_nat target) (of_nat (c_coop_hop_in_ms cfg)) (coop_seq (hopm l2))) l2
             in if r \<noteq> OK
                then on_hop (\<lambda>h. h\<lparr>last_tx_was_offer := False, coop_st := COOP_IDLE\<rparr>) l3 else l3)"

definition coop_hop_commit_work_fn :: "kconfig \<Rightarrow> u32 \<Rightarrow> link \<Rightarrow> link" where
  "coop_hop_commit_work_fn cfg now l =
     (let current = t_channel (tr l); target = coop_target (hopm l) in
      if coop_st (hopm l) \<noteq> COOP_ARMED then l
      else if target = channel_invalid \<or> target = current then on_hop (\<lambda>h. h\<lparr>coop_st := COOP_IDLE\<rparr>) l
      else
        let (r, l1) = esb_transport_set_channel cfg now target l
        in if r \<noteq> OK
           then on_hop (\<lambda>h. hop_resched W_hop_retry (c_hop_retry_delay_ms cfg) (h\<lparr>coop_st := COOP_IDLE\<rparr>)) l1
           else on_hop (coop_committed cfg now (boot_channel (tr l)) current) l1)"

section \<open>The end of a benchmark\<close>

definition on_bn :: "(bench \<Rightarrow> bench) \<Rightarrow> link \<Rightarrow> link" where
  "on_bn f l = l\<lparr>bn := f (bn l)\<rparr>"

definition bench_complete_fn :: "kconfig \<Rightarrow> u32 \<Rightarrow> u32 \<Rightarrow> link \<Rightarrow> link" where
  "bench_complete_fn cfg now addr l =
     (if bn_state (bn l) \<noteq> BENCH_RUNNING then l
      else
        let l1 = snd (send_pkt cfg now addr Bench_Stop (on_bn (bench_cancel W_bench_tx) l))
        in on_bn (\<lambda>b. bench_resched W_bench_timeout (c_bench_timeout_ms cfg)
                  (bench_resched W_bench_poll (c_bench_poll_ms cfg) (b\<lparr>bn_state := BENCH_STOPPING\<rparr>))) l1)"

definition bench_result_poll_fn :: "kconfig \<Rightarrow> u32 \<Rightarrow> u32 \<Rightarrow> link \<Rightarrow> link" where
  "bench_result_poll_fn cfg now addr l =
     (if bn_state (bn l) \<noteq> BENCH_STOPPING then l
      else on_bn (bench_resched W_bench_poll (c_bench_poll_ms cfg)) (snd (send_pkt cfg now addr Bench_Stop l)))"

end
