(* ===== verification/Channel.thy ===== *)
theory Channel
  imports Delivery
begin

text \<open>
  What a channel change and the blocking side trip to another channel do to the transmit queue,
  the rings and the rest of the link: the queue is parked in the stash and comes back unchanged,
  and a radio that stays busy is stopped after a bounded number of attempts.
\<close>

section \<open>Parking and restoring\<close>

lemma stash_parts:
  assumes "esb_initialized s"
  shows "tx_queue (snd (esb_stash_tx s)) = []" "tx_stash (snd (esb_stash_tx s)) = tx_queue s"
    "esb_initialized (snd (esb_stash_tx s))" "esb_st (snd (esb_stash_tx s)) = esb_st s"
    "tx_size (snd (esb_stash_tx s)) = tx_size s" "rf_channel (snd (esb_stash_tx s)) = rf_channel s"
    "esb_pids (snd (esb_stash_tx s)) = esb_pids s" "esb_cfg (snd (esb_stash_tx s)) = esb_cfg s"
  using assms by (simp_all add: esb_stash_tx_def Let_def)

lemma restore_parked:
  assumes w: "esb_wf cfg s" and i: "esb_initialized s" "tx_queue s = []"
  shows "\<exists>s'. esb_restore_tx s = (Inr (length (tx_stash s)), s') \<and> tx_queue s' = tx_stash s \<and> tx_stash s' = []
     \<and> esb_initialized s' \<and> esb_st s' = esb_st s \<and> rf_channel s' = rf_channel s \<and> esb_pids s' = esb_pids s
     \<and> esb_cfg s' = esb_cfg s"
proof -
  have f: "fcount (tx_fifo s) = 0" using i(2) by simp
  have l: "length (tx_stash s) \<le> tx_size s" using w by (simp add: esb_wf_def)
  show ?thesis
    using restore_law [OF w] f l i by (cases "tx_stash s = []") (simp_all add: esb_restore_tx_def)
qed

text \<open>The wrapper on a link whose queue is empty: only the radio changes.\<close>

lemma restore_or_drop_parked:
  assumes "esb_wf cfg (radio l)" "esb_initialized (radio l)" "tx_queue (radio l) = []"
  shows "\<exists>s'. esb_restore_tx_or_drop cfg l = l\<lparr>radio := s'\<rparr> \<and> tx_queue s' = tx_stash (radio l)
     \<and> esb_initialized s' \<and> esb_st s' = esb_st (radio l) \<and> rf_channel s' = rf_channel (radio l) \<and> tx_stash s' = []
     \<and> esb_wf cfg s' \<and> esb_cfg s' = esb_cfg (radio l)"
proof -
  obtain s' where s: "esb_restore_tx (radio l) = (Inr (length (tx_stash (radio l))), s')"
      "tx_queue s' = tx_stash (radio l)" "tx_stash s' = []" "esb_initialized s'"
      "esb_st s' = esb_st (radio l)" "rf_channel s' = rf_channel (radio l)" "esb_cfg s' = esb_cfg (radio l)"
    using restore_parked [OF assms] by blast
  have "esb_wf cfg s'" using esb_wf_restore [OF assms(1)] s(1) by simp
  with s show ?thesis by (auto simp: esb_restore_tx_or_drop_def)
qed

section \<open>Retuning\<close>

definition retune_ok :: "kconfig \<Rightarrow> nat \<Rightarrow> link \<Rightarrow> bool" where
  "retune_ok cfg ch l \<longleftrightarrow> ch \<le> 100
     \<and> (esb_st (radio l) = ESB_IDLE \<or> c_stop_tx_after_busy cfg \<le> (busy_streak (tr l) + 1) mod 256)"

lemma retune_law:
  "retune cfg ch l =
     (if retune_ok cfg ch l
      then (OK, l\<lparr>radio := (radio l)\<lparr>esb_st := ESB_IDLE, rf_channel := ch\<rparr>, tr := (tr l)\<lparr>busy_streak := 0\<rparr>\<rparr>)
      else if 100 < ch then (Err EINVAL, l)
      else (Err EBUSY, l\<lparr>tr := (tr l)\<lparr>busy_streak := (busy_streak (tr l) + 1) mod 256\<rparr>\<rparr>))"
  by (cases l, cases "radio l")
    (auto simp: retune_def retune_ok_def esb_set_rf_channel_def esb_stop_tx_def Let_def on_tr_def on_radio_def)

section \<open>Properties\<close>

lemma retuned_parts:
  assumes "retune cfg ch l = (r, l')"
  shows "tx_queue (radio l') = tx_queue (radio l)" "tx_stash (radio l') = tx_stash (radio l)"
    "esb_initialized (radio l') = esb_initialized (radio l)" "hopm l' = hopm l" "bn l' = bn l"
    "r = OK \<longleftrightarrow> retune_ok cfg ch l" "rf_channel (radio l') = (if r = OK then ch else rf_channel (radio l))"
    "tr l' = (tr l)\<lparr>busy_streak := busy_streak (tr l')\<rparr>"
  using assms unfolding retune_law by (auto split: if_splits)

lemma lockstep_parked:
  assumes "lockstep cfg l" "tx_queue (radio l') = tx_queue (radio l)" "noack_ring (tr l') = noack_ring (tr l)"
    "crit_ring (tr l') = crit_ring (tr l)" "mring (mot (tr l')) = mring (mot (tr l))"
    "inflight (mot (tr l')) = inflight (mot (tr l))" "refund_wf (refund (mot (tr l')))"
  shows "lockstep cfg l'"
  using assms by (simp add: lockstep_def rings_wf_def motion_wf_def)

text \<open>Restoring after the retune, on any link that holds the retuned radio.\<close>

lemma retuned_restore:
  assumes w: "link_wf cfg l" and up: "esb_initialized (radio l)"
    and rt: "retune cfg ch (on_radio esb_stash_tx l) = (r, l1)" and k: "radio k = radio l1"
  shows "\<exists>s'. esb_restore_tx_or_drop cfg k = k\<lparr>radio := s'\<rparr> \<and> tx_queue s' = tx_queue (radio l)
      \<and> esb_initialized s' \<and> rf_channel s' = rf_channel (radio k) \<and> esb_st s' = esb_st (radio k)"
proof -
  have "link_wf cfg (on_radio esb_stash_tx l)" using w by (rule link_wf_radio) (rule r_stash)
  then have "link_wf cfg l1" using link_wf_retune [of cfg "on_radio esb_stash_tx l" ch] rt by simp
  then have "esb_wf cfg (radio k)" using k by (simp add: link_wf_def)
  then show ?thesis
    using restore_or_drop_parked [of cfg k] retuned_parts(1-3) [OF rt] stash_parts [OF up] k by fastforce
qed

text \<open>The channel change, with the radio up, as one equation for either outcome.\<close>

lemma set_channel_ok:
  assumes w: "link_wf cfg l" and up: "t_configured (tr l)" "esb_initialized (radio l)" and ok: "retune_ok cfg ch l"
  shows "\<exists>s'. esb_transport_set_channel cfg now ch l = (OK, l\<lparr>radio := s',
             tr := channel_changed cfg now ((tr l)\<lparr>busy_streak := 0, t_channel := ch\<rparr>)\<rparr>)
     \<and> tx_queue s' = tx_queue (radio l) \<and> esb_initialized s' \<and> rf_channel s' = ch \<and> esb_st s' = ESB_IDLE"
proof -
  let ?p = "on_radio esb_stash_tx l"
  let ?l1 = "?p\<lparr>radio := (radio ?p)\<lparr>esb_st := ESB_IDLE, rf_channel := ch\<rparr>, tr := (tr ?p)\<lparr>busy_streak := 0\<rparr>\<rparr>"
  let ?k = "on_tr (\<lambda>t. t\<lparr>t_channel := ch\<rparr>) ?l1"
  have "retune_ok cfg ch ?p" using ok stash_parts(4) [OF up(2)] by (simp add: retune_ok_def)
  then have rt: "retune cfg ch ?p = (OK, ?l1)" by (simp only: retune_law if_True)
  obtain s' where s': "esb_restore_tx_or_drop cfg ?k = ?k\<lparr>radio := s'\<rparr>" "tx_queue s' = tx_queue (radio l)"
      "esb_initialized s'" "rf_channel s' = ch" "esb_st s' = ESB_IDLE"
    using retuned_restore [OF w up(2) rt, of ?k] by auto
  have "esb_transport_set_channel cfg now ch l = (OK, on_tr (channel_changed cfg now) (?k\<lparr>radio := s'\<rparr>))"
    using up(1) by (simp only: esb_transport_set_channel_def rt s'(1) Let_def prod.case rc.simps
        not_True_eq_False not_False_eq_True if_True if_False HOL.simp_thms)
  with s' show ?thesis by (intro exI [of _ s']) (simp add: on_tr_def on_radio_def)
qed

lemma set_channel_err:
  assumes w: "link_wf cfg l" and up: "t_configured (tr l)" "esb_initialized (radio l)" and no: "\<not> retune_ok cfg ch l"
  shows "\<exists>s'. esb_transport_set_channel cfg now ch l = (Err (if 100 < ch then EINVAL else EBUSY),
             l\<lparr>radio := s', tr := (tr l)\<lparr>busy_streak := if 100 < ch then busy_streak (tr l)
                else (busy_streak (tr l) + 1) mod 256\<rparr>\<rparr>)
     \<and> tx_queue s' = tx_queue (radio l) \<and> esb_initialized s' \<and> rf_channel s' = rf_channel (radio l)"
proof -
  let ?p = "on_radio esb_stash_tx l"
  let ?b = "if 100 < ch then busy_streak (tr l) else (busy_streak (tr l) + 1) mod 256"
  let ?l1 = "?p\<lparr>tr := (tr ?p)\<lparr>busy_streak := ?b\<rparr>\<rparr>"
  have "\<not> retune_ok cfg ch ?p" using no stash_parts(4) [OF up(2)] by (simp add: retune_ok_def)
  then have rt: "retune cfg ch ?p = (Err (if 100 < ch then EINVAL else EBUSY), ?l1)" by (simp add: retune_law)
  obtain s' where s': "esb_restore_tx_or_drop cfg ?l1 = ?l1\<lparr>radio := s'\<rparr>" "tx_queue s' = tx_queue (radio l)"
      "esb_initialized s'" "rf_channel s' = rf_channel (radio l)"
    using retuned_restore [OF w up(2) rt, of ?l1] stash_parts(6) [OF up(2)] by auto
  have "esb_transport_set_channel cfg now ch l = (Err (if 100 < ch then EINVAL else EBUSY), ?l1\<lparr>radio := s'\<rparr>)"
    using up(1) by (simp only: esb_transport_set_channel_def rt s'(1) Let_def prod.case rc.simps
        not_True_eq_False not_False_eq_True if_True if_False HOL.simp_thms)
  with s' show ?thesis by (intro exI [of _ s']) (simp add: on_radio_def)
qed

text \<open>
  C18. Changing the channel. On an initialised radio the change succeeds exactly when the channel is
  at most 100 and the radio is idle or has been busy often enough to be stopped; either way the
  transmit queue comes back from the stash unchanged and in lockstep with the rings, and neither
  the hop manager nor the benchmark is touched. A success moves radio and transport to the channel,
  wipes the failure and quality history and the refund, and arms the quiet window; a failure
  leaves everything but the busy streak as it was.
\<close>

theorem set_channel_correct:
  assumes w: "link_wf cfg l" and up: "t_configured (tr l)" "esb_initialized (radio l)"
  shows "let (r, l') = esb_transport_set_channel cfg now ch l in
      (r = OK \<longleftrightarrow> retune_ok cfg ch l) \<and> tx_queue (radio l') = tx_queue (radio l)
    \<and> (lockstep cfg l \<longrightarrow> lockstep cfg l') \<and> hopm l' = hopm l \<and> bn l' = bn l
    \<and> (if r = OK
       then rf_channel (radio l') = ch \<and> t_channel (tr l') = ch \<and> busy_streak (tr l') = 0
          \<and> consecutive_fail (tr l') = 0 \<and> first_fail_ms (tr l') = 0 \<and> last_success_ms (tr l') = 0
          \<and> lq (tr l') = lq_reset \<and> \<not> degraded_armed (tr l') \<and> refund (mot (tr l')) = no_refund
          \<and> \<not> peer_rssi_valid (tr l') \<and> quiet_until (tr l') = nz_stamp (now + c_post_quiet_ms cfg)
       else rf_channel (radio l') = rf_channel (radio l)
          \<and> tr l' = (tr l)\<lparr>busy_streak := busy_streak (tr l')\<rparr>)"
proof (cases "retune_ok cfg ch l")
  case True
  obtain s' where s': "esb_transport_set_channel cfg now ch l = (OK, l\<lparr>radio := s',
             tr := channel_changed cfg now ((tr l)\<lparr>busy_streak := 0, t_channel := ch\<rparr>)\<rparr>)"
      "tx_queue s' = tx_queue (radio l)" "rf_channel s' = ch"
    using set_channel_ok [OF assms True] by blast
  have "lockstep cfg l \<Longrightarrow> lockstep cfg (l\<lparr>radio := s', tr := channel_changed cfg now ((tr l)\<lparr>busy_streak := 0, t_channel := ch\<rparr>)\<rparr>)"
    using s'(2) by (rule_tac lockstep_parked [of cfg l]) (simp_all add: channel_changed_def no_refund_def refund_wf_def)
  with True s' show ?thesis by (simp add: channel_changed_def)
next
  case False
  obtain s' b e where s': "esb_transport_set_channel cfg now ch l = (Err e, l\<lparr>radio := s', tr := (tr l)\<lparr>busy_streak := b\<rparr>\<rparr>)"
      "tx_queue s' = tx_queue (radio l)" "rf_channel s' = rf_channel (radio l)"
    using set_channel_err [OF assms False] by blast
  have "lockstep cfg l \<Longrightarrow> lockstep cfg (l\<lparr>radio := s', tr := (tr l)\<lparr>busy_streak := b\<rparr>\<rparr>)"
    using s'(2) by (simp add: lockstep_def rings_wf_def)
  with False s' show ?thesis by simp
qed

theorem set_channel_correct_witness:
  "t_channel (tr (snd (esb_transport_set_channel default_kconfig 700 55 up_link))) = 55"
proof -
  have "retune_ok default_kconfig 55 up_link" by (simp add: retune_ok_def)
  with set_channel_correct [OF up_link_wf, of 700 55] show ?thesis by (simp add: split_beta Let_def)
qed

text \<open>
  Successive attempts to move to a channel; before each one the radio may have become anything
  that its library can make of it.
\<close>

fun hop_attempts :: "kconfig \<Rightarrow> u32 \<Rightarrow> nat \<Rightarrow> esb list \<Rightarrow> link \<Rightarrow> bool" where
  "hop_attempts cfg now ch [] l = False"
| "hop_attempts cfg now ch (s # ss) l =
     (let (r, l') = esb_transport_set_channel cfg now ch (l\<lparr>radio := s\<rparr>) in r = OK \<or> hop_attempts cfg now ch ss l')"

lemma hop_attempts_bound:
  assumes stop: "c_stop_tx_after_busy cfg \<le> 20" and ch: "ch \<le> 100"
  shows "link_wf cfg l \<Longrightarrow> t_configured (tr l) \<Longrightarrow> \<forall>s \<in> set ss. esb_wf cfg s \<and> esb_initialized s
    \<Longrightarrow> kconfig_ok cfg \<Longrightarrow> busy_streak (tr l) < c_stop_tx_after_busy cfg
    \<Longrightarrow> c_stop_tx_after_busy cfg \<le> busy_streak (tr l) + length ss \<Longrightarrow> hop_attempts cfg now ch ss l"
proof (induction ss arbitrary: l)
  case (Cons s ss)
  let ?l = "l\<lparr>radio := s\<rparr>"
  have w: "link_wf cfg ?l" using Cons.prems(1,3) by (simp add: link_wf_def esb_down_def)
  have up: "t_configured (tr ?l)" "esb_initialized (radio ?l)" using Cons.prems(2,3) by simp_all
  show ?case
  proof (cases "retune_ok cfg ch ?l")
    case True
    with set_channel_ok [OF w up, of ch now] show ?thesis by auto
  next
    case False
    obtain e l' where l': "esb_transport_set_channel cfg now ch ?l = (Err e, l')"
        "t_configured (tr l')" "busy_streak (tr l') = (busy_streak (tr l) + 1) mod 256"
      using set_channel_err [OF w up False, of now] up(1) ch by auto
    have "link_wf cfg l'" using link_wf_set_channel [OF Cons.prems(4) w, of now ch] l'(1) by simp
    moreover have "busy_streak (tr l) + 1 < c_stop_tx_after_busy cfg" "busy_streak (tr l') = busy_streak (tr l) + 1"
      using False ch l'(3) Cons.prems(5) stop by (auto simp: retune_ok_def)
    ultimately have "hop_attempts cfg now ch ss l'"
      using Cons.IH [of l'] l'(2) Cons.prems(3,4,6) by simp
    with l'(1) show ?thesis by simp
  qed
qed simp

text \<open>
  C38. A busy radio cannot hold up a hop for ever. However the radio behaves between the attempts,
  one of the first \<open>HOP_STOP_TX_AFTER_BUSY\<close> attempts to move to a valid channel succeeds.
\<close>

theorem busy_radio_yields:
  assumes "kconfig_ok cfg" "link_wf cfg l" "t_configured (tr l)" "ch \<le> 100"
    and "busy_streak (tr l) < c_stop_tx_after_busy cfg"
    and "\<forall>s \<in> set ss. esb_wf cfg s \<and> esb_initialized s" "length ss = c_stop_tx_after_busy cfg"
  shows "hop_attempts cfg now ch ss l"
proof -
  have "c_stop_tx_after_busy cfg \<le> 20" using assms(1) by (simp add: kconfig_ok_def)
  with hop_attempts_bound [of cfg ch l ss now] assms show ?thesis by simp
qed

theorem busy_radio_yields_witness:
  "hop_attempts default_kconfig 700 55 [radio on_air, radio on_air] up_link"
proof -
  have "esb_wf default_kconfig (radio on_air) \<and> esb_initialized (radio on_air)"
    using on_air_ok by (auto simp: link_wf_def esb_down_def on_air_st)
  moreover have "busy_streak (tr up_link) = 0" by (simp add: up_link_def transport_boot_def)
  ultimately show ?thesis by (intro busy_radio_yields [OF kconfig_ok_default up_link_wf]) simp_all
qed

section \<open>The side trip\<close>

lemma begin_law:
  assumes w: "link_wf cfg l" and up: "t_configured (tr l)" "esb_initialized (radio l)" and s: "\<not> sync_in_progress (tr l)"
    and d: "data \<noteq> []" "length data \<le> c_max_payload cfg" "pipe < c_pipe_count cfg"
    and ok: "ch \<le> 100" "esb_st (radio l) = ESB_IDLE"
  shows "\<exists>s p. send_blocking_begin cfg ch pipe data l
           = (OK, l\<lparr>radio := s, tr := (tr l)\<lparr>sync_sem := 0, sync_success := False, sync_in_progress := True\<rparr>\<rparr>)
       \<and> tx_queue s = [p] \<and> pl_data p = data \<and> pl_pipe p = pipe \<and> rf_channel s = ch \<and> tx_stash s = tx_queue (radio l)
       \<and> esb_initialized s"
proof -
  let ?p = "snd (esb_stash_tx (radio l))"
  let ?c = "?p\<lparr>rf_channel := ch\<rparr>"
  let ?q = "\<lparr>pl_pipe = pipe, pl_data = data, pl_noack = False, pl_pid = 0, pl_rssi = 0\<rparr>"
  note st = stash_parts [OF up(2)]
  have "esb_wf cfg ?p" using w by (simp add: link_wf_def esb_wf_stash)
  then have wc: "esb_wf cfg ?c" using ok(1) by (simp add: esb_wf_def in_ack_cycle_def)
  have "0 < tx_size (radio l)" using w by (simp add: link_wf_def esb_wf_def fifo_wf_def)
  then have e: "write_error cfg ?q ?c = None"
    using st d by (simp add: write_error_def esb_tx_full_def)
  obtain s where ws: "esb_write_payload cfg ?q ?c = (OK, s)"
    using write_error_iff [of cfg ?q ?c] e by simp
  have "tx_queue s = [?q\<lparr>pl_pid := (esb_pids (radio l) ! pipe + 1) mod 4\<rparr>]"
    using write_ok [OF wc e] ws st by simp
  moreover have "rf_channel s = ch" "tx_stash s = tx_queue (radio l)" "esb_initialized s"
    using ws st by (auto simp: esb_write_payload_def Let_def split: if_splits)
  moreover have "send_blocking_begin cfg ch pipe data l
      = (OK, l\<lparr>radio := s, tr := (tr l)\<lparr>sync_sem := 0, sync_success := False, sync_in_progress := True\<rparr>\<rparr>)"
    using up(1) s d(2) ok st ws
    by (simp add: send_blocking_begin_def esb_set_rf_channel_def on_radio_def on_tr_def not_less)
  ultimately show ?thesis by (intro exI [of _ s] exI conjI) (assumption | simp)+
qed

lemma finish_law:
  assumes w: "esb_wf cfg (radio l)" "esb_initialized (radio l)" "esb_st (radio l) = ESB_IDLE"
    and q: "tx_queue (radio l) = []" and c: "t_channel (tr l) \<le> 100" and s: "sync_sem (tr l) = 1"
  shows "\<exists>s'. send_blocking_finish cfg l = (if sync_success (tr l) then OK else Err EIO,
             l\<lparr>radio := s', tr := (tr l)\<lparr>sync_sem := 0\<rparr>\<rparr>)
       \<and> tx_queue s' = tx_stash (radio l) \<and> rf_channel s' = t_channel (tr l)
       \<and> (tx_stash (radio l) \<noteq> [] \<longrightarrow> esb_st s' \<noteq> ESB_IDLE)"
proof -
  let ?k = "l\<lparr>tr := (tr l)\<lparr>sync_sem := 0\<rparr>, radio := (radio l)\<lparr>rf_channel := t_channel (tr l)\<rparr>\<rparr>"
  have "esb_wf cfg (radio ?k)" using w c by (simp add: esb_wf_def in_ack_cycle_def)
  then obtain s' where s': "esb_restore_tx_or_drop cfg ?k = ?k\<lparr>radio := s'\<rparr>" "tx_queue s' = tx_stash (radio l)"
      "esb_st s' = ESB_IDLE" "rf_channel s' = t_channel (tr l)"
    using restore_or_drop_parked [of cfg ?k] w q by auto
  let ?s = "snd (esb_start_tx s')"
  have "send_blocking_finish cfg l = (if sync_success (tr l) then OK else Err EIO, l\<lparr>radio := ?s, tr := (tr l)\<lparr>sync_sem := 0\<rparr>\<rparr>)"
    using s c w(3) s'(1) by (simp add: send_blocking_finish_def on_radio_def on_tr_def esb_set_rf_channel_def Let_def)
  moreover have "tx_queue ?s = tx_queue s'" "rf_channel ?s = rf_channel s'"
    by (simp_all add: esb_start_tx_def)
  moreover have "esb_st ?s \<noteq> ESB_IDLE" if "tx_stash (radio l) \<noteq> []"
  proof -
    have "fcount (tx_fifo s') \<noteq> 0" using that s'(2) by (metis fifo_list_zero)
    then show ?thesis by (simp add: esb_start_tx_def s'(3))
  qed
  ultimately show ?thesis using s' by (intro exI [of _ ?s]) simp
qed

text \<open>What the event of the side trip's packet leaves: the waiter is woken, nothing else is counted.\<close>

lemma trip_event:
  assumes "sync_in_progress (tr l)" "ev = Tx_Success a \<or> ev = Tx_Failed a"
  shows "zmk_esb_transport_evt_cb cfg now ev l = l\<lparr>tr := (tr l)\<lparr>last_tx_event_ms := nz_stamp now,
             sync_success := (ev = Tx_Success a), sync_in_progress := False, sync_sem := 1\<rparr>,
           radio := (if ev = Tx_Success a then radio l else snd (esb_flush_tx (radio l)))\<rparr>"
  using assms
  by (auto simp: zmk_esb_transport_evt_cb_def on_tx_success_def on_tx_failed_def on_tr_def on_radio_def)

lemma begin_ok:
  assumes "send_blocking_begin cfg ch pipe data l = (OK, l1)" "esb_initialized (radio l)"
  shows "ch \<le> 100 \<and> esb_st (radio l) = ESB_IDLE \<and> length data \<le> c_max_payload cfg \<and> \<not> sync_in_progress (tr l)
    \<and> t_configured (tr l)"
  using assms(1) stash_parts(4) [OF assms(2)]
  by (auto simp: send_blocking_begin_def Let_def split_beta esb_set_rf_channel_def not_less split: if_splits)

text \<open>
  C10. The side trip leaves no trace. Once \<open>esb_transport_send_blocking\<close> has its packet on the other
  channel, the packet's event and the return of the call bring the radio back to the active channel
  with the parked packets queued as before and, if there are any, a transmission started; the rings
  stay in lockstep, and neither the counters, the failure history, the hop manager nor the benchmark
  learn of the packet. The call reports the packet's fate.
\<close>

theorem blocking_trip_restores:
  fixes cfg :: kconfig and now :: u32
  assumes w: "link_wf cfg l" and up: "esb_initialized (radio l)" "t_channel (tr l) \<le> 100"
    and d: "data \<noteq> []" "pipe < c_pipe_count cfg"
    and b: "send_blocking_begin cfg ch pipe data l = (OK, l1)"
    and s: "esb_wf cfg s" "esb_initialized s" "esb_st s = ESB_IDLE" "tx_stash s = tx_stash (radio l1)"
    and ev: "ev = Tx_Success a \<and> tx_queue s = [] \<or> ev = Tx_Failed a"
  shows "let (r, l') = send_blocking_finish cfg (zmk_esb_transport_evt_cb cfg now ev (l1\<lparr>radio := s\<rparr>)) in
      r = (if ev = Tx_Success a then OK else Err EIO)
    \<and> tx_queue (radio l') = tx_queue (radio l) \<and> rf_channel (radio l') = t_channel (tr l)
    \<and> (tx_queue (radio l) \<noteq> [] \<longrightarrow> esb_st (radio l') \<noteq> ESB_IDLE)
    \<and> tr l' = (tr l)\<lparr>last_tx_event_ms := nz_stamp now, sync_sem := 0, sync_success := (ev = Tx_Success a)\<rparr>
    \<and> hopm l' = hopm l \<and> bn l' = bn l \<and> (lockstep cfg l \<longrightarrow> lockstep cfg l')"
proof -
  have k: "ch \<le> 100" "esb_st (radio l) = ESB_IDLE" "length data \<le> c_max_payload cfg" "\<not> sync_in_progress (tr l)"
    "t_configured (tr l)"
    using begin_ok [OF b up(1)] by simp_all
  obtain s1 where l1: "l1 = l\<lparr>radio := s1, tr := (tr l)\<lparr>sync_sem := 0, sync_success := False, sync_in_progress := True\<rparr>\<rparr>"
      "tx_stash s1 = tx_queue (radio l)"
    using begin_law [OF w k(5) up(1) k(4) d(1) k(3) d(2) k(1,2)] b by auto
  let ?r = "if ev = Tx_Success a then s else snd (esb_flush_tx s)"
  let ?l2 = "l\<lparr>radio := ?r, tr := (tr l)\<lparr>last_tx_event_ms := nz_stamp now, sync_success := (ev = Tx_Success a),
      sync_in_progress := False, sync_sem := 1\<rparr>\<rparr>"
  have e: "zmk_esb_transport_evt_cb cfg now ev (l1\<lparr>radio := s\<rparr>) = ?l2"
    using trip_event [of "l1\<lparr>radio := s\<rparr>" ev a] ev by (auto simp: l1(1))
  have r: "esb_wf cfg ?r" "esb_initialized ?r" "esb_st ?r = ESB_IDLE" "tx_queue ?r = []" "tx_stash ?r = tx_queue (radio l)"
    using s ev esb_wf_flush [OF s(1)] l1 by (auto simp: esb_flush_tx_def)
  obtain s' where f: "send_blocking_finish cfg ?l2 = (if ev = Tx_Success a then OK else Err EIO,
        ?l2\<lparr>radio := s', tr := (tr ?l2)\<lparr>sync_sem := 0\<rparr>\<rparr>)" "tx_queue s' = tx_queue (radio l)"
      "rf_channel s' = t_channel (tr l)" "tx_queue (radio l) \<noteq> [] \<longrightarrow> esb_st s' \<noteq> ESB_IDLE"
    using finish_law [of cfg ?l2] r up(2) by auto
  have "(tr l)\<lparr>sync_in_progress := False\<rparr> = tr l" using k(4) by (cases "tr l") simp
  then show ?thesis
    using f k(4) by (cases "tr l") (auto simp: e lockstep_def rings_wf_def)
qed

theorem blocking_trip_restores_witness:
  "\<exists>l1. send_blocking_begin default_kconfig 2 0 [0x14, 40, 40] up_link = (OK, l1)
     \<and> (let (r, l') = send_blocking_finish default_kconfig (zmk_esb_transport_evt_cb default_kconfig 900 (Tx_Failed 4)
           (l1\<lparr>radio := (radio l1)\<lparr>esb_st := ESB_IDLE\<rparr>\<rparr>)) in r = Err EIO \<and> rf_channel (radio l') = t_channel (tr up_link))"
proof -
  have up: "t_configured (tr up_link)" "esb_initialized (radio up_link)" "\<not> sync_in_progress (tr up_link)"
    "esb_st (radio up_link) = ESB_IDLE" "t_channel (tr up_link) \<le> 100"
    by (simp_all add: up_link_def transport_boot_def)
  let ?trip = "\<lambda>s. up_link\<lparr>radio := s, tr := (tr up_link)\<lparr>sync_sem := 0, sync_success := False, sync_in_progress := True\<rparr>\<rparr>"
  obtain s p where b: "send_blocking_begin default_kconfig 2 0 [0x14, 40, 40] up_link = (OK, ?trip s)" "esb_initialized s"
    using begin_law [OF up_link_wf up(1-3), where ch = 2 and data = "[0x14, 40, 40]" and pipe = 0] up(4)
    by (auto simp: default_kconfig_def)
  have "link_wf default_kconfig (?trip s)"
    using link_wf_begin [OF up_link_wf, of 2 0 "[0x14, 40, 40]"] b by simp
  then have "esb_wf default_kconfig (s\<lparr>esb_st := ESB_IDLE\<rparr>)" by (simp add: link_wf_def esb_wf_def in_ack_cycle_def)
  then show ?thesis
    using blocking_trip_restores [OF up_link_wf up(2,5) _ _ b(1), where s = "s\<lparr>esb_st := ESB_IDLE\<rparr>" and ev = "Tx_Failed 4"
        and a = 4 and now = 900] b
    by (auto simp: default_kconfig_def)
qed

end
