(* ===== verification/Pairing.thy ===== *)
theory Pairing
  imports HopWork
begin

text \<open>
  The pairing state machine \<open>src/src/esb/pairing.c\<close>: the stored peer, the beacon and verify ticks,
  and the dispatch of every received packet to the component that owns it. Its operations act on
  the pairing state together with the \<open>link\<close> (transport and hop manager) they call into.
\<close>

section \<open>State\<close>

datatype pairing_state = PAIRING_STATE_IDLE | PAIRING_STATE_UNPAIRED | PAIRING_STATE_PAIRING
  | PAIRING_STATE_VERIFYING | PAIRING_STATE_CONNECTED

datatype pairing_work_item = W_beacon | W_verify

record pairing =
  p_state :: pairing_state
  p_device_id :: bytes
  p_peer_id :: bytes
  p_has_peer :: bool
  p_nvs :: "bytes option"
  p_wq :: "pairing_work_item workq"

definition pairing_boot :: pairing where
  "pairing_boot = \<lparr>p_state = PAIRING_STATE_IDLE, p_device_id = replicate 6 0, p_peer_id = replicate 6 0,
     p_has_peer = False, p_nvs = None, p_wq = no_work\<rparr>"

definition p_resched :: "pairing_work_item \<Rightarrow> u32 \<Rightarrow> pairing \<Rightarrow> pairing" where
  "p_resched w d p = p\<lparr>p_wq := resched w d (p_wq p)\<rparr>"

definition p_cancel :: "pairing_work_item \<Rightarrow> pairing \<Rightarrow> pairing" where
  "p_cancel w p = p\<lparr>p_wq := cancel w (p_wq p)\<rparr>"

section \<open>The stored record\<close>

definition save_paired :: "bool \<Rightarrow> pairing \<Rightarrow> pairing" where
  "save_paired paired p = p\<lparr>p_nvs := Some ((if paired then 1 else 0)
     # (if paired then p_peer_id p else replicate 6 0))\<rparr>"

definition pairing_settings_load_cb :: "bytes \<Rightarrow> pairing \<Rightarrow> pairing" where
  "pairing_settings_load_cb rec p =
     (if length rec \<noteq> 7 then p else p\<lparr>p_has_peer := (rec ! 0 = 1), p_peer_id := drop 1 rec\<rparr>)"

text \<open>\<open>lo\<close> and \<open>hi\<close> are the two words of the factory device id.\<close>

definition build_device_id :: "u32 \<Rightarrow> u32 \<Rightarrow> bytes" where
  "build_device_id lo hi = le32 lo @ take 2 (le32 hi)"

definition pairing_init :: "u32 \<Rightarrow> u32 \<Rightarrow> pairing \<Rightarrow> pairing" where
  "pairing_init lo hi p =
     (let p1 = p\<lparr>p_device_id := build_device_id lo hi, p_wq := no_work\<rparr>
      in case p_nvs p1 of None \<Rightarrow> p1 | Some rec \<Rightarrow> pairing_settings_load_cb rec p1)"

section \<open>Packets it sends\<close>

text \<open>\<open>ESB_CAP_KEYBOARD | ESB_CAP_CONSUMER | ESB_CAP_MOUSE\<close>\<close>

definition esb_caps :: u8 where
  "esb_caps = 0x01 OR 0x02 OR 0x04"

definition send_beacon :: "kconfig \<Rightarrow> u32 \<Rightarrow> u32 \<Rightarrow> pairing \<Rightarrow> link \<Rightarrow> link" where
  "send_beacon cfg now addr p l =
     snd (esb_transport_send cfg now addr pipe_pairing (layout (Beacon (p_device_id p) esb_caps)) l)"

definition send_pair_resp :: "kconfig \<Rightarrow> u32 \<Rightarrow> u32 \<Rightarrow> pairing \<Rightarrow> link \<Rightarrow> link" where
  "send_pair_resp cfg now addr p l = snd (send_pkt cfg now addr (Pair_Resp (p_device_id p) esb_caps) l)"

definition beacon_work_fn :: "kconfig \<Rightarrow> u32 \<Rightarrow> u32 \<Rightarrow> pairing \<times> link \<Rightarrow> pairing \<times> link" where
  "beacon_work_fn cfg now addr = (\<lambda>(p, l).
     if p_state p \<noteq> PAIRING_STATE_UNPAIRED then (p, l)
     else (p_resched W_beacon (c_beacon_interval_ms cfg) p, send_beacon cfg now addr p l))"

definition verify_work_fn :: "kconfig \<Rightarrow> u32 \<Rightarrow> u32 \<Rightarrow> pairing \<times> link \<Rightarrow> pairing \<times> link" where
  "verify_work_fn cfg now addr = (\<lambda>(p, l).
     if p_state p \<noteq> PAIRING_STATE_VERIFYING then (p, l)
     else (p_resched W_verify (c_verify_interval_ms cfg) p,
           snd (send_pkt cfg now addr (Verify_Req (p_device_id p)) l)))"

section \<open>Start, stop, unpair\<close>

definition pairing_start :: "kconfig \<Rightarrow> pairing \<Rightarrow> pairing" where
  "pairing_start cfg p =
     (if p_has_peer p then p_resched W_verify 0 (p\<lparr>p_state := PAIRING_STATE_VERIFYING\<rparr>)
      else p_resched W_beacon (c_beacon_initial_ms cfg) (p\<lparr>p_state := PAIRING_STATE_UNPAIRED\<rparr>))"

definition pairing_stop :: "pairing \<times> link \<Rightarrow> pairing \<times> link" where
  "pairing_stop = (\<lambda>(p, l).
     (p_cancel W_verify (p_cancel W_beacon (p\<lparr>p_state := PAIRING_STATE_IDLE\<rparr>)),
      on_hop channel_hop_ep_on_disconnected l))"

definition forget_peer :: "pairing \<Rightarrow> pairing" where
  "forget_peer p = save_paired False (p\<lparr>p_has_peer := False, p_peer_id := replicate 6 0\<rparr>)"

definition pairing_unpair :: "kconfig \<Rightarrow> pairing \<Rightarrow> pairing" where
  "pairing_unpair cfg p =
     (let p1 = p_cancel W_verify (forget_peer p)
      in if p_state p1 \<noteq> PAIRING_STATE_IDLE
         then p_resched W_beacon (c_beacon_initial_ms cfg)
                ((p_cancel W_beacon p1)\<lparr>p_state := PAIRING_STATE_UNPAIRED\<rparr>)
         else p1)"

section \<open>Reception\<close>

definition connected :: "kconfig \<Rightarrow> u32 \<Rightarrow> link \<Rightarrow> link" where
  "connected cfg now l = on_hop (channel_hop_ep_on_connected cfg (boot_channel (tr l)) now) l"

definition on_pair_req :: "kconfig \<Rightarrow> u32 \<Rightarrow> u32 \<Rightarrow> bytes \<Rightarrow> pairing \<times> link \<Rightarrow> pairing \<times> link" where
  "on_pair_req cfg now addr data = (\<lambda>(p, l).
     if p_state p = PAIRING_STATE_UNPAIRED \<and> 7 \<le> length data then
       let p1 = p_cancel W_beacon (p\<lparr>p_peer_id := take 6 (drop 1 data)\<rparr>);
           l1 = send_pair_resp cfg now addr p1 l
       in (save_paired True (p1\<lparr>p_has_peer := True, p_state := PAIRING_STATE_CONNECTED\<rparr>), connected cfg now l1)
     else (p, l))"

definition on_verify_resp :: "kconfig \<Rightarrow> u32 \<Rightarrow> bytes \<Rightarrow> pairing \<times> link \<Rightarrow> pairing \<times> link" where
  "on_verify_resp cfg now data = (\<lambda>(p, l).
     if p_state p = PAIRING_STATE_VERIFYING \<and> 7 \<le> length data \<and> take 6 (drop 1 data) = p_peer_id p
     then ((p_cancel W_verify p)\<lparr>p_state := PAIRING_STATE_CONNECTED\<rparr>, connected cfg now l)
     else (p, l))"

definition on_disconnect :: "kconfig \<Rightarrow> pairing \<times> link \<Rightarrow> pairing \<times> link" where
  "on_disconnect cfg = (\<lambda>(p, l).
     (p_resched W_beacon (c_beacon_initial_ms cfg)
        (p_cancel W_verify (forget_peer (p\<lparr>p_state := PAIRING_STATE_UNPAIRED\<rparr>))),
      on_hop channel_hop_ep_on_disconnected l))"

definition on_resync :: "pairing \<times> link \<Rightarrow> pairing \<times> link" where
  "on_resync = (\<lambda>(p, l).
     if p_state p = PAIRING_STATE_CONNECTED
     then (p_resched W_verify 0 (p\<lparr>p_state := PAIRING_STATE_VERIFYING\<rparr>),
           on_hop channel_hop_ep_on_disconnected l)
     else (p, l))"

definition pairing_on_rx :: "kconfig \<Rightarrow> u32 \<Rightarrow> u32 \<Rightarrow> bytes \<Rightarrow> pairing \<times> link \<Rightarrow> pairing \<times> link" where
  "pairing_on_rx cfg now addr data = (\<lambda>(p, l).
     if length data < 1 then (p, l)
     else let t = data ! 0 in
       if t = pkt_pair_req then on_pair_req cfg now addr data (p, l)
       else if t = pkt_verify_resp then on_verify_resp cfg now data (p, l)
       else if t = pkt_disconnect then on_disconnect cfg (p, l)
       else if t = pkt_resync then on_resync (p, l)
       else if t = pkt_hop_confirm \<or> t = pkt_hop_accept
         then (p, on_hop (channel_hop_ep_on_rx cfg now data) l)
       else if t = pkt_hop_request then (p, on_hop (channel_hop_ep_on_request cfg) l)
       else if t = pkt_link_stats then (p, esb_transport_on_rx_link_stats cfg data l)
       else (p, l))"

definition pairing_is_connected :: "pairing \<Rightarrow> bool" where
  "pairing_is_connected p \<longleftrightarrow> p_state p = PAIRING_STATE_CONNECTED"

section \<open>Runs\<close>

text \<open>What can happen to the state machine: a packet, a tick of one of its work items, a call.\<close>

datatype pairing_event = PE_rx bytes | PE_beacon_tick | PE_verify_tick | PE_start | PE_stop | PE_unpair

definition pairing_step :: "kconfig \<Rightarrow> u32 \<times> u32 \<times> pairing_event \<Rightarrow> pairing \<times> link \<Rightarrow> pairing \<times> link" where
  "pairing_step cfg = (\<lambda>(now, addr, e) (p, l). (case e of
     PE_rx data \<Rightarrow> pairing_on_rx cfg now addr data (p, l)
   | PE_beacon_tick \<Rightarrow> (if p_wq p W_beacon = None then (p, l)
                       else beacon_work_fn cfg now addr (p_cancel W_beacon p, l))
   | PE_verify_tick \<Rightarrow> (if p_wq p W_verify = None then (p, l)
                       else verify_work_fn cfg now addr (p_cancel W_verify p, l))
   | PE_start \<Rightarrow> (pairing_start cfg p, l)
   | PE_stop \<Rightarrow> pairing_stop (p, l)
   | PE_unpair \<Rightarrow> (pairing_unpair cfg p, l)))"

definition pairing_wf :: "pairing \<Rightarrow> bool" where
  "pairing_wf p \<longleftrightarrow> length (p_peer_id p) = 6 \<and> length (p_device_id p) = 6
     \<and> (\<forall>rec. p_nvs p = Some rec \<longrightarrow> length rec = 7)
     \<and> (p_has_peer p \<longrightarrow> p_nvs p = Some (1 # p_peer_id p))
     \<and> (p_state p = PAIRING_STATE_UNPAIRED \<longrightarrow> p_wq p W_beacon \<noteq> None)
     \<and> (p_state p = PAIRING_STATE_VERIFYING \<longrightarrow> p_wq p W_verify \<noteq> None \<and> p_has_peer p)
     \<and> (p_state p = PAIRING_STATE_CONNECTED \<longrightarrow> p_has_peer p)
     \<and> p_state p \<noteq> PAIRING_STATE_PAIRING"

named_theorems pairing_simps \<open>definitions of the pairing operations\<close>

lemmas [pairing_simps] = p_resched_def p_cancel_def save_paired_def forget_peer_def on_pair_req_def on_verify_resp_def
  on_disconnect_def on_resync_def Let_def

lemma pairing_wf_boot: "pairing_wf pairing_boot"
  by (simp add: pairing_wf_def pairing_boot_def)

lemma length_device_id [simp]: "length (build_device_id lo hi) = 6"
  by (simp add: build_device_id_def)

lemma pairing_wf_init:
  assumes "pairing_wf p" "p_state p = PAIRING_STATE_IDLE"
  shows "pairing_wf (pairing_init lo hi p)"
proof (cases "p_nvs p")
  case None
  with assms show ?thesis by (simp add: pairing_init_def pairing_wf_def)
next
  case (Some rec)
  then have l: "length rec = 7" using assms(1) by (simp add: pairing_wf_def)
  then obtain b bs where r: "rec = b # bs" "length bs = 6" by (auto simp: length_Suc_conv numeral_eq_Suc)
  with Some assms l show ?thesis by (simp add: pairing_init_def pairing_settings_load_cb_def pairing_wf_def)
qed

lemma pairing_wf_pair_req: "pairing_wf p \<Longrightarrow> pairing_wf (fst (on_pair_req cfg now addr data (p, l)))"
  by (auto simp: on_pair_req_def p_cancel_def save_paired_def Let_def pairing_wf_def)

lemma pairing_wf_verify_resp: "pairing_wf p \<Longrightarrow> pairing_wf (fst (on_verify_resp cfg now data (p, l)))"
  by (simp add: on_verify_resp_def p_cancel_def pairing_wf_def)

lemma pairing_wf_disconnect: "pairing_wf p \<Longrightarrow> pairing_wf (fst (on_disconnect cfg (p, l)))"
  by (simp add: on_disconnect_def forget_peer_def save_paired_def p_cancel_def p_resched_def pairing_wf_def)

lemma pairing_wf_resync: "pairing_wf p \<Longrightarrow> pairing_wf (fst (on_resync (p, l)))"
  by (simp add: on_resync_def p_resched_def pairing_wf_def)

lemma pairing_wf_rx: "pairing_wf p \<Longrightarrow> pairing_wf (fst (pairing_on_rx cfg now addr data (p, l)))"
  by (simp add: pairing_on_rx_def Let_def pairing_wf_pair_req pairing_wf_verify_resp pairing_wf_disconnect
      pairing_wf_resync)

lemma pairing_wf_beacon:
  "pairing_wf p \<Longrightarrow> pairing_wf (fst (beacon_work_fn cfg now addr (p_cancel W_beacon p, l)))"
  by (simp add: beacon_work_fn_def p_cancel_def p_resched_def pairing_wf_def)

lemma pairing_wf_verify:
  "pairing_wf p \<Longrightarrow> pairing_wf (fst (verify_work_fn cfg now addr (p_cancel W_verify p, l)))"
  by (simp add: verify_work_fn_def p_cancel_def p_resched_def pairing_wf_def)

lemma pairing_wf_start: "pairing_wf p \<Longrightarrow> pairing_wf (pairing_start cfg p)"
  by (simp add: pairing_start_def p_resched_def pairing_wf_def)

lemma pairing_wf_stop: "pairing_wf p \<Longrightarrow> pairing_wf (fst (pairing_stop (p, l)))"
  by (simp add: pairing_stop_def p_cancel_def pairing_wf_def)

lemma pairing_wf_unpair: "pairing_wf p \<Longrightarrow> pairing_wf (pairing_unpair cfg p)"
  by (auto simp: pairing_unpair_def forget_peer_def save_paired_def p_cancel_def p_resched_def Let_def pairing_wf_def)

lemma pairing_wf_step: "pairing_wf (fst s) \<Longrightarrow> pairing_wf (fst (pairing_step cfg e s))"
  by (cases s) (auto simp: pairing_step_def pairing_wf_rx pairing_wf_beacon pairing_wf_verify pairing_wf_start
      pairing_wf_stop pairing_wf_unpair split: prod.splits pairing_event.splits)

interpretation pairing_kept: step_invariant "\<lambda>s s'. \<exists>e. s' = pairing_step cfg e s" "\<lambda>s. pairing_wf (fst s)" for cfg
  by unfold_locales (auto simp: pairing_wf_step)

lemma link_up_edges [simp]:
  "link_up (channel_hop_ep_on_connected cfg rdv now h)" "\<not> link_up (channel_hop_ep_on_disconnected h)"
  by (simp_all add: channel_hop_ep_on_connected_def enter_active_state_def channel_hop_ep_on_disconnected_def hop_simps)

section \<open>Properties\<close>

text \<open>
  The state machine never gets stuck: in every state reached from boot, advertising always has
  its next beacon scheduled and verifying its next request; a stored peer is exactly what the
  flash record holds, and only a device with a stored peer verifies or is connected.
\<close>

lemma pairing_never_stuck:
  "pairing_wf (fst (fold (pairing_step cfg) evs (pairing_init lo hi pairing_boot, l)))"
  using pairing_wf_init [OF pairing_wf_boot, of lo hi]
  by (intro pairing_kept.run_keeps [where f = "pairing_step cfg"]) (auto simp: pairing_boot_def)

text \<open>The edges a packet can take, handler by handler.\<close>

lemma pair_req_edge:
  assumes "on_pair_req cfg now addr data (p, l) = (p', l')" "p_state p' \<noteq> p_state p"
  shows "p_state p = PAIRING_STATE_UNPAIRED \<and> p_state p' = PAIRING_STATE_CONNECTED \<and> 7 \<le> length data \<and> p_has_peer p'
    \<and> p_peer_id p' = take 6 (drop 1 data) \<and> p_nvs p' = Some (1 # p_peer_id p') \<and> link_up (hopm l')"
  using assms by (auto simp: on_pair_req_def p_cancel_def save_paired_def connected_def Let_def split: if_splits)

lemma verify_resp_edge:
  assumes "on_verify_resp cfg now data (p, l) = (p', l')" "p_state p' \<noteq> p_state p" "pairing_wf p"
  shows "p_state p = PAIRING_STATE_VERIFYING \<and> p_state p' = PAIRING_STATE_CONNECTED \<and> 7 \<le> length data \<and> p_has_peer p'
    \<and> take 6 (drop 1 data) = p_peer_id p \<and> p_peer_id p' = p_peer_id p \<and> link_up (hopm l')"
  using assms by (auto simp: on_verify_resp_def p_cancel_def connected_def pairing_wf_def split: if_splits)

lemma disconnect_edge:
  assumes "on_disconnect cfg (p, l) = (p', l')"
  shows "p_state p' = PAIRING_STATE_UNPAIRED \<and> \<not> p_has_peer p' \<and> p_nvs p' = Some (replicate 7 0) \<and> \<not> link_up (hopm l')"
  using assms by (auto simp: on_disconnect_def forget_peer_def save_paired_def p_cancel_def p_resched_def numeral_eq_Suc)

lemma resync_edge:
  assumes "on_resync (p, l) = (p', l')" "p_state p' \<noteq> p_state p"
  shows "p_state p = PAIRING_STATE_CONNECTED \<and> p_state p' = PAIRING_STATE_VERIFYING \<and> p_peer_id p' = p_peer_id p
    \<and> p_wq p' W_verify = Some 0 \<and> \<not> link_up (hopm l')"
  using assms by (auto simp: on_resync_def p_resched_def split: if_splits)

text \<open>
  C8. A connection is only made by a pairing request while advertising or by the stored peer's own
  answer while verifying, and the hop manager learns of it; a connection is only lost by DISCONNECT,
  which forgets the peer, or RESYNC, which verifies it again; no other packet changes the state.
\<close>

theorem pairing_edges:
  assumes "pairing_on_rx cfg now addr data (p, l) = (p', l')" and "p_state p' \<noteq> p_state p" and "pairing_wf p"
  shows "(p_state p' = PAIRING_STATE_CONNECTED \<and> p_has_peer p' \<and> link_up (hopm l')
       \<and> (p_state p = PAIRING_STATE_UNPAIRED \<and> data ! 0 = pkt_pair_req \<and> 7 \<le> length data
            \<and> p_peer_id p' = take 6 (drop 1 data) \<and> p_nvs p' = Some (1 # p_peer_id p')
          \<or> p_state p = PAIRING_STATE_VERIFYING \<and> data ! 0 = pkt_verify_resp \<and> 7 \<le> length data
            \<and> take 6 (drop 1 data) = p_peer_id p \<and> p_peer_id p' = p_peer_id p))
    \<or> (p_state p' = PAIRING_STATE_UNPAIRED \<and> data ! 0 = pkt_disconnect \<and> \<not> p_has_peer p'
       \<and> p_nvs p' = Some (replicate 7 0) \<and> \<not> link_up (hopm l'))
    \<or> (p_state p = PAIRING_STATE_CONNECTED \<and> p_state p' = PAIRING_STATE_VERIFYING \<and> data ! 0 = pkt_resync
       \<and> p_peer_id p' = p_peer_id p \<and> p_wq p' W_verify = Some 0 \<and> \<not> link_up (hopm l'))"
proof -
  consider "data ! 0 = pkt_pair_req" "on_pair_req cfg now addr data (p, l) = (p', l')"
    | "data ! 0 = pkt_verify_resp" "on_verify_resp cfg now data (p, l) = (p', l')"
    | "data ! 0 = pkt_disconnect" "on_disconnect cfg (p, l) = (p', l')"
    | "data ! 0 = pkt_resync" "on_resync (p, l) = (p', l')"
    using assms(1,2) unfolding pairing_on_rx_def Let_def by (auto simp only: prod.case split: if_splits)
  then show ?thesis
  proof cases
    case 1
    with pair_req_edge [OF 1(2) assms(2)] show ?thesis by simp
  next
    case 2
    with verify_resp_edge [OF 2(2) assms(2,3)] show ?thesis by simp
  next
    case 3
    with disconnect_edge [OF 3(2)] show ?thesis by simp
  next
    case 4
    with resync_edge [OF 4(2) assms(2)] show ?thesis by simp
  qed
qed

definition advertising :: pairing where
  "advertising = pairing_start default_kconfig (pairing_init 0x11223344 0x55667788 pairing_boot)"

lemma advertising_simps: "p_state advertising = PAIRING_STATE_UNPAIRED" "pairing_wf advertising"
  by (simp_all add: advertising_def pairing_start_def pairing_init_def pairing_boot_def pairing_simps pairing_wf_def)

theorem pairing_edges_witness:
  "p_has_peer (fst (pairing_on_rx default_kconfig 90 7 (layout (Pair_Req [1, 2, 3, 4, 5, 6])) (advertising, up_link)))"
proof -
  let ?r = "pairing_on_rx default_kconfig 90 7 (layout (Pair_Req [1, 2, 3, 4, 5, 6])) (advertising, up_link)"
  obtain p' l' where r: "?r = (p', l')" by fastforce
  have "p_state (fst ?r) = PAIRING_STATE_CONNECTED"
    by (simp add: pairing_on_rx_def pairing_simps advertising_simps(1))
  then have "p_state p' = PAIRING_STATE_CONNECTED" using r by simp
  with pairing_edges [OF r] advertising_simps r show ?thesis by simp
qed

text \<open>
  C25. A pairing survives a reboot: once a pairing request has been answered, a device that boots
  from the flash record verifies at once and accepts exactly the peer it was paired with.
\<close>

theorem paired_peer_survives_reboot:
  assumes "p_state p = PAIRING_STATE_UNPAIRED" and "length d = 6"
  shows "let p1 = fst (pairing_on_rx cfg now addr (layout (Pair_Req d)) (p, l));
             p2 = pairing_start cfg (pairing_init lo hi (pairing_boot\<lparr>p_nvs := p_nvs p1\<rparr>))
         in p_state p1 = PAIRING_STATE_CONNECTED \<and> p_state p2 = PAIRING_STATE_VERIFYING \<and> p_wq p2 W_verify = Some 0
          \<and> (\<forall>d'. p_state (fst (pairing_on_rx cfg now' addr' (layout (Verify_Resp d')) (p2, l')))
               = (if take 6 d' = d then PAIRING_STATE_CONNECTED else PAIRING_STATE_VERIFYING))"
proof -
  let ?p1 = "fst (pairing_on_rx cfg now addr (layout (Pair_Req d)) (p, l))"
  let ?p2 = "pairing_start cfg (pairing_init lo hi (pairing_boot\<lparr>p_nvs := p_nvs ?p1\<rparr>))"
  have p1: "p_state ?p1 = PAIRING_STATE_CONNECTED" "p_nvs ?p1 = Some (1 # d)"
    using assms by (simp_all add: pairing_on_rx_def pairing_simps)
  have p2: "p_state ?p2 = PAIRING_STATE_VERIFYING" "p_peer_id ?p2 = d" "p_wq ?p2 W_verify = Some 0"
    using assms(2) unfolding p1(2)
    by (simp_all add: pairing_start_def pairing_init_def pairing_settings_load_cb_def pairing_simps)
  have "p_state (fst (pairing_on_rx cfg now' addr' (layout (Verify_Resp d')) (?p2, l')))
      = (if take 6 d' = d then PAIRING_STATE_CONNECTED else PAIRING_STATE_VERIFYING)" for d'
    using p2 assms(2) by (auto simp: pairing_on_rx_def pairing_simps)
  with p1 p2 show ?thesis by simp
qed

theorem paired_peer_survives_reboot_witness:
  "p_state (fst (pairing_on_rx default_kconfig 90 7 (layout (Pair_Req [1, 2, 3, 4, 5, 6])) (advertising, up_link)))
     = PAIRING_STATE_CONNECTED"
  using paired_peer_survives_reboot [OF advertising_simps(1), of "[1, 2, 3, 4, 5, 6]" default_kconfig 90 7 up_link]
  by (simp add: Let_def)

text \<open>
  A DISCONNECT that is still in the reception mailbox when the endpoint is switched off starts the
  beacons again: the handler does not look at the state it is in.
\<close>

lemma late_disconnect_restarts_beacons:
  assumes "pairing_stop (p, l) = (p1, l1)" and "pairing_on_rx cfg now addr (layout Disconnect) (p1, l1) = (p2, l2)"
  shows "p_state p1 = PAIRING_STATE_IDLE \<and> p_state p2 = PAIRING_STATE_UNPAIRED
    \<and> p_wq p2 W_beacon = Some (c_beacon_initial_ms cfg) \<and> \<not> p_has_peer p2"
  using assms by (auto simp: pairing_stop_def pairing_on_rx_def pairing_simps)

end
