(* ===== verification/EdgeQueue.thy ===== *)
theory EdgeQueue
  imports Prelude
begin

text \<open>
  The bounded queues of report snapshots that \<open>hid_relay.c\<close> and \<open>input_processor_esb.c\<close> keep while
  the transport is quiet. Both files hold the same three operations: append with the oldest entry
  shifted out on overrun, and a drain that takes the whole queue, sends it in order from the copy
  and parks the unsent tail again ahead of what was enqueued meanwhile.
\<close>

section \<open>Operations\<close>

definition enqueue_pending :: "nat \<Rightarrow> 'a \<Rightarrow> 'a list \<Rightarrow> 'a list" where
  "enqueue_pending depth x q = (if depth \<le> length q then drop 1 q @ [x] else q @ [x])"

text \<open>The loop over the copy: what is left when a send says \<open>EAGAIN\<close>, if one does.\<close>

fun drain_sends :: "('a \<Rightarrow> 's \<Rightarrow> rc \<times> 's) \<Rightarrow> 'a list \<Rightarrow> 's \<Rightarrow> 'a list option \<times> 's" where
  "drain_sends send [] s = (None, s)"
| "drain_sends send (x # xs) s =
     (let (r, s') = send x s in if r \<noteq> Err EAGAIN then drain_sends send xs s' else (Some (x # xs), s'))"

text \<open>Parking the tail in front of \<open>live\<close>, its oldest entries dropped when both do not fit.\<close>

definition repark :: "nat \<Rightarrow> 'a list \<Rightarrow> 'a list \<Rightarrow> 'a list" where
  "repark depth tail live = drop (length tail + length live - depth) tail @ live"

text \<open>
  The drain: \<open>live\<close> is what the other thread enqueued between the copy and the end of the loop.
  The result is \<open>True\<close> for \<open>EAGAIN\<close>, the new queue and the sender's state.
\<close>

definition drain_pending ::
  "('a \<Rightarrow> 's \<Rightarrow> rc \<times> 's) \<Rightarrow> nat \<Rightarrow> 'a list \<Rightarrow> 'a list \<Rightarrow> 's \<Rightarrow> bool \<times> 'a list \<times> 's" where
  "drain_pending send depth live q s = (case drain_sends send q s of
     (None, s') \<Rightarrow> (False, live, s')
   | (Some tail, s') \<Rightarrow> (True, repark depth tail live, s'))"

text \<open>
  What both files do with a new snapshot \<open>x\<close> outside a quiet period: drain, then send it with \<open>fin\<close>,
  parking it behind what is left when either says \<open>EAGAIN\<close>. The flag says that the retry worker is
  needed.
\<close>

definition drain_then_send ::
  "('a \<Rightarrow> 's \<Rightarrow> rc \<times> 's) \<Rightarrow> ('s \<Rightarrow> rc \<times> 's) \<Rightarrow> nat \<Rightarrow> 'a list \<Rightarrow> 'a list \<Rightarrow> 'a \<Rightarrow> 's \<Rightarrow> bool \<times> 'a list \<times> 's" where
  "drain_then_send send fin depth live q x s =
     (let (again, q1, s1) = drain_pending send depth live q s
      in if again then (True, enqueue_pending depth x q1, s1)
         else let (r, s2) = fin s1
              in if r = Err EAGAIN then (True, enqueue_pending depth x q1, s2) else (False, q1, s2))"

section \<open>Bounds\<close>

lemma length_enqueue [simp]: "0 < depth \<Longrightarrow> length q \<le> depth \<Longrightarrow> length (enqueue_pending depth x q) \<le> depth"
  by (auto simp: enqueue_pending_def)

lemma last_enqueue [simp]: "last (enqueue_pending depth x q) = x" "enqueue_pending depth x q \<noteq> []"
  by (simp_all add: enqueue_pending_def)

lemma length_repark: "length live \<le> depth \<Longrightarrow> length (repark depth tail live) \<le> depth"
  by (simp add: repark_def)

lemma repark_fits: "length tail + length live \<le> depth \<Longrightarrow> repark depth tail live = tail @ live"
  by (simp add: repark_def)

lemma drain_tail_suffix: "fst (drain_sends send q s) = Some tail \<Longrightarrow> \<exists>sent. q = sent @ tail \<and> tail \<noteq> []"
proof (induction q arbitrary: s)
  case (Cons x xs)
  show ?case
  proof (cases "fst (send x s) = Err EAGAIN")
    case True
    with Cons.prems have "tail = x # xs" by (simp add: split_beta Let_def)
    then show ?thesis by (intro exI [of _ "[]"]) simp
  next
    case False
    with Cons.prems have "fst (drain_sends send xs (snd (send x s))) = Some tail" by (simp add: split_beta Let_def)
    with Cons.IH obtain sent where "xs = sent @ tail" "tail \<noteq> []" by blast
    then show ?thesis by (intro exI [of _ "x # sent"]) simp
  qed
qed simp

lemma drain_bounded:
  "length q \<le> depth \<Longrightarrow> length live \<le> depth \<Longrightarrow> length (fst (snd (drain_pending send depth live q s))) \<le> depth"
  by (auto simp: drain_pending_def length_repark split: option.split prod.split)

text \<open>What every send keeps, the drains keep.\<close>

lemma drain_sends_keeps:
  assumes "\<And>x s. P s \<Longrightarrow> P (snd (send x s))"
  shows "P s \<Longrightarrow> P (snd (drain_sends send q s))"
  by (induction q arbitrary: s) (auto simp: split_beta Let_def assms)

lemma drain_pending_keeps:
  assumes "\<And>x s. P s \<Longrightarrow> P (snd (send x s))"
  shows "P s \<Longrightarrow> P (snd (snd (drain_pending send depth live q s)))"
  using drain_sends_keeps [of P send s q, OF assms] by (auto simp: drain_pending_def split: option.split prod.split)

section \<open>The sender as the queues see it\<close>

text \<open>
  What the clients rely on: a send answers \<open>EAGAIN\<close> without touching what was accepted before, and
  otherwise, when it accepts, the frame goes behind the accepted ones, of which it may drop some of
  the oldest. \<open>queue\<close> is what has been accepted and not left yet; \<open>ready\<close> the states the laws hold in.
\<close>

locale frame_sender =
  fixes send :: "'a \<Rightarrow> 's \<Rightarrow> rc \<times> 's" and queue :: "'s \<Rightarrow> 'b list" and image :: "'a \<Rightarrow> 'b" and ready :: "'s \<Rightarrow> bool"
  assumes send_again: "ready s \<Longrightarrow> send x s = (Err EAGAIN, s') \<Longrightarrow> queue s' = queue s \<and> ready s'"
    and send_ok: "ready s \<Longrightarrow> send x s = (r, s') \<Longrightarrow> r \<noteq> Err EAGAIN
          \<Longrightarrow> r = OK \<and> ready s' \<and> (\<exists>m \<le> length (queue s). queue s' = drop m (queue s @ [image x]))"
begin

lemma drain_sends_order:
  assumes "ready s" "drain_sends send q s = (rest, s')"
  shows "ready s' \<and> (\<exists>sent n. q = sent @ (case rest of None \<Rightarrow> [] | Some t \<Rightarrow> t)
       \<and> queue s' = drop n (queue s @ map image sent) \<and> (sent = [] \<longrightarrow> n = 0)
       \<and> (sent \<noteq> [] \<longrightarrow> n < length (queue s @ map image sent)))"
  using assms
proof (induction q arbitrary: s)
  case (Cons x xs)
  obtain r s1 where x: "send x s = (r, s1)" by fastforce
  show ?case
  proof (cases "r = Err EAGAIN")
    case True
    with Cons.prems x send_again [of s x s1] show ?thesis by (intro conjI exI [of _ "[]"] exI [of _ 0]) auto
  next
    case False
    obtain m where ok: "ready s1" "m \<le> length (queue s)" "queue s1 = drop m (queue s @ [image x])"
      using send_ok [OF Cons.prems(1) x False] by blast
    have "drain_sends send xs s1 = (rest, s')" using Cons.prems(2) x False by simp
    from Cons.IH [OF ok(1) this] obtain sent n where i: "ready s'" "xs = sent @ (case rest of None \<Rightarrow> [] | Some t \<Rightarrow> t)"
        "queue s' = drop n (queue s1 @ map image sent)" "sent = [] \<longrightarrow> n = 0"
        "sent \<noteq> [] \<longrightarrow> n < length (queue s1 @ map image sent)"
      by blast
    have "queue s1 @ map image sent = drop m (queue s @ map image (x # sent))" using ok(2,3) by simp
    then have "queue s' = drop (n + m) (queue s @ map image (x # sent))"
      and "n + m < length (queue s @ map image (x # sent))"
      using i(3-5) ok(2) by (simp_all, cases "sent = []") simp_all
    with i(1,2) show ?thesis by (intro conjI exI [of _ "x # sent"] exI [of _ "n + m"]) simp_all
  qed
qed (auto intro: exI [of _ 0])

text \<open>
  The drain as a whole: the queue splits into a part that was accepted, in order, and a tail that is
  parked again; with room for what the other thread enqueued, nothing is lost and no order changed.
\<close>

lemma drain_pending_order:
  assumes "ready s" "drain_pending send depth live q s = (again, q', s')" "length q + length live \<le> depth"
  shows "ready s' \<and> (\<exists>sent n. q @ live = sent @ q' \<and> queue s' = drop n (queue s @ map image sent)
       \<and> (sent = [] \<longrightarrow> n = 0) \<and> (sent \<noteq> [] \<longrightarrow> n < length (queue s @ map image sent)) \<and> (\<not> again \<longrightarrow> q' = live))"
proof -
  obtain rest s1 where d: "drain_sends send q s = (rest, s1)" by fastforce
  from drain_sends_order [OF assms(1) d] obtain sent n where r: "ready s1"
      "q = sent @ (case rest of None \<Rightarrow> [] | Some t \<Rightarrow> t)" "queue s1 = drop n (queue s @ map image sent)"
      "sent = [] \<longrightarrow> n = 0" "sent \<noteq> [] \<longrightarrow> n < length (queue s @ map image sent)"
    by blast
  have "s' = s1" and q': "q' = (case rest of None \<Rightarrow> live | Some tail \<Rightarrow> repark depth tail live)" "again \<longleftrightarrow> rest \<noteq> None"
    using assms(2) d by (auto simp: drain_pending_def split: option.splits)
  moreover have "q @ live = sent @ q'"
    using q' r(2) assms(3) by (auto simp: repark_fits split: option.splits)
  ultimately show ?thesis using r by (intro conjI exI [of _ sent] exI [of _ n]) auto
qed

text \<open>With a new snapshot: what was pending and the snapshot are accepted in order, or still pending.\<close>

lemma drain_then_send_order:
  assumes r: "ready s" and d: "drain_then_send send fin depth [] q x s = (again, q', s')" and room: "length q < depth"
    and fin_again: "\<And>k k'. ready k \<Longrightarrow> fin k = (Err EAGAIN, k') \<Longrightarrow> queue k' = queue k \<and> ready k'"
    and fin_ok: "\<And>k r k'. ready k \<Longrightarrow> fin k = (r, k') \<Longrightarrow> r \<noteq> Err EAGAIN
        \<Longrightarrow> ready k' \<and> (\<exists>m \<le> length (queue k). queue k' = drop m (queue k @ [image x]))"
  shows "ready s' \<and> (\<exists>sent n. q @ [x] = sent @ q' \<and> queue s' = drop n (queue s @ map image sent)
       \<and> (sent = [] \<longrightarrow> n = 0) \<and> (sent \<noteq> [] \<longrightarrow> n < length (queue s @ map image sent))) \<and> (again \<longleftrightarrow> q' \<noteq> [])"
proof -
  obtain a q1 s1 where dr: "drain_pending send depth [] q s = (a, q1, s1)" by (metis prod_cases3)
  obtain sent n where o: "ready s1" "q = sent @ q1" "queue s1 = drop n (queue s @ map image sent)"
      "sent = [] \<longrightarrow> n = 0" "sent \<noteq> [] \<longrightarrow> n < length (queue s @ map image sent)" "\<not> a \<longrightarrow> q1 = []"
    using drain_pending_order [OF r dr] room by auto
  have enq: "enqueue_pending depth x q1 = q1 @ [x]" using room o(2) by (simp add: enqueue_pending_def)
  obtain r2 s2 where x: "fin s1 = (r2, s2)" by fastforce
  show ?thesis
  proof (cases "a \<or> r2 = Err EAGAIN")
    case True
    with d dr x enq have e: "again" "q' = q1 @ [x]" "s' = s1 \<or> s' = s2 \<and> r2 = Err EAGAIN"
      by (auto simp: drain_then_send_def split: if_splits)
    then have "ready s'" "queue s' = queue s1" using o(1) x fin_again [OF o(1), of s2] by auto
    with o e show ?thesis by (intro conjI exI [of _ sent] exI [of _ n]) auto
  next
    case False
    with d dr x o(6) have e: "\<not> again" "q' = []" "s' = s2" "q1 = []" by (auto simp: drain_then_send_def)
    obtain m where m: "ready s2" "m \<le> length (queue s1)" "queue s2 = drop m (queue s1 @ [image x])"
      using fin_ok [OF o(1) x] False by blast
    have "n \<le> length (queue s @ map image sent)" using o(4,5) by (cases "sent = []") auto
    then have "queue s1 @ [image x] = drop n (queue s @ map image (sent @ [x]))"
      "length (queue s1) + n = length (queue s @ map image sent)" using o(3) by simp_all
    with m(2,3) have "queue s2 = drop (m + n) (queue s @ map image (sent @ [x]))"
      "m + n < length (queue s @ map image (sent @ [x]))"
      by (simp_all only: drop_drop) simp
    with o(2) m(1) e show ?thesis by (intro conjI exI [of _ "sent @ [x]"] exI [of _ "m + n"]) auto
  qed
qed

lemma drain_then_send_self:
  assumes "ready s" "drain_then_send send (send x) depth [] q x s = (again, q', s')" "length q < depth"
  shows "ready s' \<and> (\<exists>sent n. q @ [x] = sent @ q' \<and> queue s' = drop n (queue s @ map image sent)
       \<and> (sent = [] \<longrightarrow> n = 0) \<and> (sent \<noteq> [] \<longrightarrow> n < length (queue s @ map image sent))) \<and> (again \<longleftrightarrow> q' \<noteq> [])"
proof (rule drain_then_send_order [OF assms])
  show "queue k' = queue k \<and> ready k'" if "ready k" "send x k = (Err EAGAIN, k')" for k k'
    using send_again [OF that] .
  show "ready k' \<and> (\<exists>m \<le> length (queue k). queue k' = drop m (queue k @ [image x]))"
    if "ready k" "send x k = (r, k')" "r \<noteq> Err EAGAIN" for k r k'
    using send_ok [OF that] by blast
qed

end

end
