(* ===== verification/HopTrans.thy ===== *)
theory HopTrans
  imports HopWork Channel
begin

text \<open>
  What the hop manager's work items keep and what they do: every one keeps the link well formed
  and its channels in range, and the failure-driven hop is a transaction.
\<close>

section \<open>Where the link is\<close>

text \<open>The active channel, the rendezvous channel and whether the addresses are set.\<close>

definition place :: "link \<Rightarrow> nat \<times> nat \<times> bool" where
  "place l = (t_channel (tr l), boot_channel (tr l), t_configured (tr l))"

definition chan_wf :: "link \<Rightarrow> bool" where
  "chan_wf l \<longleftrightarrow> t_channel (tr l) < channel_count \<and> boot_channel (tr l) < channel_count"

lemma chan_wf_place: "place l' = place l \<Longrightarrow> chan_wf l \<Longrightarrow> chan_wf l'"
  by (simp add: place_def chan_wf_def)

lemma place_core: "tr_core (tr l') = tr_core (tr l) \<Longrightarrow> place l' = place l"
  using core_fields(6-8) [of "tr l'" "tr l"] by (simp add: place_def)

lemma place_steps [simp]:
  "place (on_radio k l) = place l" "place (on_hop g l) = place l" "place (l\<lparr>radio := s\<rparr>) = place l"
  "place (l\<lparr>hopm := h\<rparr>) = place l" "place (l\<lparr>bn := b\<rparr>) = place l" "place (on_bn e l) = place l"
  by (simp_all add: place_def on_bn_def)

lemma place_bookkeeping [simp]:
  "place (esb_flush_tx_and_reset cfg l) = place l" "place (esb_restore_tx_or_drop cfg l) = place l"
  "place (consume_motion cfg now failed l) = place l" "place (esb_transport_flush_tx cfg l) = place l"
  unfolding esb_transport_flush_tx_def by (rule place_core, simp)+

lemma place_transmit [simp]: "place (snd (transmit cfg now pipe data l)) = place l"
proof -
  have "place (snd (attach_motion cfg now na data k)) = place k" for na k
    by (rule place_core) (simp add: attach_parts(7))
  moreover have "place (note_send cfg now na data l) = place l" for na
    by (simp add: place_def note_send_def note_activity_def note_hid_tx_def Let_def)
  ultimately show ?thesis by (simp add: transmit_def split_beta Let_def)
qed

lemma place_send [simp]: "place (snd (esb_transport_send cfg now addr pipe data l)) = place l"
proof -
  have "place (apply_jitter cfg now addr l) = place l" by (simp add: place_def apply_jitter_def split_beta Let_def)
  moreover have "place (on_tr (\<lambda>t. t\<lparr>quiet_until := 0\<rparr>) k) = place k" for k by (simp add: place_def)
  ultimately show ?thesis by (simp add: esb_transport_send_def Let_def)
qed

lemma place_begin [simp]: "place (snd (send_blocking_begin cfg ch pipe data l)) = place l"
proof -
  have [simp]: "place (on_tr (\<lambda>t. t\<lparr>sync_sem := a, sync_success := b, sync_in_progress := c\<rparr>) k) = place k"
    "place (on_tr (\<lambda>t. t\<lparr>sync_in_progress := c\<rparr>) k) = place k" for a b c k
    by (simp_all add: place_def)
  show ?thesis by (simp add: send_blocking_begin_def split_beta Let_def)
qed

lemma place_finish [simp]: "place (snd (send_blocking_finish cfg l)) = place l"
proof -
  have [simp]: "place (on_tr (\<lambda>t. t\<lparr>sync_sem := a\<rparr>) k) = place k"
    "place (on_tr (\<lambda>t. t\<lparr>sync_in_progress := c\<rparr>) k) = place k" for a c k
    by (simp_all add: place_def)
  show ?thesis by (simp add: send_blocking_finish_def split_beta Let_def)
qed

lemma chan_wf_set_channel:
  assumes "chan_wf l"
  shows "chan_wf (snd (esb_transport_set_channel cfg now ch l))"
proof -
  obtain r k where rt: "retune cfg ch (on_radio esb_stash_tx l) = (r, k)" by fastforce
  have t: "tr k = (tr l)\<lparr>busy_streak := busy_streak (tr k)\<rparr>" "r = OK \<longleftrightarrow> retune_ok cfg ch (on_radio esb_stash_tx l)"
    using retuned_parts(6,8) [OF rt] by simp_all
  have k: "place k = place l" using t(1) by (cases "tr k", cases "tr l") (simp add: place_def)
  have "chan_wf (on_tr (channel_changed cfg now) (esb_restore_tx_or_drop cfg (on_tr (\<lambda>t. t\<lparr>t_channel := ch\<rparr>) k)))"
    if "ch < channel_count"
    using assms k core_fields(7) [OF core_bookkeeping(4), of cfg "on_tr (\<lambda>t. t\<lparr>t_channel := ch\<rparr>) k"]
      core_fields(6) [OF core_bookkeeping(4), of cfg "on_tr (\<lambda>t. t\<lparr>t_channel := ch\<rparr>) k"] that
    by (simp add: chan_wf_def place_def channel_changed_def)
  moreover have "ch < channel_count" if "r = OK" using that t(2) by (simp add: retune_ok_def)
  ultimately show ?thesis
    using assms k chan_wf_place [of "esb_restore_tx_or_drop cfg k" l]
    by (auto simp: esb_transport_set_channel_def rt split_beta Let_def)
qed

section \<open>Every work item keeps the link well formed\<close>

lemma link_wf_hopm: "link_wf cfg l \<Longrightarrow> hop_wf cfg h \<Longrightarrow> link_wf cfg (l\<lparr>hopm := h\<rparr>)"
  by (simp add: link_wf_def)

lemma link_wf_send_pkt: "link_wf cfg l \<Longrightarrow> link_wf cfg (snd (send_pkt cfg now addr p l))"
  by (simp add: send_pkt_def link_wf_send)

lemma link_wf_proposal: "link_wf cfg l \<Longrightarrow> link_wf cfg (send_proposal cfg now addr c l)"
  by (simp add: send_proposal_def link_wf_send_pkt)

lemma link_wf_idle_packet: "link_wf cfg l \<Longrightarrow> link_wf cfg (send_idle_packet cfg now addr l)"
  by (simp add: send_idle_packet_def link_wf_send_pkt esb_transport_flush_tx_def link_wf_flush)

lemma hop_wf_request_burst: "hop_wf cfg h \<Longrightarrow> hop_wf cfg (h\<lparr>request_burst := request_burst h - Suc 0\<rparr>)"
  by (auto simp: hop_wf_def)

lemma hop_wf_coop_idle: "hop_wf cfg h \<Longrightarrow> hop_wf cfg (h\<lparr>coop_st := COOP_IDLE\<rparr>)"
  by (simp add: hop_wf_def)

lemma hop_wf_coop_target:
  "hop_wf cfg h \<Longrightarrow> channel_ok c \<Longrightarrow> hop_wf cfg (h\<lparr>coop_target := c, coop_seq := q, last_tx_was_offer := b\<rparr>)"
  by (simp add: hop_wf_def)

lemma hop_wf_decay: "hop_wf cfg h \<Longrightarrow> hop_wf cfg (on_offs (persist_decay_check cfg rdv now) h)"
  by (simp add: hop_simps hop_wf_def decay_table decay_quarantine decay_avoided_distinct)

lemma hop_wf_burst_step:
  "hop_wf cfg h \<Longrightarrow> hop_wf cfg (h\<lparr>burst_remaining := x mod 256\<rparr>)" "hop_wf cfg h \<Longrightarrow> hop_wf cfg (h\<lparr>pending_candidate := channel_invalid\<rparr>)"
  using mod_less_divisor [of 256 x] by (simp_all add: hop_wf_def)

lemma link_wf_negotiate:
  assumes "kconfig_ok cfg" "link_wf cfg l"
  shows "link_wf cfg (negotiate_work_fn cfg now cyc addr l)"
proof -
  have h: "hop_wf cfg (hopm l)" using assms(2) by (simp add: link_wf_def)
  then have "hop_wf cfg (snd (pick_candidate cfg now cyc c ((hopm l)\<lparr>committed_synced := False\<rparr>)))" for c
    using hop_wf_pick [OF assms(1), of "(hopm l)\<lparr>committed_synced := False\<rparr>"] by simp
  then show ?thesis
    using assms(2)
    by (auto simp: negotiate_work_fn_def split_beta Let_def hop_resched_def
        intro!: link_wf_hop link_wf_proposal link_wf_hopm hop_wf_request_burst)
qed

lemma link_wf_enter_idle: "link_wf cfg l \<Longrightarrow> link_wf cfg (enter_idle_state cfg now addr l)"
  by (auto simp: enter_idle_state_def intro!: link_wf_idle_packet link_wf_hop hop_wf_leave)

lemma link_wf_idle_check: "link_wf cfg l \<Longrightarrow> link_wf cfg (idle_check_work_fn cfg now addr l)"
  by (simp add: idle_check_work_fn_def link_wf_enter_idle)

lemma link_wf_burst_tail: "link_wf cfg l \<Longrightarrow> link_wf cfg (burst_tail cfg now addr l)"
  by (auto simp: burst_tail_def Let_def hop_resched_def intro!: link_wf_idle_packet link_wf_hop hop_wf_burst_step)

lemma link_wf_burst:
  assumes "kconfig_ok cfg" "link_wf cfg l"
  shows "link_wf cfg (snd (post_hop_burst_work_fn cfg now cyc addr l))"
proof -
  have "hop_wf cfg (snd (select_pending_candidate cfg now cyc c (hopm l)))" for c
    using hop_wf_select [OF assms(1)] assms(2) by (simp add: link_wf_def)
  then show ?thesis
    using assms(2)
    by (auto simp: post_hop_burst_work_fn_def split_beta Let_def
        intro!: link_wf_burst_tail link_wf_begin link_wf_proposal link_wf_hopm)
qed

lemma link_wf_burst_resume: "link_wf cfg l \<Longrightarrow> link_wf cfg (post_hop_burst_resume cfg now addr l)"
  by (simp add: post_hop_burst_resume_def link_wf_burst_tail link_wf_finish)

text \<open>The link once the hop work item has aged the offenders and decided.\<close>

lemma link_wf_decided:
  assumes "kconfig_ok cfg" "link_wf cfg l"
  shows "link_wf cfg ((on_hop (on_offs (persist_decay_check cfg rdv now)) l)\<lparr>hopm :=
     snd (hop_decide cfg now cyc rdv cur (on_offs (persist_decay_check cfg rdv now) (hopm l)))\<rparr>)"
proof -
  have "link_wf cfg (on_hop (on_offs (persist_decay_check cfg rdv now)) l)"
    using assms(2) by (rule link_wf_hop) (rule hop_wf_decay)
  moreover have "hop_wf cfg (on_offs (persist_decay_check cfg rdv now) (hopm l))"
    using assms(2) by (intro hop_wf_decay) (simp add: link_wf_def)
  ultimately show ?thesis by (intro link_wf_hopm hop_wf_decide assms(1))
qed

lemma link_wf_hop_work:
  assumes "kconfig_ok cfg" "link_wf cfg l" "chan_wf l"
  shows "link_wf cfg (hop_work_fn cfg now cyc l)"
proof -
  have "t_channel (tr l) < channel_count" using assms(3) by (simp add: chan_wf_def)
  then show ?thesis
    unfolding hop_work_fn_def Let_def split_beta
    by (auto simp: hop_resched_def split: option.split
        intro!: link_wf_decided [OF assms(1,2)] link_wf_threads(7) link_wf_hop link_wf_set_channel assms(1) hop_wf_committed)
qed

lemma link_wf_offer:
  assumes "kconfig_ok cfg" "link_wf cfg l"
  shows "link_wf cfg (coop_hop_offer_work_fn cfg now cyc addr l)"
proof -
  have t: "hop_wf cfg (snd (coop_hop_pick_target cfg now cyc c (hopm l)))"
    "channel_ok (fst (coop_hop_pick_target cfg now cyc c (hopm l)))" for c
    using hop_wf_pick [OF assms(1)] pick_ok [OF assms(1), of now cyc c "hopm l"] assms(2)
    by (auto simp: coop_hop_pick_target_def link_wf_def hop_wf_def [of cfg "hopm l"])
  then show ?thesis
    using assms(2)
    by (auto simp: coop_hop_offer_work_fn_def split_beta Let_def
        intro!: link_wf_send_pkt link_wf_hop link_wf_hopm hop_wf_coop_idle hop_wf_coop_target)
qed

lemma link_wf_coop_commit:
  assumes "kconfig_ok cfg" "link_wf cfg l" "chan_wf l"
  shows "link_wf cfg (coop_hop_commit_work_fn cfg now l)"
proof -
  have "t_channel (tr l) < channel_count" using assms(3) by (simp add: chan_wf_def)
  then show ?thesis
    using assms(2)
    by (auto simp: coop_hop_commit_work_fn_def split_beta Let_def hop_resched_def
        intro!: link_wf_hop link_wf_set_channel assms(1) hop_wf_coop_committed hop_wf_coop_idle)
qed

section \<open>Properties\<close>

text \<open>What a channel change that succeeds, and one that is refused, do to the rings.\<close>

lemma lockstep_moved:
  assumes "lockstep cfg l" "tx_queue (radio k) = tx_queue (radio l)"
    "tr k = channel_changed cfg now ((tr l)\<lparr>busy_streak := 0, t_channel := target\<rparr>)"
  shows "lockstep cfg k"
  by (rule lockstep_parked [OF assms(1)]) (simp_all add: assms(2,3) channel_changed_def no_refund_def refund_wf_def)

lemma lockstep_refused:
  assumes "lockstep cfg l" "tx_queue (radio k) = tx_queue (radio l)" "tr k = (tr l)\<lparr>busy_streak := b, consecutive_fail := 0\<rparr>"
  shows "lockstep cfg k"
  by (rule lockstep_parked [OF assms(1)]) (use assms in \<open>simp_all add: lockstep_def rings_wf_def motion_wf_def\<close>)

text \<open>
  C4. The failure-driven hop is a transaction. Whatever the work item decides, the transmit queue
  survives it in lockstep with the rings. Without a decision nothing moves; with one, either the
  radio and the transport are both on the target and the hop manager has committed exactly the
  bookkeeping of that hop, or neither has moved, the failure count starts again and a retry is
  scheduled, with no other trace of the decision than the one deciding leaves.
\<close>

theorem hop_work_transaction:
  assumes k: "kconfig_ok cfg" and w: "link_wf cfg l" and up: "t_configured (tr l)" "esb_initialized (radio l)"
  shows "let l' = hop_work_fn cfg now cyc l; prev = t_channel (tr l); rdv = boot_channel (tr l);
      (d, h) = hop_decide cfg now cyc rdv prev (on_offs (persist_decay_check cfg rdv now) (hopm l))
    in tx_queue (radio l') = tx_queue (radio l) \<and> (lockstep cfg l \<longrightarrow> lockstep cfg l') \<and> bn l' = bn l
     \<and> (case d of None \<Rightarrow> radio l' = radio l \<and> place l' = place l \<and> hopm l' = h
        | Some (kind, target) \<Rightarrow>
            if retune_ok cfg target l
            then rf_channel (radio l') = target \<and> place l' = (target, rdv, True)
               \<and> hopm l' = hop_committed cfg now rdv prev kind target h
            else rf_channel (radio l') = rf_channel (radio l) \<and> place l' = place l \<and> consecutive_fail (tr l') = 0
               \<and> hopm l' = hop_resched W_hop_retry (c_hop_retry_delay_ms cfg) h)"
proof -
  let ?rdv = "boot_channel (tr l)" and ?prev = "t_channel (tr l)"
  obtain d h where dh: "hop_decide cfg now cyc ?rdv ?prev (on_offs (persist_decay_check cfg ?rdv now) (hopm l)) = (d, h)"
    by fastforce
  show ?thesis
  proof (cases d)
    case None
    with dh show ?thesis
      by (simp add: hop_work_fn_def Let_def place_def esb_transport_reset_consecutive_fail_def lockstep_def rings_wf_def)
  next
    case (Some kt)
    obtain kind target where d: "d = Some (kind, target)" using Some by (cases kt) simp
    let ?l1 = "(on_hop (on_offs (persist_decay_check cfg ?rdv now)) l)\<lparr>hopm := h\<rparr>"
    have eq: "hop_work_fn cfg now cyc l = (let (r, l2) = esb_transport_set_channel cfg now target ?l1
              in if r \<noteq> OK
                 then on_hop (hop_resched W_hop_retry (c_hop_retry_delay_ms cfg))
                        (on_tr esb_transport_reset_consecutive_fail l2)
                 else on_hop (hop_committed cfg now ?rdv ?prev kind target) l2)"
      using dh d by (simp add: hop_work_fn_def Let_def)
    have w1: "link_wf cfg ?l1"
      using link_wf_decided [OF k w, where rdv = ?rdv and now = now and cyc = cyc and cur = ?prev] dh by simp
    have up1: "t_configured (tr ?l1)" "esb_initialized (radio ?l1)" using up by simp_all
    show ?thesis
    proof (cases "retune_ok cfg target l")
      case True
      then have "retune_ok cfg target ?l1" by (simp add: retune_ok_def)
      from set_channel_ok [OF w1 up1 this, of now] obtain s' where s': "tx_queue s' = tx_queue (radio l)" "rf_channel s' = target"
          "esb_transport_set_channel cfg now target ?l1 = (OK, ?l1\<lparr>radio := s',
             tr := channel_changed cfg now ((tr l)\<lparr>busy_streak := 0, t_channel := target\<rparr>)\<rparr>)"
        by auto
      then show ?thesis
        using True up(1) lockstep_moved [of cfg l _ now target] by (simp add: dh d eq s'(3) place_def channel_changed_def)
    next
      case False
      then have "\<not> retune_ok cfg target ?l1" by (simp add: retune_ok_def)
      from set_channel_err [OF w1 up1 this, of now] obtain s' e b where s': "tx_queue s' = tx_queue (radio l)"
          "rf_channel s' = rf_channel (radio l)"
          "esb_transport_set_channel cfg now target ?l1 = (Err e, ?l1\<lparr>radio := s', tr := (tr l)\<lparr>busy_streak := b\<rparr>\<rparr>)"
        by auto
      then show ?thesis
        using False lockstep_refused [of cfg l _ b] by (simp add: dh d eq s'(3) place_def esb_transport_reset_consecutive_fail_def)
    qed
  qed
qed

theorem hop_work_transaction_witness:
  "tx_queue (radio (hop_work_fn default_kconfig 700 9 up_link)) = []
   \<and> bn (hop_work_fn default_kconfig 700 9 up_link) = bench_boot"
proof -
  have up: "t_configured (tr up_link)" "esb_initialized (radio up_link)" by simp_all
  show ?thesis
    using hop_work_transaction [OF kconfig_ok_default up_link_wf up, of 700 9]
    by (auto simp: Let_def split_beta)
qed

section \<open>The tick that outlives its burst\<close>

text \<open>
  A disconnect stops the burst, but not a tick that is waiting on the rendezvous channel. When that
  tick goes on it decrements a counter that is already zero: the burst starts again, with 255 ticks.
\<close>

lemma burst_underflow:
  assumes "hopm l = channel_hop_ep_on_disconnected h"
  shows "burst_remaining (hopm (post_hop_burst_resume cfg now addr l)) = 255
    \<and> hop_wq (hopm (post_hop_burst_resume cfg now addr l)) W_post_hop_burst = Some (c_burst_interval_ms cfg)"
proof -
  have "hopm (snd (send_blocking_finish cfg l)) = hopm l" by (simp add: send_blocking_finish_def split_beta Let_def)
  moreover have "burst_remaining (hopm l) = 0" by (simp add: assms channel_hop_ep_on_disconnected_def hop_simps)
  ultimately show ?thesis by (simp add: post_hop_burst_resume_def burst_tail_def Let_def hop_resched_def)
qed

text \<open>
  A side trip that times out while its packet is still being retransmitted does not come back: the
  radio refuses the channel, the call ignores that, and the packets that were parked go out on the
  rendezvous channel although the transport believes to be on its own.
\<close>

lemma timed_out_trip_strands_radio:
  assumes "sync_sem (tr l) = 0" "esb_st (radio l) \<noteq> ESB_IDLE"
  shows "fst (send_blocking_finish cfg l) = Err ETIMEDOUT
    \<and> rf_channel (radio (snd (send_blocking_finish cfg l))) = rf_channel (radio l)
    \<and> \<not> sync_in_progress (tr (snd (send_blocking_finish cfg l)))"
proof -
  have "rf_channel (radio (esb_restore_tx_or_drop cfg k)) = rf_channel (radio k)" for k
    by (auto simp: esb_restore_tx_or_drop_def esb_restore_tx_def tx_bookkeeping_resync_def restore_retransmit_count_def
        esb_set_retransmit_count_def Let_def split: sum.splits prod.splits if_splits)
  moreover have "rf_channel (snd (esb_start_tx s)) = rf_channel s" for s by (simp add: esb_start_tx_def)
  ultimately show ?thesis using assms by (simp add: send_blocking_finish_def Let_def esb_set_rf_channel_def)
qed

section \<open>The work items keep the channels in range\<close>

lemma place_send_pkt [simp]: "place (snd (send_pkt cfg now addr p l)) = place l"
  by (simp add: send_pkt_def)

lemma place_idle_packet [simp]: "place (send_idle_packet cfg now addr l) = place l"
  by (simp add: send_idle_packet_def)

lemma place_burst_tail [simp]: "place (burst_tail cfg now addr l) = place l"
  by (simp add: burst_tail_def Let_def)

lemma place_work [simp]:
  "place (negotiate_work_fn cfg now cyc addr l) = place l" "place (idle_check_work_fn cfg now addr l) = place l"
  "place (snd (post_hop_burst_work_fn cfg now cyc addr l)) = place l" "place (post_hop_burst_resume cfg now addr l) = place l"
  "place (coop_hop_offer_work_fn cfg now cyc addr l) = place l"
  "place (bench_complete_fn cfg now addr l) = place l" "place (bench_result_poll_fn cfg now addr l) = place l"
  by (simp_all add: negotiate_work_fn_def idle_check_work_fn_def enter_idle_state_def post_hop_burst_work_fn_def
      post_hop_burst_resume_def coop_hop_offer_work_fn_def bench_complete_fn_def bench_result_poll_fn_def
      send_proposal_def split_beta Let_def)

lemma chan_wf_hop_work: "chan_wf l \<Longrightarrow> chan_wf (hop_work_fn cfg now cyc l)"
proof -
  assume c: "chan_wf l"
  have r: "chan_wf (on_tr esb_transport_reset_consecutive_fail k)" if "chan_wf k" for k
    using that by (simp add: chan_wf_def esb_transport_reset_consecutive_fail_def)
  show ?thesis
    using c unfolding hop_work_fn_def Let_def split_beta
    by (auto split: option.split intro!: chan_wf_place [OF place_steps(2)] r chan_wf_set_channel
        intro: chan_wf_place [of _ l])
qed

lemma chan_wf_coop_commit: "chan_wf l \<Longrightarrow> chan_wf (coop_hop_commit_work_fn cfg now l)"
  by (auto simp: coop_hop_commit_work_fn_def split_beta Let_def
      intro!: chan_wf_place [OF place_steps(2)] chan_wf_set_channel)

end
