(* ===== verification/Burst.thy ===== *)
theory Burst
  imports HopTrans
begin

text \<open>
  The burst of \<open>src/src/esb/channel_hop_ep.c\<close> as a whole: its ticks one after the other, each with
  the radio's interrupts before it and, when it blocks on the rendezvous channel, during its wait.
  The burst ends after as many ticks as it was started with, whatever the radio does meanwhile.
\<close>

section \<open>What leaves the burst alone\<close>

definition burst :: "link \<Rightarrow> nat \<times> u32 option" where
  "burst l = (burst_remaining (hopm l), hop_wq (hopm l) W_post_hop_burst)"

definition hop_burst :: "hop \<Rightarrow> nat \<times> u32 option" where
  "hop_burst h = (burst_remaining h, hop_wq h W_post_hop_burst)"

lemma burst_hop: "burst l = hop_burst (hopm l)"
  by (simp add: burst_def hop_burst_def)

lemma hop_burst_hooks [simp]:
  "hop_burst (channel_hop_ep_note_user_tx cfg rdv now h) = hop_burst h"
  "hop_burst (channel_hop_ep_on_tx_success_isr cfg now h) = hop_burst h"
  "hop_burst (channel_hop_ep_on_tx_fail_isr cfg now h) = hop_burst h"
  "hop_burst (channel_hop_ep_on_link_degraded_isr now h) = hop_burst h"
  by (simp_all add: hop_burst_def channel_hop_ep_note_user_tx_def enter_active_state_def
      channel_hop_ep_on_tx_success_isr_def channel_hop_ep_on_tx_fail_isr_def tx_fail_hop_def
      channel_hop_ep_on_link_degraded_isr_def hop_simps resched_def submit_def cancel_def)

lemma hop_burst_select [simp]: "hop_burst (snd (select_pending_candidate cfg now cyc cur h)) = hop_burst h"
  by (simp add: hop_burst_def select_pending_candidate_def pick_candidate_def split_beta Let_def)

lemma hopm_trip [simp]:
  "hopm (snd (send_blocking_begin cfg ch pipe data l)) = hopm l" "hopm (snd (send_blocking_finish cfg l)) = hopm l"
  "hopm (snd (esb_transport_set_channel cfg now ch l)) = hopm l"
  by (simp_all add: send_blocking_begin_def send_blocking_finish_def esb_transport_set_channel_def retune_def
      split_beta Let_def)

text \<open>A frame that is not the user's changes nothing in the hop manager.\<close>

lemma hopm_send_quiet:
  assumes "\<not> is_user_traffic data"
  shows "hopm (snd (esb_transport_send cfg now addr pipe data l)) = hopm l"
proof -
  have "hopm (snd (transmit cfg now pipe data k)) = hopm k" for k
    using assms by (simp add: transmit_def split_beta Let_def attach_parts note_send_parts)
  then show ?thesis by (simp add: esb_transport_send_def Let_def)
qed

lemma hopm_packets [simp]:
  "hopm (send_proposal cfg now addr c l) = hopm l" "hopm (send_idle_packet cfg now addr l) = hopm l"
  by (simp_all add: send_proposal_def send_idle_packet_def send_pkt_def hopm_send_quiet is_user_traffic_def
      esb_transport_flush_tx_def)

lemma burst_bookkeeping [simp]:
  "burst (on_tr f l) = burst l" "burst (on_radio k l) = burst l" "burst (l\<lparr>radio := s\<rparr>) = burst l"
  "burst (l\<lparr>tr := t\<rparr>) = burst l" "burst (l\<lparr>bn := b\<rparr>) = burst l" "burst (l\<lparr>tr := t, radio := s\<rparr>) = burst l"
  "burst (esb_flush_tx_and_reset cfg l) = burst l" "burst (consume_motion cfg now failed l) = burst l"
  "burst (consume_override l) = burst l"
  by (simp_all add: burst_def)

lemma burst_on_hop: "burst (on_hop g l) = hop_burst (g (hopm l))" "burst (l\<lparr>hopm := h\<rparr>) = hop_burst h"
  by (simp_all add: burst_hop)

lemma burst_event [simp]: "burst (zmk_esb_transport_evt_cb cfg now ev l) = burst l"
proof -
  have w: "burst (weak_link cfg now (fail_window cfg now k)) = burst k" for k
    by (simp add: weak_link_def fail_window_def Let_def burst_on_hop) (simp add: burst_hop)
  have r: "burst (record_success cfg now a k) = burst k" for a k
    by (simp add: record_success_def degraded_check_def split_beta Let_def burst_on_hop) (simp add: burst_hop)
  have s: "burst (on_hop (channel_hop_ep_on_tx_success_isr cfg now) k) = burst k" for k
    by (simp add: burst_hop)
  show ?thesis
    by (cases ev) (simp_all add: zmk_esb_transport_evt_cb_def on_tx_success_def on_tx_failed_def Let_def r w s split_beta)
qed

section \<open>Turns\<close>

text \<open>What the radio may do between two instructions of the work queue, each as its handler does it.\<close>

datatype burst_irq = Sent_Noack | Sent | Answered "payload option" | Events u32

fun burst_irq_fn :: "kconfig \<Rightarrow> burst_irq \<Rightarrow> link \<Rightarrow> link" where
  "burst_irq_fn cfg Sent_Noack l = l\<lparr>radio := on_radio_end_tx_noack (radio l)\<rparr>"
| "burst_irq_fn cfg Sent l = l\<lparr>radio := on_radio_disabled_tx (radio l)\<rparr>"
| "burst_irq_fn cfg (Answered ack) l = l\<lparr>radio := on_radio_disabled_tx_wait_for_ack cfg ack (radio l)\<rparr>"
| "burst_irq_fn cfg (Events now) l = esb_event_interrupt cfg now l"

text \<open>
  A turn: the interrupts before the tick, the tick, taken off its queue as it starts, and when it
  waits on the rendezvous channel the interrupts during the wait and the rest of the tick.
\<close>

record burst_turn =
  bt_now :: u32
  bt_cyc :: u32
  bt_addr :: u32
  bt_before :: "burst_irq list"
  bt_during :: "burst_irq list"

definition burst_turn_fn :: "kconfig \<Rightarrow> burst_turn \<Rightarrow> link \<Rightarrow> link" where
  "burst_turn_fn cfg b l =
     (let l1 = on_hop (hop_cancel W_post_hop_burst) (fold (burst_irq_fn cfg) (bt_before b) l);
          (away, l2) = post_hop_burst_work_fn cfg (bt_now b) (bt_cyc b) (bt_addr b) l1
      in if away then post_hop_burst_resume cfg (bt_now b) (bt_addr b) (fold (burst_irq_fn cfg) (bt_during b) l2)
         else l2)"

lemma burst_irq_keeps [simp]: "burst (burst_irq_fn cfg i l) = burst l"
proof -
  have "burst (fold (zmk_esb_transport_evt_cb cfg now) evs k) = burst k" for now evs k
    by (induction evs arbitrary: k) simp_all
  then show ?thesis by (cases i) (simp_all add: esb_event_interrupt_def split_beta)
qed

lemma burst_irqs_keep [simp]: "burst (fold (burst_irq_fn cfg) irqs l) = burst l"
  by (induction irqs arbitrary: l) simp_all

text \<open>The tail counts down; the tick before it changes nothing of the burst.\<close>

lemma burst_tail_counts:
  assumes "burst l = (Suc n, None)" "n < 256"
  shows "burst (burst_tail cfg now addr l) = (n, if n = 0 then None else Some (c_burst_interval_ms cfg))"
    and "n = 0 \<Longrightarrow> pending_candidate (hopm (burst_tail cfg now addr l)) = channel_invalid"
  using assms by (auto simp: burst_tail_def burst_def Let_def hop_resched_def resched_def)

lemma burst_send [simp]:
  "burst (send_proposal cfg now addr c l) = burst l" "burst (snd (send_blocking_begin cfg ch pipe data l)) = burst l"
  "burst (snd (send_blocking_finish cfg l)) = burst l"
  by (simp_all add: burst_hop)

lemma burst_work:
  assumes "fst (burst l) \<noteq> 0"
  obtains k where "burst k = burst l" "post_hop_burst_work_fn cfg now cyc addr l = (True, k)"
  | k where "burst k = burst l" "post_hop_burst_work_fn cfg now cyc addr l = (False, burst_tail cfg now addr k)"
proof -
  obtain c h where p: "(if usable_next now (t_channel (tr l)) (hopm l) (committed_next (hopm l))
      then (committed_next (hopm l), hopm l)
      else select_pending_candidate cfg now cyc (t_channel (tr l)) (hopm l)) = (c, h)" by fastforce
  then have "hop_burst h = hop_burst (hopm l)"
    by (auto split: if_splits dest: arg_cong [where f = "\<lambda>x. hop_burst (snd x)"])
  then have k: "burst (l\<lparr>hopm := h\<rparr>) = burst l" by (simp add: burst_hop)
  let ?b = "send_blocking_begin cfg (boot_channel (tr (l\<lparr>hopm := h\<rparr>))) pipe_data
    (layout (Hop_Proposal (of_nat (t_channel (tr l))) (of_nat (t_channel (tr l))))) (l\<lparr>hopm := h\<rparr>)"
  have "burst_remaining (hopm l) \<noteq> 0" using assms by (simp add: burst_def)
  then have tick: "post_hop_burst_work_fn cfg now cyc addr l =
      (if burst_to_rendezvous cfg (l\<lparr>hopm := h\<rparr>)
       then if fst ?b = OK then (True, snd ?b) else (False, burst_tail cfg now addr (snd ?b))
       else if c \<noteq> channel_invalid \<and> \<not> committed_synced h
         then (False, burst_tail cfg now addr (send_proposal cfg now addr c (l\<lparr>hopm := h\<rparr>)))
       else (False, burst_tail cfg now addr (l\<lparr>hopm := h\<rparr>)))"
    unfolding post_hop_burst_work_fn_def Let_def p by (simp add: split_beta)
  have "burst (snd ?b) = burst l" "burst (send_proposal cfg now addr c (l\<lparr>hopm := h\<rparr>)) = burst l"
    using k by simp_all
  then show ?thesis using that k tick by meson
qed

lemma burst_tick:
  fixes cfg :: kconfig and b :: burst_turn
  assumes "burst l = (Suc n, d)" "n < 256"
  defines "l' \<equiv> burst_turn_fn cfg b l"
  shows "burst l' = (n, if n = 0 then None else Some (c_burst_interval_ms cfg))"
    and "n = 0 \<Longrightarrow> pending_candidate (hopm l') = channel_invalid"
proof -
  let ?l = "on_hop (hop_cancel W_post_hop_burst) (fold (burst_irq_fn cfg) (bt_before b) l)"
  have "burst (fold (burst_irq_fn cfg) (bt_before b) l) = (Suc n, d)" using assms(1) by simp
  then have l: "burst ?l = (Suc n, None)" by (simp add: burst_def hop_cancel_def cancel_def)
  have "\<exists>k. burst k = (Suc n, None) \<and> l' = burst_tail cfg (bt_now b) (bt_addr b) k"
  proof (rule burst_work [of ?l cfg "bt_now b" "bt_cyc b" "bt_addr b"])
    show "fst (burst ?l) \<noteq> 0" using l by simp
  next
    fix k
    assume "burst k = burst ?l" "post_hop_burst_work_fn cfg (bt_now b) (bt_cyc b) (bt_addr b) ?l = (True, k)"
    then show ?thesis
      using l by (intro exI [of _ "snd (send_blocking_finish cfg (fold (burst_irq_fn cfg) (bt_during b) k))"])
        (simp add: l'_def burst_turn_fn_def post_hop_burst_resume_def)
  next
    fix k
    assume "burst k = burst ?l"
      "post_hop_burst_work_fn cfg (bt_now b) (bt_cyc b) (bt_addr b) ?l = (False, burst_tail cfg (bt_now b) (bt_addr b) k)"
    then show ?thesis using l by (auto simp: l'_def burst_turn_fn_def)
  qed
  then show "burst l' = (n, if n = 0 then None else Some (c_burst_interval_ms cfg))"
    "n = 0 \<Longrightarrow> pending_candidate (hopm l') = channel_invalid"
    using burst_tail_counts assms(2) by auto
qed

section \<open>The burst ends\<close>

lemma burst_run:
  assumes "burst l = (n, Some d)" "n \<le> 255" "k \<le> n" "k \<le> length turns"
  shows "burst (fold (burst_turn_fn cfg) (take k turns) l)
    = (n - k, if k = 0 then Some d else if k = n then None else Some (c_burst_interval_ms cfg))"
  using assms(3,4)
proof (induction k)
  case 0
  then show ?case using assms(1) by simp
next
  case (Suc k)
  let ?l = "fold (burst_turn_fn cfg) (take k turns) l"
  obtain e where "burst ?l = (Suc (n - Suc k), e)" using Suc by (auto simp: Suc_diff_Suc)
  from burst_tick(1) [OF this, of cfg "turns ! k"] show ?case
    using Suc.prems assms(2) by (simp add: take_Suc_conv_app_nth)
qed

text \<open>
  C22. The burst after a hop ends: it is first due after the quiet window, every tick but the last
  makes the next one due after the interval and counts down by one, and after the configured number
  of ticks nothing is due and the sticky candidate is given up; whichever ticks go to the rendezvous
  channel, however those trips end, and whatever the radio reports between and during the ticks.
\<close>

theorem burst_ends:
  fixes cfg :: kconfig and turns :: "burst_turn list" and l :: link
  defines "run k \<equiv> fold (burst_turn_fn cfg) (take k turns) (on_hop (start_post_hop_burst cfg) l)"
  assumes "kconfig_ok cfg" "0 < c_burst_count cfg" "length turns = c_burst_count cfg"
  shows "(\<forall>k < c_burst_count cfg. burst (run k)
      = (c_burst_count cfg - k, Some (if k = 0 then c_post_quiet_ms cfg else c_burst_interval_ms cfg)))
    \<and> burst (run (c_burst_count cfg)) = (0, None)
    \<and> pending_candidate (hopm (run (c_burst_count cfg))) = channel_invalid"
proof -
  let ?l = "on_hop (start_post_hop_burst cfg) l"
  obtain n where n: "c_burst_count cfg = Suc n" using assms(3) by (cases "c_burst_count cfg") auto
  have b: "c_burst_count cfg \<le> 255" using kconfig_small(7) [OF assms(2)] by simp
  have "burst ?l = (c_burst_count cfg, Some (c_post_quiet_ms cfg))"
    using assms(3) by (simp add: burst_def start_post_hop_burst_def hop_resched_def resched_def)
  from burst_run [OF this b, of _ turns cfg]
  have runs: "burst (run k) = (c_burst_count cfg - k, if k = 0 then Some (c_post_quiet_ms cfg)
      else if k = c_burst_count cfg then None else Some (c_burst_interval_ms cfg))" if "k \<le> c_burst_count cfg" for k
    using that assms(4) by (simp add: run_def)
  obtain d where "burst (run n) = (Suc 0, d)" using runs [of n] n by simp
  moreover have "run (Suc n) = burst_turn_fn cfg (turns ! n) (run n)"
    using n assms(4) by (simp add: run_def take_Suc_conv_app_nth del: take_all)
  ultimately have "pending_candidate (hopm (run (Suc n))) = channel_invalid"
    using burst_tick(2) [of "run n" 0] by simp
  then show ?thesis using runs n by simp
qed

theorem burst_ends_witness:
  "burst (fold (burst_turn_fn default_kconfig)
     (replicate 7 \<lparr>bt_now = 900, bt_cyc = 3, bt_addr = 5, bt_before = [Sent, Events 880], bt_during = [Sent, Answered None, Events 910]\<rparr>)
     (on_hop (start_post_hop_burst default_kconfig) up_link)) = (0, None)"
  using burst_ends [OF kconfig_ok_default, of "replicate 7 \<lparr>bt_now = 900, bt_cyc = 3, bt_addr = 5,
    bt_before = [Sent, Events 880], bt_during = [Sent, Answered None, Events 910]\<rparr>" up_link] by simp

end
