(* ===== verification/Negotiate.thy ===== *)
theory Negotiate
  imports Burst
begin

text \<open>
  The negotiation of the next channel with the dongle: the frames it puts on the transmit queue, and
  how it comes to rest.
\<close>

section \<open>A frame of the manager on the queue\<close>

text \<open>A frame that was accepted ends the quiet time.\<close>

lemma transmit_open [simp]:
  "quiet_until (tr (snd (transmit cfg now pipe data l))) = quiet_until (tr l)"
  "sync_in_progress (tr (snd (transmit cfg now pipe data l))) = sync_in_progress (tr l)"
  by (simp_all add: transmit_def split_beta Let_def core_fields(4,5) [OF attach_parts(7)] note_send_def note_activity_def
      note_hid_tx_def)

lemma send_opens:
  assumes "send_refusal cfg now data l = None"
  shows "\<not> esb_transport_is_quiet t (tr (snd (esb_transport_send cfg now addr pipe data l)))"
proof -
  have flushed: "sync_in_progress (tr (esb_flush_tx_and_reset cfg k)) = sync_in_progress (tr k)"
    "quiet_until (tr (esb_flush_tx_and_reset cfg k)) = quiet_until (tr k)" for k
    by (rule core_fields(4,5) [OF core_bookkeeping(3)])+
  show ?thesis
    using assms by (auto simp: send_refusal_def esb_transport_is_quiet_def esb_transport_send_def Let_def flushed split: if_splits)
qed

lemma frame_sent:
  fixes l cfg now addr data
  assumes "kconfig_ok cfg" "link_wf cfg l" "esb_initialized (radio l)" "\<not> esb_transport_is_quiet now (tr l)"
    and d: "data \<noteq> []" "length data \<le> 3" "\<not> is_shell data"
  defines "l' \<equiv> snd (esb_transport_send cfg now addr pipe_data data l)"
  shows "(\<exists>p. tx_queue (radio l') = (if esb_tx_full (radio l) then [] else tx_queue (radio l)) @ [p] \<and> pl_data p = data)
    \<and> esb_initialized (radio l') \<and> (\<forall>t. \<not> esb_transport_is_quiet t (tr l')) \<and> t_channel (tr l') = t_channel (tr l)"
proof -
  have acc: "send_refusal cfg now data l = None"
    using assms(4) d kconfig_okD(1) [OF assms(1)] by (simp add: send_refusal_def)
  obtain b where b: "esb_transport_send cfg now addr pipe_data data l = transmit cfg now pipe_data data b"
      "length data \<le> c_max_payload cfg" "esb_wf cfg (radio b)" "esb_initialized (radio b)" "\<not> esb_tx_full (radio b)"
      "tx_queue (radio b) = (if esb_tx_full (radio l) then [] else tx_queue (radio l))"
    using send_admitted [OF assms(2,3) acc, of addr pipe_data] by blast
  have pipe: "pipe_data < c_pipe_count cfg" using kconfig_okD(3) [OF assms(1)] by simp
  have out: "out_frame cfg now data r = data" for r using d(2) by (simp add: out_frame_def is_mouse_report_def)
  obtain s a where s: "transmit cfg now pipe_data data b = (OK, a\<lparr>radio := s\<rparr>)" "esb_initialized s"
      "tx_queue s = tx_queue (radio b) @ [\<lparr>pl_pipe = pipe_data, pl_data = out_frame cfg now data (refund (mot (tr b))),
         pl_noack = noack_of cfg pipe_data data, pl_pid = (esb_pids (radio b) ! pipe_data + 1) mod 4, pl_rssi = 0\<rparr>]"
    using transmit_law [OF b(3,4,5) d(1) b(2) pipe, of now] by auto
  have "radio l' = s" unfolding l'_def b(1) s(1) by simp
  moreover have "t_channel (tr l') = t_channel (tr l)"
    using place_send [of cfg now addr pipe_data data l] by (simp add: place_def l'_def)
  ultimately show ?thesis using s(2,3) b(6) send_opens [OF acc] by (simp add: out l'_def)
qed

lemma proposal_sent:
  fixes l cfg now addr c
  assumes "kconfig_ok cfg" "link_wf cfg l" "esb_initialized (radio l)" "\<not> esb_transport_is_quiet now (tr l)"
  defines "l' \<equiv> send_proposal cfg now addr c l"
  shows "(\<exists>p. tx_queue (radio l') = (if esb_tx_full (radio l) then [] else tx_queue (radio l)) @ [p]
        \<and> pl_data p = layout (Hop_Proposal (of_nat c) (of_nat (t_channel (tr l)))))
    \<and> esb_initialized (radio l') \<and> (\<forall>t. \<not> esb_transport_is_quiet t (tr l')) \<and> t_channel (tr l') = t_channel (tr l)"
  unfolding l'_def send_proposal_def send_pkt_def
  by (rule frame_sent [OF assms(1-4)]) (simp_all add: is_shell_def)

section \<open>One turn of the negotiation\<close>

abbreviation (input) pick_next :: "kconfig \<Rightarrow> u32 \<Rightarrow> u32 \<Rightarrow> link \<Rightarrow> nat \<times> hop" where
  "pick_next cfg now cyc l \<equiv> pick_candidate cfg now cyc (t_channel (tr l)) ((hopm l)\<lparr>committed_synced := False\<rparr>)"

text \<open>Without a usable agreement the turn proposes a fresh pick and comes back after the short interval.\<close>

lemma turn_proposes:
  assumes "link_up (hopm l)" "hop_active (hopm l)" "\<not> usable_next now (t_channel (tr l)) (hopm l) (committed_next (hopm l))"
    and "fst (pick_next cfg now cyc l) \<noteq> channel_invalid"
  shows "negotiate_work_fn cfg now cyc addr l
    = on_hop (\<lambda>h. hop_resched W_negotiate (c_negotiate_retry_ms cfg) (h\<lparr>request_burst := request_burst h - 1\<rparr>))
        (send_proposal cfg now addr (fst (pick_next cfg now cyc l)) (l\<lparr>hopm := snd (pick_next cfg now cyc l)\<rparr>))"
  using assms by (simp add: negotiate_work_fn_def split_beta Let_def hop_resched_def)

text \<open>With a usable one it repeats it only when the dongle has asked, and otherwise just waits.\<close>

lemma turn_repeats:
  assumes "link_up (hopm l)" "hop_active (hopm l)" "usable_next now (t_channel (tr l)) (hopm l) (committed_next (hopm l))"
    and "\<not> committed_synced (hopm l)"
  shows "radio (negotiate_work_fn cfg now cyc addr l) = radio (send_proposal cfg now addr (committed_next (hopm l)) l)"
  using assms by (simp add: negotiate_work_fn_def Let_def)

lemma turn_rests:
  assumes "link_up (hopm l)" "hop_active (hopm l)" "usable_next now (t_channel (tr l)) (hopm l) (committed_next (hopm l))"
    and "committed_synced (hopm l)" "request_burst (hopm l) = 0"
  shows "negotiate_work_fn cfg now cyc addr l = on_hop (hop_resched W_negotiate (c_negotiate_interval_ms cfg)) l"
  using assms by (simp add: negotiate_work_fn_def Let_def)

lemma confirm_agrees:
  assumes "a < channel_count" "\<not> quarantine_is t (quar h) a"
  shows "\<exists>w. channel_hop_ep_on_rx cfg t (layout (Hop_Confirm (of_nat a) acc)) h
      = h\<lparr>committed_next := a, committed_synced := True, request_burst := 0, hop_wq := w\<rparr>"
proof -
  have "unat (of_nat a :: u8) = a" using assms(1) by (simp add: unat_of_nat)
  then show ?thesis
    using assms by (auto simp: channel_hop_ep_on_rx_def on_confirm_def hop_simps resched_def Let_def intro: exI [of _ "hop_wq h"])
qed

section \<open>The negotiation settles\<close>

lemma pick_next_free:
  assumes "kconfig_ok cfg" "c < channel_count" "c \<noteq> t_channel (tr l)" "\<not> quarantine_is now (quar (hopm l)) c"
  shows "fst (pick_next cfg now cyc l) < channel_count \<and> usable_next now (t_channel (tr l)) (hopm l) (fst (pick_next cfg now cyc l))
    \<and> (\<exists>s. snd (pick_next cfg now cyc l) = (hopm l)\<lparr>committed_synced := False, prng_state := s\<rparr>)"
proof -
  let ?h = "(hopm l)\<lparr>committed_synced := False\<rparr>" and ?cur = "t_channel (tr l)"
  have "fst (pick_next cfg now cyc l) \<noteq> channel_invalid"
    using pick_usable [OF assms(1) refl, of now cyc "prng_state ?h" "quar ?h" "c_min_distance cfg" ?cur "Some (chan_rssi ?h)"]
      relax_candidates_empty [of now "quar ?h" ?cur "c_min_distance cfg"] assms(2-4)
    by (auto simp: pick_candidate_def split_beta Let_def usable_at_def)
  then show ?thesis
    using pick_ok [OF assms(1), of now cyc ?cur ?h] by (auto simp: channel_ok_def usable_next_def)
qed

text \<open>
  C15. The negotiation settles. When an active manager on a link that takes frames has no usable agreement
  and some channel is free, its turn queues a proposal of a free channel and comes back after the short
  interval; when the dongle confirms it, the manager keeps exactly that channel as the agreement, its
  later turns send nothing and come back after the long interval; and when the dongle asks, as after a
  restart, the next turn repeats the proposal of the same channel, not of a new one.
\<close>

theorem negotiation_settles:
  fixes l cfg now cyc addr t1 t2 acc
  defines "cur \<equiv> t_channel (tr l)" and "a \<equiv> fst (pick_next cfg now cyc l)"
  defines "proposal \<equiv> layout (Hop_Proposal (of_nat a) (of_nat cur))"
    and "l1 \<equiv> negotiate_work_fn cfg now cyc addr l"
  defines "l2 \<equiv> on_hop (channel_hop_ep_on_rx cfg t1 (layout (Hop_Confirm (of_nat a) acc))) l1"
  assumes cfg: "kconfig_ok cfg" "link_wf cfg l" "esb_initialized (radio l)" "\<not> esb_transport_is_quiet now (tr l)"
    and active: "link_up (hopm l)" "hop_active (hopm l)"
    and none: "\<not> usable_next now cur (hopm l) (committed_next (hopm l))"
    and free: "c < channel_count" "c \<noteq> cur" "\<not> quarantine_is now (quar (hopm l)) c"
    and later: "\<not> quarantine_is t1 (quar (hopm l)) a" "\<not> quarantine_is t2 (quar (hopm l)) a"
  shows "a < channel_count \<and> usable_next now cur (hopm l) a
    \<and> (\<exists>p. tx_queue (radio l1) = (if esb_tx_full (radio l) then [] else tx_queue (radio l)) @ [p] \<and> pl_data p = proposal)
    \<and> hop_wq (hopm l1) W_negotiate = Some (c_negotiate_retry_ms cfg)
    \<and> committed_next (hopm l2) = a \<and> committed_synced (hopm l2)
    \<and> negotiate_work_fn cfg t2 cyc2 addr l2 = on_hop (hop_resched W_negotiate (c_negotiate_interval_ms cfg)) l2
    \<and> (\<exists>p. tx_queue (radio (negotiate_work_fn cfg t2 cyc2 addr (on_hop (channel_hop_ep_on_request cfg) l2)))
           = (if esb_tx_full (radio l1) then [] else tx_queue (radio l1)) @ [p] \<and> pl_data p = proposal)"
proof -
  obtain s where a: "a < channel_count" "usable_next now cur (hopm l) a"
      and h: "snd (pick_next cfg now cyc l) = (hopm l)\<lparr>committed_synced := False, prng_state := s\<rparr>"
    using pick_next_free [OF cfg(1) free(1) free(2) [unfolded cur_def] free(3), where cyc = cyc] by (auto simp: a_def cur_def)
  let ?k = "l\<lparr>hopm := snd (pick_next cfg now cyc l)\<rparr>"
  let ?g = "\<lambda>h. hop_resched W_negotiate (c_negotiate_retry_ms cfg) (h\<lparr>request_burst := request_burst h - 1\<rparr>)"
  have l1: "l1 = on_hop ?g (send_proposal cfg now addr a ?k)"
    using turn_proposes [OF active none [unfolded cur_def], where cyc = cyc and cfg = cfg and addr = addr] a(1) by (simp add: l1_def a_def)
  have "link_wf cfg ?k" using cfg(2) by (simp add: h link_wf_def)
  note k = proposal_sent [OF cfg(1) this, of now addr a, simplified, OF cfg(3,4)]
  then have sent: "\<exists>p. tx_queue (radio l1) = (if esb_tx_full (radio l) then [] else tx_queue (radio l)) @ [p] \<and> pl_data p = proposal"
    "esb_initialized (radio l1)" and open1: "\<not> esb_transport_is_quiet t (tr l1)" and c1: "t_channel (tr l1) = cur" for t
    by (auto simp: l1 proposal_def cur_def)
  have w1: "link_wf cfg l1" unfolding l1_def by (rule link_wf_negotiate [OF cfg(1,2)])
  have q1: "quar (hopm l1) = quar (hopm l)" "link_up (hopm l1)" "hop_active (hopm l1)"
    "hop_wq (hopm l1) W_negotiate = Some (c_negotiate_retry_ms cfg)"
    using active by (simp_all add: l1 h hop_resched_def resched_def)
  obtain w where h2: "hopm l2 = (hopm l1)\<lparr>committed_next := a, committed_synced := True, request_burst := 0, hop_wq := w\<rparr>"
    using confirm_agrees [OF a(1), of t1 "hopm l1" cfg acc] later(1) by (auto simp: l2_def q1)
  have t2: "tr l2 = tr l1" "radio l2 = radio l1" by (simp_all add: l2_def)
  have u2: "usable_next t2 (t_channel (tr l2)) (hopm l2) a"
    using a(2) later(2) by (simp add: usable_next_def h2 q1 t2 c1)
  let ?r = "on_hop (channel_hop_ep_on_request cfg) l2" and ?q1 = "if esb_tx_full (radio l1) then [] else tx_queue (radio l1)"
  have r: "committed_next (hopm ?r) = a" "\<not> committed_synced (hopm ?r)" "link_up (hopm ?r)" "hop_active (hopm ?r)"
    "usable_next t2 (t_channel (tr ?r)) (hopm ?r) a" "tr ?r = tr l1" "radio ?r = radio l1"
    using u2 q1(2,3) by (simp_all add: channel_hop_ep_on_request_def h2 hop_resched_def usable_next_def t2)
  have "link_wf cfg ?r" unfolding l2_def using w1 by (intro link_wf_hop hop_wf_rx hop_wf_request)
  then have "\<exists>p. tx_queue (radio (send_proposal cfg t2 addr a ?r)) = ?q1 @ [p] \<and> pl_data p = proposal"
    using proposal_sent [OF cfg(1), of ?r t2 addr a] sent(2) open1 c1 by (auto simp: t2 proposal_def)
  then have again: "\<exists>p. tx_queue (radio (negotiate_work_fn cfg t2 cyc2 addr ?r)) = ?q1 @ [p] \<and> pl_data p = proposal"
    using turn_repeats [OF r(3,4), of t2 cfg cyc2 addr] r(1,2,5) by simp
  have "negotiate_work_fn cfg t2 cyc2 addr l2 = on_hop (hop_resched W_negotiate (c_negotiate_interval_ms cfg)) l2"
    by (rule turn_rests) (use u2 q1 in \<open>simp_all add: h2\<close>)
  then show ?thesis using a sent(1) q1(4) h2 again by simp
qed

theorem negotiation_settles_witness:
  "committed_synced (hopm (on_hop (channel_hop_ep_on_rx default_kconfig 900 (layout (Hop_Confirm
      (of_nat (fst (pick_next default_kconfig 500 7 up_link))) 40))) (negotiate_work_fn default_kconfig 500 7 0x20001000 up_link)))"
proof -
  have free: "\<not> quarantine_is t (quar (hopm up_link)) c" if "c < channel_count" for t c
    using that by (simp add: quarantine_is_def idle_hop_def blank_quarantine_def persistent_quarantine_contains_def
        timed_quarantine_is_def)
  have "fst (pick_next default_kconfig 500 7 up_link) < channel_count"
    using pick_next_free [OF kconfig_ok_default, of 3 up_link 500 7] free [of 3] by simp
  note a = free [OF this]
  show ?thesis
    using negotiation_settles [OF kconfig_ok_default up_link_wf, where now = 500 and c = 3 and cyc = 7 and ?t1.0 = 900 and ?t2.0 = 950 and acc = 40 and addr = "0x20001000"] free [of 3] a
    by (simp add: esb_transport_is_quiet_def usable_next_def idle_hop_def)
qed

end
