(* ===== verification/Handshake.thy ===== *)
theory Handshake
  imports Burst
begin

text \<open>
  The cooperative handshake as a state machine: what each hook and each work item of the hop manager
  does to its state, on every branch. Only three kinds of step move it: a degraded link offers, a
  delivered offer is armed, and everything else that touches it drops it to idle.
\<close>

section \<open>The hooks\<close>

lemma coop_degraded:
  "channel_hop_ep_on_link_degraded_isr now h
    = (if link_up h \<and> hop_active h \<and> coop_st h = COOP_IDLE \<and> \<not> hop_cooldown_active now h \<and> \<not> coop_hop_cooldown_active now h
       then hop_resched W_coop_offer 0 (h\<lparr>coop_st := COOP_OFFERED\<rparr>) else h)"
  by (simp add: channel_hop_ep_on_link_degraded_isr_def)

lemma coop_success:
  defines "armed h \<equiv> last_tx_was_offer h \<and> coop_st h = COOP_OFFERED"
  shows "coop_st (channel_hop_ep_on_tx_success_isr cfg now h) = (if armed h then COOP_ARMED else coop_st h)"
    "hop_wq (channel_hop_ep_on_tx_success_isr cfg now h) W_coop_commit
      = (if armed h then Some (of_nat (c_coop_hop_in_ms cfg)) else hop_wq h W_coop_commit)"
    "\<not> last_tx_was_offer (channel_hop_ep_on_tx_success_isr cfg now h)"
  by (auto simp: armed_def channel_hop_ep_on_tx_success_isr_def hop_simps resched_def)

lemma coop_failure:
  "coop_st (channel_hop_ep_on_tx_fail_isr cfg now h)
    = (if last_tx_was_offer h \<and> coop_st h = COOP_OFFERED then COOP_IDLE else coop_st h)"
  "\<not> last_tx_was_offer (channel_hop_ep_on_tx_fail_isr cfg now h)"
  "last_tx_was_offer h \<Longrightarrow> coop_st h = COOP_OFFERED
    \<Longrightarrow> hop_wq (channel_hop_ep_on_tx_fail_isr cfg now h) = hop_wq h"
  by (auto simp: channel_hop_ep_on_tx_fail_isr_def tx_fail_hop_def hop_simps)

lemma coop_kept:
  "coop_st (channel_hop_ep_on_rx cfg now data h) = coop_st h" "coop_st (channel_hop_ep_on_request cfg h) = coop_st h"
  "coop_st (channel_hop_ep_note_user_tx cfg rdv now h) = coop_st h" "coop_st (channel_hop_ep_on_connected cfg rdv now h) = coop_st h"
  "coop_st (channel_hop_ep_note_peer_rssi cfg cur ewma h) = coop_st h"
  "coop_st (hop_retry_work_fn h) = coop_st h" "coop_st (persist_work_fn cfg rdv h) = coop_st h"
  "coop_st (rssi_persist_work_fn cfg h) = coop_st h"
  by (simp_all add: channel_hop_ep_on_rx_def on_accept_def on_confirm_def channel_hop_ep_on_request_def
      channel_hop_ep_note_user_tx_def channel_hop_ep_on_connected_def enter_active_state_def channel_hop_ep_note_peer_rssi_def
      hop_retry_work_fn_def persist_work_fn_def rssi_persist_work_fn_def hop_simps)

text \<open>Dropped: idle, and none of its work items or marks is left.\<close>

definition handshake_gone :: "hop \<Rightarrow> bool" where
  "handshake_gone h \<longleftrightarrow> coop_st h = COOP_IDLE \<and> hop_wq h W_coop_offer = None \<and> hop_wq h W_coop_commit = None
     \<and> \<not> last_tx_was_offer h"

lemma coop_gone: "handshake_gone (leave_active h)" "handshake_gone (channel_hop_ep_on_disconnected h)"
  by (simp_all add: handshake_gone_def leave_active_def channel_hop_ep_on_disconnected_def hop_simps cancel_def)

section \<open>The work items\<close>

lemma coop_bookkeeping:
  "coop_st (hop_committed cfg now rdv cur kind target h) = coop_st h"
  "coop_st (coop_committed cfg now rdv cur h) = COOP_IDLE"
  by (cases kind) (simp_all add: hop_committed_def commit_hop_bookkeeping_def start_post_hop_burst_def
      unban_def coop_committed_def hop_simps)

lemma coop_decide: "coop_st (snd (hop_decide cfg now cyc rdv cur h)) = coop_st h"
  by (simp add: hop_decide_def pick_candidate_def Let_def split_beta)

lemma coop_hop: "coop_st (hopm (hop_work_fn cfg now cyc l)) = coop_st (hopm l)"
  by (auto simp: hop_work_fn_def split_beta Let_def coop_decide coop_bookkeeping hop_resched_def on_offs_eq split: option.split)

lemma coop_negotiate: "coop_st (hopm (negotiate_work_fn cfg now cyc addr l)) = coop_st (hopm l)"
  by (simp add: negotiate_work_fn_def pick_candidate_def split_beta Let_def hop_resched_def)

lemma coop_idle_check:
  "if link_up (hopm l) \<and> hop_active (hopm l) then handshake_gone (hopm (idle_check_work_fn cfg now addr l))
   else idle_check_work_fn cfg now addr l = l"
  by (simp add: idle_check_work_fn_def enter_idle_state_def coop_gone)

lemma coop_burst:
  "coop_st (hopm (snd (post_hop_burst_work_fn cfg now cyc addr l))) = coop_st (hopm l)"
  "coop_st (hopm (post_hop_burst_resume cfg now addr l)) = coop_st (hopm l)"
proof -
  have tail: "coop_st (hopm (burst_tail cfg now addr k)) = coop_st (hopm k)" for k
    by (simp add: burst_tail_def Let_def hop_resched_def)
  show "coop_st (hopm (post_hop_burst_resume cfg now addr l)) = coop_st (hopm l)"
    by (simp add: post_hop_burst_resume_def tail)
  show "coop_st (hopm (snd (post_hop_burst_work_fn cfg now cyc addr l))) = coop_st (hopm l)"
    by (simp add: post_hop_burst_work_fn_def select_pending_candidate_def pick_candidate_def split_beta Let_def tail)
qed

text \<open>
  The offer. Without a link, without activity or without a target it is dropped; otherwise the target
  and a new number are on record and the frame is handed over, and the handshake is dropped again
  when the transport refuses it.
\<close>

lemma coop_offer:
  fixes cfg now cyc addr l
  defines "cur \<equiv> t_channel (tr l)" and "target \<equiv> fst (coop_hop_pick_target cfg now cyc (t_channel (tr l)) (hopm l))"
    and "l1 \<equiv> l\<lparr>hopm := (snd (coop_hop_pick_target cfg now cyc (t_channel (tr l)) (hopm l)))
           \<lparr>coop_target := fst (coop_hop_pick_target cfg now cyc (t_channel (tr l)) (hopm l)),
            coop_seq := coop_seq (hopm l) + 1, last_tx_was_offer := True\<rparr>\<rparr>"
  defines "r \<equiv> fst (send_pkt cfg now addr (Hop_Offer (of_nat target) (of_nat (c_coop_hop_in_ms cfg)) (coop_seq (hopm l) + 1)) l1)"
    and "h' \<equiv> hopm (coop_hop_offer_work_fn cfg now cyc addr l)"
  shows "if \<not> link_up (hopm l) \<or> \<not> hop_active (hopm l) then coop_st h' = COOP_IDLE
    else if coop_st (hopm l) \<noteq> COOP_OFFERED then h' = hopm l
    else if target = channel_invalid \<or> target = cur then coop_st h' = COOP_IDLE
    else coop_target h' = target \<and> coop_seq h' = coop_seq (hopm l) + 1 \<and> last_tx_was_offer h' = (r = OK)
      \<and> coop_st h' = (if r = OK then COOP_OFFERED else COOP_IDLE)"
proof -
  have keep: "coop_st (snd (coop_hop_pick_target cfg now cyc c h)) = coop_st h"
    "coop_seq (snd (coop_hop_pick_target cfg now cyc c h)) = coop_seq h" for c h
    by (simp_all add: coop_hop_pick_target_def pick_candidate_def split_beta Let_def)
  have q: "hopm (snd (send_pkt cfg now addr (Hop_Offer a b c) k)) = hopm k" for a b c k
    by (simp add: send_pkt_def hopm_send_quiet is_user_traffic_def)
  have o: "on_hop f (k\<lparr>hopm := h\<rparr>) = k\<lparr>hopm := f h\<rparr>" for f k h by (cases k) simp
  show ?thesis
    by (simp add: h'_def r_def l1_def target_def cur_def coop_hop_offer_work_fn_def split_beta Let_def q keep o)
qed

text \<open>The commit. Whatever the channel change answers, an armed handshake is over after it.\<close>

lemma coop_commit:
  fixes cfg now l
  defines "target \<equiv> coop_target (hopm l)" and "l' \<equiv> coop_hop_commit_work_fn cfg now l"
  shows "if coop_st (hopm l) \<noteq> COOP_ARMED then l' = l
    else coop_st (hopm l') = COOP_IDLE
      \<and> (target = channel_invalid \<or> target = t_channel (tr l) \<longrightarrow> tr l' = tr l \<and> radio l' = radio l)
      \<and> (target \<noteq> channel_invalid \<and> target \<noteq> t_channel (tr l) \<and> fst (esb_transport_set_channel cfg now target l) \<noteq> OK
          \<longrightarrow> hop_wq (hopm l') W_hop_retry = Some (c_hop_retry_delay_ms cfg))"
  by (simp add: l'_def target_def coop_hop_commit_work_fn_def split_beta Let_def coop_bookkeeping hop_resched_def resched_def)

section \<open>Every edge\<close>

text \<open>
  C11. Every edge of the cooperative handshake, exactly. Idle to offered: when the link is reported degraded,
  if and only if the link is up, active and outside both cooldowns, and then the offer is due at once.
  Offered: the work item puts target and number on record and stays offered only if the transport takes
  the frame, else it drops the handshake (as it does without link, activity or target); the delivery of
  the marked frame arms it and schedules the commit, its failure drops it and requests no hop. Armed:
  the commit ends it whatever the channel change answers, and a refused change schedules a retry of the
  hop. Going idle and a disconnect drop it from any state with its work items and its mark. No other
  hook and no other work item of the manager moves it.
\<close>

theorem coop_handshake_edges:
  "channel_hop_ep_on_link_degraded_isr now h
     = (if link_up h \<and> hop_active h \<and> coop_st h = COOP_IDLE \<and> \<not> hop_cooldown_active now h \<and> \<not> coop_hop_cooldown_active now h
        then hop_resched W_coop_offer 0 (h\<lparr>coop_st := COOP_OFFERED\<rparr>) else h)
   \<and> (let g = channel_hop_ep_on_tx_success_isr cfg now h; armed = (last_tx_was_offer h \<and> coop_st h = COOP_OFFERED) in
        coop_st g = (if armed then COOP_ARMED else coop_st h) \<and> \<not> last_tx_was_offer g
      \<and> hop_wq g W_coop_commit = (if armed then Some (of_nat (c_coop_hop_in_ms cfg)) else hop_wq h W_coop_commit))
   \<and> (let g = channel_hop_ep_on_tx_fail_isr cfg now h; dropped = (last_tx_was_offer h \<and> coop_st h = COOP_OFFERED) in
        coop_st g = (if dropped then COOP_IDLE else coop_st h) \<and> \<not> last_tx_was_offer g
      \<and> (dropped \<longrightarrow> hop_wq g = hop_wq h))
   \<and> (let g = hopm (coop_hop_offer_work_fn cfg now cyc addr l); (target, h1) = coop_hop_pick_target cfg now cyc (t_channel (tr l)) (hopm l);
          l1 = l\<lparr>hopm := h1\<lparr>coop_target := target, coop_seq := coop_seq (hopm l) + 1, last_tx_was_offer := True\<rparr>\<rparr>;
          r = fst (send_pkt cfg now addr (Hop_Offer (of_nat target) (of_nat (c_coop_hop_in_ms cfg)) (coop_seq (hopm l) + 1)) l1) in
        if \<not> link_up (hopm l) \<or> \<not> hop_active (hopm l) then coop_st g = COOP_IDLE
        else if coop_st (hopm l) \<noteq> COOP_OFFERED then g = hopm l
        else if target = channel_invalid \<or> target = t_channel (tr l) then coop_st g = COOP_IDLE
        else coop_target g = target \<and> coop_seq g = coop_seq (hopm l) + 1 \<and> last_tx_was_offer g = (r = OK)
           \<and> coop_st g = (if r = OK then COOP_OFFERED else COOP_IDLE))
   \<and> (let l' = coop_hop_commit_work_fn cfg now l; target = coop_target (hopm l) in
        if coop_st (hopm l) \<noteq> COOP_ARMED then l' = l
        else coop_st (hopm l') = COOP_IDLE
          \<and> (target = channel_invalid \<or> target = t_channel (tr l) \<longrightarrow> tr l' = tr l \<and> radio l' = radio l)
          \<and> (target \<noteq> channel_invalid \<and> target \<noteq> t_channel (tr l) \<and> fst (esb_transport_set_channel cfg now target l) \<noteq> OK
              \<longrightarrow> hop_wq (hopm l') W_hop_retry = Some (c_hop_retry_delay_ms cfg)))
   \<and> (if link_up (hopm l) \<and> hop_active (hopm l) then handshake_gone (hopm (idle_check_work_fn cfg now addr l))
      else idle_check_work_fn cfg now addr l = l)
   \<and> handshake_gone (channel_hop_ep_on_disconnected h)
   \<and> (\<forall>g \<in> {channel_hop_ep_on_rx cfg now data h, channel_hop_ep_on_request cfg h, channel_hop_ep_note_user_tx cfg rdv now h,
             channel_hop_ep_on_connected cfg rdv now h, channel_hop_ep_note_peer_rssi cfg cur ewma h, hop_retry_work_fn h,
             persist_work_fn cfg rdv h, rssi_persist_work_fn cfg h}. coop_st g = coop_st h)
   \<and> (\<forall>l' \<in> {negotiate_work_fn cfg now cyc addr l, hop_work_fn cfg now cyc l, snd (post_hop_burst_work_fn cfg now cyc addr l),
              post_hop_burst_resume cfg now addr l}. coop_st (hopm l') = coop_st (hopm l))"
proof (intro conjI)
  show "let g = channel_hop_ep_on_tx_success_isr cfg now h; armed = (last_tx_was_offer h \<and> coop_st h = COOP_OFFERED) in
        coop_st g = (if armed then COOP_ARMED else coop_st h) \<and> \<not> last_tx_was_offer g
      \<and> hop_wq g W_coop_commit = (if armed then Some (of_nat (c_coop_hop_in_ms cfg)) else hop_wq h W_coop_commit)"
    using coop_success [of cfg now h] by (simp add: Let_def)
qed (use coop_offer [of l cfg now cyc addr] coop_commit [of l cfg now] coop_idle_check [of l cfg now addr] in
    \<open>simp_all add: coop_degraded coop_failure coop_gone coop_kept coop_negotiate coop_hop coop_burst Let_def split_beta\<close>)

theorem coop_handshake_edges_witness:
  "coop_st (channel_hop_ep_on_link_degraded_isr 7000 idle_hop) = COOP_OFFERED
   \<and> coop_st (channel_hop_ep_on_tx_success_isr default_kconfig 7010
        ((channel_hop_ep_on_link_degraded_isr 7000 idle_hop)\<lparr>last_tx_was_offer := True\<rparr>)) = COOP_ARMED"
proof -
  have d: "channel_hop_ep_on_link_degraded_isr 7000 idle_hop = hop_resched W_coop_offer 0 (idle_hop\<lparr>coop_st := COOP_OFFERED\<rparr>)"
    by (subst coop_handshake_edges [THEN conjunct1]) (simp add: idle_hop_def hop_cooldown_active_def coop_hop_cooldown_active_def until_active_def)
  show ?thesis
    using coop_handshake_edges [THEN conjunct2, THEN conjunct1, of default_kconfig 7010
        "(channel_hop_ep_on_link_degraded_isr 7000 idle_hop)\<lparr>last_tx_was_offer := True\<rparr>"]
    by (simp add: d hop_resched_def Let_def)
qed

end
