(* ===== verification/HidRelay.thy ===== *)
theory HidRelay
  imports EdgeQueue Pairing
begin

text \<open>
  The keyboard and consumer relay \<open>src/src/esb/hid_relay.c\<close>: the report bodies it keeps, the
  reference counts of the modifiers, the queues of snapshots for quiet periods and the handlers
  that send them. ZMK's part (usage pages, \<open>is_mod\<close>, the sizes and the byte layout of the report
  bodies) is a parameter, the record \<open>hid_cfg\<close>.
\<close>

section \<open>State\<close>

record kb_body =
  kb_modifiers :: u8
  kb_keys :: "u8 list"

record hid_cfg =
  hc_nkro :: bool
  hc_nkro_max :: nat
  hc_kb_keys :: nat
  hc_cons_keys :: nat
  hc_cons_width :: nat
  hc_page_key :: u32
  hc_page_consumer :: u32
  hc_left_control :: u32
  hc_is_mod :: "u32 \<Rightarrow> u32 \<Rightarrow> bool"
  hc_kb_image :: "kb_body \<Rightarrow> bytes"
  hc_cons_image :: "u32 list \<Rightarrow> bytes"

datatype hid_work_item = W_hid_retry

record hid =
  kb_report_body :: kb_body
  cons_body :: "u32 list"
  explicit_rc :: "u8 list"
  implicit_rc :: "u8 list"
  explicit_mods :: u8
  implicit_mods :: u8
  kb_pending :: "kb_body list"
  cons_pending :: "u32 list list"
  was_active :: bool
  hid_wq :: "hid_work_item workq"

definition hid_boot :: "hid_cfg \<Rightarrow> hid" where
  "hid_boot hc = \<lparr>kb_report_body = \<lparr>kb_modifiers = 0, kb_keys = replicate (hc_kb_keys hc) 0\<rparr>,
     cons_body = replicate (hc_cons_keys hc) 0, explicit_rc = replicate 8 0, implicit_rc = replicate 8 0,
     explicit_mods = 0, implicit_mods = 0, kb_pending = [], cons_pending = [], was_active = False, hid_wq = no_work\<rparr>"

section \<open>Modifiers\<close>

text \<open>One pass of the loop over the bits; the counts are bytes and wrap.\<close>

definition mod_inc :: "u8 \<Rightarrow> nat \<Rightarrow> u8 list \<times> u8 \<Rightarrow> u8 list \<times> u8" where
  "mod_inc mods b = (\<lambda>(rc, out).
     if bit mods b then (rc[b := rc ! b + 1], if rc ! b = 0 then out OR push_bit b 1 else out) else (rc, out))"

definition mod_dec :: "u8 \<Rightarrow> nat \<Rightarrow> u8 list \<times> u8 \<Rightarrow> u8 list \<times> u8" where
  "mod_dec mods b = (\<lambda>(rc, out).
     if bit mods b \<and> 0 < rc ! b
     then (rc[b := rc ! b - 1], if rc ! b - 1 = 0 then out AND NOT (push_bit b 1) else out) else (rc, out))"

definition mods_inc :: "u8 \<Rightarrow> u8 list \<times> u8 \<Rightarrow> u8 list \<times> u8" where
  "mods_inc mods s = fold (mod_inc mods) [0..<8] s"

definition mods_dec :: "u8 \<Rightarrow> u8 list \<times> u8 \<Rightarrow> u8 list \<times> u8" where
  "mods_dec mods s = fold (mod_dec mods) [0..<8] s"

definition on_explicit :: "(u8 list \<times> u8 \<Rightarrow> u8 list \<times> u8) \<Rightarrow> hid \<Rightarrow> hid" where
  "on_explicit f h = (let (rc, out) = f (explicit_rc h, explicit_mods h) in h\<lparr>explicit_rc := rc, explicit_mods := out\<rparr>)"

definition on_implicit :: "(u8 list \<times> u8 \<Rightarrow> u8 list \<times> u8) \<Rightarrow> hid \<Rightarrow> hid" where
  "on_implicit f h = (let (rc, out) = f (implicit_rc h, implicit_mods h) in h\<lparr>implicit_rc := rc, implicit_mods := out\<rparr>)"

section \<open>Keys\<close>

text \<open>The second loop of a press: the first free slot takes the key.\<close>

primrec put_free :: "'k::zero \<Rightarrow> 'k list \<Rightarrow> 'k list" where
  "put_free x [] = []"
| "put_free x (k # ks) = (if k = 0 then x # ks else k # put_free x ks)"

definition kb_keys_press :: "hid_cfg \<Rightarrow> u32 \<Rightarrow> u8 list \<Rightarrow> u8 list" where
  "kb_keys_press hc keycode ks =
     (if hc_nkro hc then
        (if unat keycode \<le> hc_nkro_max hc
         then ks[unat keycode div 8 := ks ! (unat keycode div 8) OR push_bit (unat keycode mod 8) 1] else ks)
      else if ucast keycode \<in> set ks then ks else put_free (ucast keycode) ks)"

definition kb_keys_release :: "hid_cfg \<Rightarrow> u32 \<Rightarrow> u8 list \<Rightarrow> u8 list" where
  "kb_keys_release hc keycode ks =
     (if hc_nkro hc then
        (if unat keycode \<le> hc_nkro_max hc
         then ks[unat keycode div 8 := ks ! (unat keycode div 8) AND NOT (push_bit (unat keycode mod 8) 1)] else ks)
      else map (\<lambda>k. if k = ucast keycode then 0 else k) ks)"

text \<open>
  The consumer keys are \<open>hc_cons_width\<close> bits wide: the comparisons promote them, the assignment
  truncates the keycode.
\<close>

definition cons_keys_press :: "hid_cfg \<Rightarrow> u32 \<Rightarrow> u32 list \<Rightarrow> u32 list" where
  "cons_keys_press hc keycode ks =
     (if keycode \<in> set ks then ks else put_free (take_bit (hc_cons_width hc) keycode) ks)"

definition cons_keys_release :: "u32 \<Rightarrow> u32 list \<Rightarrow> u32 list" where
  "cons_keys_release keycode ks = map (\<lambda>k. if k = keycode then 0 else k) ks"

section \<open>Sending reports\<close>

definition hid_body_max :: nat where
  "hid_body_max = 30"

text \<open>The zero-initialised packet with the body copied in.\<close>

definition hid_frame :: "u8 \<Rightarrow> bytes \<Rightarrow> bytes" where
  "hid_frame report_type body =
     layout (Hid_Report report_type (take hid_body_max body @ replicate (hid_body_max - length body) 0))"

definition send_hid_pkt :: "kconfig \<Rightarrow> u32 \<Rightarrow> u32 \<Rightarrow> u8 \<Rightarrow> bytes \<Rightarrow> link \<Rightarrow> rc \<times> link" where
  "send_hid_pkt cfg now addr report_type body l =
     esb_transport_send cfg now addr pipe_data (hid_frame report_type body) l"

definition send_kb_body :: "hid_cfg \<Rightarrow> kconfig \<Rightarrow> u32 \<Rightarrow> u32 \<Rightarrow> kb_body \<Rightarrow> link \<Rightarrow> rc \<times> link" where
  "send_kb_body hc cfg now addr body l = send_hid_pkt cfg now addr report_keyboard (hc_kb_image hc body) l"

definition send_cons_body :: "hid_cfg \<Rightarrow> kconfig \<Rightarrow> u32 \<Rightarrow> u32 \<Rightarrow> u32 list \<Rightarrow> link \<Rightarrow> rc \<times> link" where
  "send_cons_body hc cfg now addr body l = send_hid_pkt cfg now addr report_consumer (hc_cons_image hc body) l"

text \<open>
  The drains; \<open>live\<close> is what the other context enqueued while the loop was sending. The flag is
  \<open>EAGAIN\<close>.
\<close>

definition drain_pending_kb ::
  "hid_cfg \<Rightarrow> kconfig \<Rightarrow> u32 \<Rightarrow> u32 \<Rightarrow> kb_body list \<Rightarrow> hid \<times> link \<Rightarrow> bool \<times> hid \<times> link" where
  "drain_pending_kb hc cfg now addr live = (\<lambda>(h, l).
     let (again, q, l') = drain_pending (send_kb_body hc cfg now addr) (c_kb_depth cfg) live (kb_pending h) l
     in (again, h\<lparr>kb_pending := q\<rparr>, l'))"

definition drain_pending_cons ::
  "hid_cfg \<Rightarrow> kconfig \<Rightarrow> u32 \<Rightarrow> u32 \<Rightarrow> u32 list list \<Rightarrow> hid \<times> link \<Rightarrow> bool \<times> hid \<times> link" where
  "drain_pending_cons hc cfg now addr live = (\<lambda>(h, l).
     let (again, q, l') = drain_pending (send_cons_body hc cfg now addr) (c_cons_depth cfg) live (cons_pending h) l
     in (again, h\<lparr>cons_pending := q\<rparr>, l'))"

definition hid_retry_later :: "kconfig \<Rightarrow> hid \<Rightarrow> hid" where
  "hid_retry_later cfg h = h\<lparr>hid_wq := resched W_hid_retry (c_hid_retry_ms cfg) (hid_wq h)\<rparr>"

definition hid_retry_work_fn ::
  "hid_cfg \<Rightarrow> kconfig \<Rightarrow> u32 \<Rightarrow> u32 \<Rightarrow> kb_body list \<Rightarrow> u32 list list \<Rightarrow> hid \<times> link \<Rightarrow> hid \<times> link" where
  "hid_retry_work_fn hc cfg now addr kb_live cons_live = (\<lambda>(h, l).
     if esb_transport_is_quiet now (tr l) then (hid_retry_later cfg h, l)
     else
       let (kb_parked, h1, l1) = drain_pending_kb hc cfg now addr kb_live (h, l);
           (cons_parked, h2, l2) = drain_pending_cons hc cfg now addr cons_live (h1, l1)
       in (if kb_parked \<or> cons_parked then hid_retry_later cfg h2 else h2, l2))"

definition park_kb :: "kconfig \<Rightarrow> kb_body \<Rightarrow> hid \<Rightarrow> hid" where
  "park_kb cfg snap h = hid_retry_later cfg (h\<lparr>kb_pending := enqueue_pending (c_kb_depth cfg) snap (kb_pending h)\<rparr>)"

definition park_cons :: "kconfig \<Rightarrow> u32 list \<Rightarrow> hid \<Rightarrow> hid" where
  "park_cons cfg snap h = hid_retry_later cfg (h\<lparr>cons_pending := enqueue_pending (c_cons_depth cfg) snap (cons_pending h)\<rparr>)"

definition send_keyboard ::
  "hid_cfg \<Rightarrow> kconfig \<Rightarrow> u32 \<Rightarrow> u32 \<Rightarrow> kb_body list \<Rightarrow> hid \<times> link \<Rightarrow> hid \<times> link" where
  "send_keyboard hc cfg now addr live = (\<lambda>(h, l).
     let snap = (kb_report_body h)\<lparr>kb_modifiers := explicit_mods h OR implicit_mods h\<rparr>;
         h0 = h\<lparr>kb_report_body := snap\<rparr>
     in if esb_transport_is_quiet now (tr l) then (park_kb cfg snap h0, l)
        else
          let (again, h1, l1) = drain_pending_kb hc cfg now addr live (h0, l)
          in if again then (park_kb cfg snap h1, l1)
             else let (r, l2) = send_kb_body hc cfg now addr snap l1
                  in (if r = Err EAGAIN then park_kb cfg snap h1 else h1, l2))"

definition send_consumer ::
  "hid_cfg \<Rightarrow> kconfig \<Rightarrow> u32 \<Rightarrow> u32 \<Rightarrow> u32 list list \<Rightarrow> hid \<times> link \<Rightarrow> hid \<times> link" where
  "send_consumer hc cfg now addr live = (\<lambda>(h, l).
     let snap = cons_body h
     in if esb_transport_is_quiet now (tr l) then (park_cons cfg snap h, l)
        else
          let (again, h1, l1) = drain_pending_cons hc cfg now addr live (h, l)
          in if again then (park_cons cfg snap h1, l1)
             else let (r, l2) = send_cons_body hc cfg now addr snap l1
                  in (if r = Err EAGAIN then park_cons cfg snap h1 else h1, l2))"

section \<open>The listeners\<close>

definition hid_resync_cb ::
  "hid_cfg \<Rightarrow> kconfig \<Rightarrow> u32 \<Rightarrow> u32 \<Rightarrow> bool \<Rightarrow> pairing \<Rightarrow> u8 \<Rightarrow> kb_body list \<Rightarrow> u32 list list \<Rightarrow> hid \<times> link \<Rightarrow> hid \<times> link" where
  "hid_resync_cb hc cfg now addr ep p kinds kb_live cons_live s =
     (if \<not> ep \<or> \<not> pairing_is_connected p then s
      else
        let s1 = (if kinds AND kind_bit KIND_KB \<noteq> 0 then send_keyboard hc cfg now addr kb_live s else s)
        in if kinds AND kind_bit KIND_CONS \<noteq> 0 then send_consumer hc cfg now addr cons_live s1 else s1)"

record keycode_event =
  ev_page :: u32
  ev_keycode :: u32
  ev_implicit :: u8
  ev_explicit :: u8
  ev_state :: bool

text \<open>The modifiers that a key event carries along.\<close>

definition track_mods :: "keycode_event \<Rightarrow> hid \<Rightarrow> hid" where
  "track_mods ev h =
     (let f = (if ev_state ev then mods_inc else mods_dec)
      in on_implicit (f (ev_implicit ev)) (on_explicit (f (ev_explicit ev)) h))"

text \<open>The event applied to the report state; \<open>None\<close> is the page of another listener.\<close>

definition track_event :: "hid_cfg \<Rightarrow> keycode_event \<Rightarrow> hid \<Rightarrow> (bool \<times> bool \<times> hid) option" where
  "track_event hc ev h =
     (if ev_page ev = hc_page_key hc then
        (if hc_is_mod hc (ev_page ev) (ev_keycode ev)
         then Some (True, False, on_explicit ((if ev_state ev then mods_inc else mods_dec)
                (push_bit (unat (ev_keycode ev - hc_left_control hc)) 1)) h)
         else Some (True, False, track_mods ev (h\<lparr>kb_report_body := (kb_report_body h)\<lparr>kb_keys :=
                (if ev_state ev then kb_keys_press else kb_keys_release) hc (ev_keycode ev) (kb_keys (kb_report_body h))\<rparr>\<rparr>)))
      else if ev_page ev = hc_page_consumer hc then
        Some (ev_explicit ev \<noteq> 0 \<or> ev_implicit ev \<noteq> 0, True, track_mods ev (h\<lparr>cons_body :=
                (if ev_state ev then cons_keys_press hc else cons_keys_release) (ev_keycode ev) (cons_body h)\<rparr>))
      else None)"

text \<open>The cleanup on the falling edge of the active state.\<close>

definition note_active :: "bool \<Rightarrow> hid \<Rightarrow> hid" where
  "note_active active h =
     (let h1 = (if was_active h \<and> \<not> active
                then h\<lparr>hid_wq := cancel W_hid_retry (hid_wq h), kb_pending := [], cons_pending := []\<rparr> else h)
      in h1\<lparr>was_active := active\<rparr>)"

text \<open>\<open>True\<close> is \<open>ZMK_EV_EVENT_HANDLED\<close>, \<open>False\<close> \<open>ZMK_EV_EVENT_BUBBLE\<close>.\<close>

definition hid_relay_cb ::
  "hid_cfg \<Rightarrow> kconfig \<Rightarrow> u32 \<Rightarrow> u32 \<Rightarrow> bool \<Rightarrow> pairing \<Rightarrow> keycode_event \<Rightarrow> kb_body list \<Rightarrow> u32 list list \<Rightarrow> hid \<times> link
     \<Rightarrow> bool \<times> hid \<times> link" where
  "hid_relay_cb hc cfg now addr ep p ev kb_live cons_live = (\<lambda>(h, l).
     let active = (ep \<and> pairing_is_connected p);
         h1 = note_active active h
     in case track_event hc ev h1 of
          None \<Rightarrow> (False, h1, l)
        | Some (want_kb, want_cons, h2) \<Rightarrow>
            let s1 = (if active \<and> want_kb then send_keyboard hc cfg now addr kb_live (h2, l) else (h2, l));
                s2 = (if active \<and> want_cons then send_consumer hc cfg now addr cons_live s1 else s1)
            in (active, s2))"

text \<open>\<open>hid_relay_init\<close>; \<open>cb\<close> identifies the callback in the transport's table.\<close>

definition hid_relay_init :: "nat \<Rightarrow> hid \<times> link \<Rightarrow> hid \<times> link" where
  "hid_relay_init cb = (\<lambda>(h, l).
     (h\<lparr>hid_wq := no_work\<rparr>, on_tr (\<lambda>t. snd (esb_transport_register_hid_resync_cb cb t)) l))"

section \<open>The modifiers are those that are held\<close>

text \<open>What the counts stand for: for every bit, how many held keys contribute it.\<close>

definition mods_rep :: "(nat \<Rightarrow> nat) \<Rightarrow> u8 list \<times> u8 \<Rightarrow> bool" where
  "mods_rep held = (\<lambda>(rc, out). length rc = 8 \<and> (\<forall>b < 8. unat (rc ! b) = held b \<and> (bit out b \<longleftrightarrow> 0 < held b)))"

definition hold :: "u8 \<Rightarrow> (nat \<Rightarrow> nat) \<Rightarrow> nat \<Rightarrow> nat" where
  "hold mods held b = (if bit mods b then held b + 1 else held b)"

definition let_go :: "u8 \<Rightarrow> (nat \<Rightarrow> nat) \<Rightarrow> nat \<Rightarrow> nat" where
  "let_go mods held b = (if bit mods b then held b - 1 else held b)"

lemma mod_inc_rep:
  assumes "mods_rep held s" "held b < 255" "b < 8"
  shows "mods_rep (if bit mods b then held(b := held b + 1) else held) (mod_inc mods b s)"
proof -
  obtain rc out where s: "s = (rc, out)" by (cases s)
  have r: "length rc = 8" "unat (rc ! b) = held b" using assms s by (simp_all add: mods_rep_def)
  have "unat (rc ! b + 1) = held b + 1" using r assms(2) by (simp add: unat_word_ariths)
  moreover have "rc ! b = 0 \<longleftrightarrow> held b = 0" using r(2) by (metis unat_eq_0)
  ultimately show ?thesis
    using assms r unfolding s
    by (auto simp: mods_rep_def mod_inc_def nth_list_update bit_or_iff bit_exp_iff)
qed

lemma mod_dec_rep:
  assumes "mods_rep held s" "b < 8"
  shows "mods_rep (if bit mods b then held(b := held b - 1) else held) (mod_dec mods b s)"
proof -
  obtain rc out where s: "s = (rc, out)" by (cases s)
  have r: "length rc = 8" "unat (rc ! b) = held b" using assms s by (simp_all add: mods_rep_def)
  have "rc ! b = 0 \<longleftrightarrow> held b = 0" using r(2) by (metis unat_eq_0)
  moreover have "0 < rc ! b \<Longrightarrow> unat (rc ! b - 1) = held b - 1" using r(2) by (simp add: unat_minus_one word_gt_0)
  moreover have "0 < rc ! b \<longleftrightarrow> rc ! b \<noteq> 0" by (simp add: word_gt_0)
  moreover have "0 < rc ! b \<Longrightarrow> rc ! b - 1 = 0 \<longleftrightarrow> held b = 1"
    using calculation r(2) by (metis One_nat_def Suc_pred diff_is_0_eq le_numeral_extra(4) unat_eq_0 neq0_conv)
  ultimately show ?thesis
    using assms r unfolding s
    by (auto simp: mods_rep_def mod_dec_def nth_list_update bit_and_iff bit_not_iff bit_exp_iff)
qed

text \<open>The loop over all eight bits, up to any of them.\<close>

lemma fold_mods:
  assumes step: "\<And>b held s. mods_rep held s \<Longrightarrow> held b = held0 b \<Longrightarrow> b < 8
      \<Longrightarrow> mods_rep (if bit mods b then held(b := g (held b)) else held) (f b s)"
  shows "mods_rep held0 s \<Longrightarrow> n \<le> 8
    \<Longrightarrow> mods_rep (\<lambda>b. if b < n \<and> bit mods b then g (held0 b) else held0 b) (fold f [0..<n] s)"
proof (induction n)
  case (Suc n)
  let ?h = "\<lambda>b. if b < n \<and> bit mods b then g (held0 b) else held0 b"
  have "mods_rep (if bit mods n then ?h(n := g (?h n)) else ?h) (f n (fold f [0..<n] s))"
    by (rule step) (use Suc in simp_all)
  moreover have "(if bit mods n then ?h(n := g (?h n)) else ?h) =
      (\<lambda>b. if b < Suc n \<and> bit mods b then g (held0 b) else held0 b)"
    by (auto simp: less_Suc_eq)
  ultimately show ?case by simp
qed simp

lemma mods_inc_rep:
  assumes "mods_rep held s" "\<forall>b. held b < 255"
  shows "mods_rep (hold mods held) (mods_inc mods s)"
proof -
  have "mods_rep (\<lambda>b. if b < 8 \<and> bit mods b then held b + 1 else held b) (mods_inc mods s)"
    unfolding mods_inc_def by (rule fold_mods [OF _ assms(1), of mods "\<lambda>n. n + 1"]) (use assms(2) mod_inc_rep in simp_all)
  moreover have "hold mods held b = (if b < 8 \<and> bit mods b then held b + 1 else held b)" if "b < 8" for b
    using that by (simp add: hold_def)
  ultimately show ?thesis by (auto simp: mods_rep_def)
qed

lemma mods_dec_rep:
  assumes "mods_rep held s"
  shows "mods_rep (let_go mods held) (mods_dec mods s)"
proof -
  have "mods_rep (\<lambda>b. if b < 8 \<and> bit mods b then held b - 1 else held b) (mods_dec mods s)"
    unfolding mods_dec_def by (rule fold_mods [OF _ assms(1), of mods "\<lambda>n. n - 1"]) (use mod_dec_rep in simp_all)
  moreover have "let_go mods held b = (if b < 8 \<and> bit mods b then held b - 1 else held b)" if "b < 8" for b
    using that by (simp add: let_go_def)
  ultimately show ?thesis by (auto simp: mods_rep_def)
qed

text \<open>The specification: what an event contributes, and what is held after a run of events.\<close>

definition event_mods :: "hid_cfg \<Rightarrow> keycode_event \<Rightarrow> u8 \<times> u8" where
  "event_mods hc ev =
     (if ev_page ev = hc_page_key hc \<and> hc_is_mod hc (ev_page ev) (ev_keycode ev)
      then (push_bit (unat (ev_keycode ev - hc_left_control hc)) 1, 0)
      else if ev_page ev = hc_page_key hc \<or> ev_page ev = hc_page_consumer hc then (ev_explicit ev, ev_implicit ev)
      else (0, 0))"

definition held_step :: "hid_cfg \<Rightarrow> keycode_event \<Rightarrow> (nat \<Rightarrow> nat) \<times> (nat \<Rightarrow> nat) \<Rightarrow> (nat \<Rightarrow> nat) \<times> (nat \<Rightarrow> nat)" where
  "held_step hc ev = (\<lambda>(he, hi). let g = (if ev_state ev then hold else let_go)
     in (g (fst (event_mods hc ev)) he, g (snd (event_mods hc ev)) hi))"

definition held_after :: "hid_cfg \<Rightarrow> keycode_event list \<Rightarrow> (nat \<Rightarrow> nat) \<times> (nat \<Rightarrow> nat)" where
  "held_after hc evs = fold (held_step hc) evs (\<lambda>_. 0, \<lambda>_. 0)"

definition track :: "hid_cfg \<Rightarrow> keycode_event \<Rightarrow> hid \<Rightarrow> hid" where
  "track hc ev h = (case track_event hc ev h of None \<Rightarrow> h | Some (_, _, h') \<Rightarrow> h')"

definition tracks :: "hid \<Rightarrow> (nat \<Rightarrow> nat) \<times> (nat \<Rightarrow> nat) \<Rightarrow> bool" where
  "tracks h = (\<lambda>(he, hi). mods_rep he (explicit_rc h, explicit_mods h) \<and> mods_rep hi (implicit_rc h, implicit_mods h))"

lemma hold_none [simp]: "hold 0 held = held" "let_go 0 held = held"
  by (simp_all add: hold_def let_go_def fun_eq_iff)

lemma tracks_step:
  assumes "tracks h held" "\<forall>b. fst held b < 255 \<and> snd held b < 255"
  shows "tracks (track hc ev h) (held_step hc ev held)"
proof -
  obtain he hi where held: "held = (he, hi)" by (cases held)
  have r: "mods_rep he (explicit_rc h, explicit_mods h)" "mods_rep hi (implicit_rc h, implicit_mods h)"
    "\<forall>b. he b < 255" "\<forall>b. hi b < 255"
    using assms by (simp_all add: tracks_def held)
  have "mods_rep ((if ev_state ev then hold else let_go) m he) ((if ev_state ev then mods_inc else mods_dec) m (explicit_rc h, explicit_mods h))"
    "mods_rep ((if ev_state ev then hold else let_go) m hi) ((if ev_state ev then mods_inc else mods_dec) m (implicit_rc h, implicit_mods h))" for m
    using r by (simp_all add: mods_inc_rep mods_dec_rep)
  then show ?thesis
    using r(1,2)
    by (auto simp: tracks_def held held_step_def event_mods_def track_def track_event_def track_mods_def on_explicit_def
        on_implicit_def split_beta Let_def split del: if_split split: if_split_asm if_splits)
qed

text \<open>
  C9. The modifier bytes are exactly the modifiers of the keys that are held. After any run of key
  and consumer events, in which no modifier is ever held by 255 keys at once, a bit of the
  explicit or implicit modifiers is set if and only if some held key contributes it: releasing one
  of two keys with the same implicit modifier does not take it away from the other.
\<close>

theorem modifiers_are_held:
  fixes evs :: "keycode_event list" and hc :: hid_cfg
  assumes "\<forall>n < length evs. \<forall>b. fst (held_after hc (take n evs)) b < 255 \<and> snd (held_after hc (take n evs)) b < 255"
  shows "let h = fold (track hc) evs (hid_boot hc); (he, hi) = held_after hc evs
    in \<forall>b < 8. (bit (explicit_mods h) b \<longleftrightarrow> 0 < he b) \<and> (bit (implicit_mods h) b \<longleftrightarrow> 0 < hi b)"
proof -
  have "tracks (fold (track hc) evs (hid_boot hc)) (held_after hc evs)"
    using assms
  proof (induction evs rule: rev_induct)
    case Nil
    show ?case by (simp add: tracks_def held_after_def hid_boot_def mods_rep_def)
  next
    case (snoc ev evs)
    have "\<forall>n < length evs. \<forall>b. fst (held_after hc (take n evs)) b < 255 \<and> snd (held_after hc (take n evs)) b < 255"
    proof (intro allI impI)
      fix n b assume "n < length evs"
      with snoc.prems [rule_format, of n b] show "fst (held_after hc (take n evs)) b < 255 \<and> snd (held_after hc (take n evs)) b < 255"
        by simp
    qed
    then have "tracks (fold (track hc) evs (hid_boot hc)) (held_after hc evs)" by (rule snoc.IH)
    moreover have "\<forall>b. fst (held_after hc evs) b < 255 \<and> snd (held_after hc evs) b < 255"
      using snoc.prems [rule_format, of "length evs"] by simp
    ultimately show ?case using tracks_step by (simp add: held_after_def)
  qed
  then show ?thesis by (simp add: tracks_def mods_rep_def split_beta Let_def)
qed

definition demo_hid_cfg :: hid_cfg where
  "demo_hid_cfg = \<lparr>hc_nkro = False, hc_nkro_max = 0, hc_kb_keys = 6, hc_cons_keys = 6, hc_cons_width = 8,
     hc_page_key = 7, hc_page_consumer = 12, hc_left_control = 0xE0,
     hc_is_mod = (\<lambda>page code. page = 7 \<and> 0xE0 \<le> code \<and> code \<le> 0xE7),
     hc_kb_image = (\<lambda>b. kb_modifiers b # 0 # kb_keys b), hc_cons_image = map ucast\<rparr>"

lemma held_bound: "fst (held_after hc evs) b \<le> length evs \<and> snd (held_after hc evs) b \<le> length evs"
proof (induction evs rule: rev_induct)
  case (snoc ev evs)
  have "hold m f b \<le> Suc (f b)" "let_go m f b \<le> f b" for m f
    by (simp_all add: hold_def let_go_def)
  then have "fst (held_step hc ev s) b \<le> Suc (fst s b) \<and> snd (held_step hc ev s) b \<le> Suc (snd s b)" for s
    by (cases s) (auto simp: held_step_def Let_def le_SucI)
  from this [of "held_after hc evs"] snoc show ?case by (simp add: held_after_def)
qed (simp add: held_after_def)

theorem modifiers_are_held_witness:
  "let key = (\<lambda>code down. \<lparr>ev_page = 7, ev_keycode = code, ev_implicit = 2, ev_explicit = 0, ev_state = down\<rparr>)
   in bit (implicit_mods (fold (track demo_hid_cfg) [key 4 True, key 5 True, key 4 False] (hid_boot demo_hid_cfg))) 1"
proof -
  define key where "key code down = \<lparr>ev_page = 7, ev_keycode = code, ev_implicit = 2, ev_explicit = 0, ev_state = down\<rparr>"
    for code down
  let ?evs = "[key 4 True, key 5 True, key 4 False]"
  have "fst (held_after demo_hid_cfg (take n ?evs)) b < 255 \<and> snd (held_after demo_hid_cfg (take n ?evs)) b < 255" for n b
    using held_bound [of demo_hid_cfg "take n ?evs" b] by auto
  moreover have "snd (held_after demo_hid_cfg ?evs) 1 = 1"
    by (simp add: held_after_def held_step_def event_mods_def key_def demo_hid_cfg_def hold_def let_go_def bit_exp_iff
        flip: bit_numeral_iff)
  ultimately show ?thesis
    using modifiers_are_held [of ?evs demo_hid_cfg] by (simp add: Let_def key_def split_beta)
qed

section \<open>Keys go down and up\<close>

lemma put_free_release:
  fixes x :: "'k::zero"
  shows "x \<noteq> 0 \<Longrightarrow> x \<notin> set ks \<Longrightarrow> map (\<lambda>k. if k = x then 0 else k) (put_free x ks) = ks"
  by (induction ks) (auto intro!: map_idI)

lemma put_free_member: "0 \<in> set ks \<Longrightarrow> x \<in> set (put_free x ks)"
  by (induction ks) auto

lemma length_put_free [simp]: "length (put_free x ks) = length ks"
  by (induction ks) auto

text \<open>The key as the report shows it.\<close>

definition key_down :: "hid_cfg \<Rightarrow> u32 \<Rightarrow> u8 list \<Rightarrow> bool" where
  "key_down hc keycode ks =
     (if hc_nkro hc then bit (ks ! (unat keycode div 8)) (unat keycode mod 8) else ucast keycode \<in> set ks)"

lemma bit_set_clear:
  fixes w :: u8
  assumes "n < 8" "\<not> bit w n"
  shows "(w OR push_bit n 1) AND NOT (push_bit n 1) = w" "bit (w OR push_bit n 1) n"
proof -
  show "(w OR push_bit n 1) AND NOT (push_bit n 1) = w"
    by (rule bit_eqI) (use assms in \<open>auto simp: bit_or_iff bit_and_iff bit_not_iff bit_exp_iff\<close>)
  show "bit (w OR push_bit n 1) n" using assms(1) by (simp add: bit_or_iff bit_exp_iff)
qed

text \<open>
  A key that is pressed and released leaves the report as it was. In both report formats a
  key that is not down and fits in the report is shown after the press, and the release restores
  every byte of the report.
\<close>

lemma key_press_release:
  assumes "\<not> key_down hc keycode ks"
    and "hc_nkro hc \<Longrightarrow> unat keycode \<le> hc_nkro_max hc \<and> unat keycode div 8 < length ks"
    and "\<not> hc_nkro hc \<Longrightarrow> (ucast keycode :: u8) \<noteq> 0 \<and> 0 \<in> set ks"
  shows "key_down hc keycode (kb_keys_press hc keycode ks)
    \<and> kb_keys_release hc keycode (kb_keys_press hc keycode ks) = ks
    \<and> length (kb_keys_press hc keycode ks) = length ks"
proof (cases "hc_nkro hc")
  case True
  then have k: "unat keycode \<le> hc_nkro_max hc" "unat keycode div 8 < length ks" using assms(2) by simp_all
  have "\<not> bit (ks ! (unat keycode div 8)) (unat keycode mod 8)" using assms(1) True by (simp add: key_down_def)
  from bit_set_clear [OF _ this] k True show ?thesis
    by (simp add: key_down_def kb_keys_press_def kb_keys_release_def)
next
  case False
  with assms show ?thesis
    by (simp add: key_down_def kb_keys_press_def kb_keys_release_def put_free_release put_free_member)
qed

text \<open>
  With one-byte consumer keys a usage above 255 is stored truncated, and the release, which
  compares the whole usage, never finds it: the key stays down.
\<close>

lemma wide_consumer_key_sticks:
  assumes "hc_cons_width hc = 8" "0x100 \<le> keycode" "0 \<in> set ks" "keycode \<notin> set ks"
    "\<forall>k \<in> set ks. k < 0x100"
  shows "cons_keys_release keycode (cons_keys_press hc keycode ks) = put_free (take_bit 8 keycode) ks"
proof -
  have "\<forall>k \<in> set (put_free (take_bit 8 keycode) ks). k < 0x100"
  proof -
    have "take_bit 8 keycode < 0x100" by (simp add: take_bit_eq_mod word_mod_less_divisor)
    then show ?thesis using assms(5) by (induction ks) auto
  qed
  then have "keycode \<notin> set (put_free (take_bit 8 keycode) ks)" using assms(2) by fastforce
  then show ?thesis using assms(1,4) by (auto simp: cons_keys_release_def cons_keys_press_def intro: map_idI)
qed

end
