(* ===== verification/HidDelivery.thy ===== *)
theory HidDelivery
  imports HidRelay HopTrans
begin

text \<open>
  The transport as the sender that the edge queues rely on, and what follows for the reports of
  \<open>hid_relay.c\<close>: no snapshot is lost or overtaken between a key event and the radio's queue.
\<close>

section \<open>The transport as a frame sender\<close>

definition tx_frames :: "link \<Rightarrow> bytes list" where
  "tx_frames l = map pl_data (tx_queue (radio l))"

definition link_ready :: "kconfig \<Rightarrow> link \<Rightarrow> bool" where
  "link_ready cfg l \<longleftrightarrow> kconfig_ok cfg \<and> link_wf cfg l \<and> esb_initialized (radio l)"

text \<open>A frame of a HID report, and one that is not a pointer report.\<close>

definition is_hid_frame :: "bytes \<Rightarrow> bool" where
  "is_hid_frame data \<longleftrightarrow> length data = 32 \<and> data ! 0 = pkt_hid_report"

definition plain_hid :: "bytes \<Rightarrow> bool" where
  "plain_hid data \<longleftrightarrow> is_hid_frame data \<and> data ! 1 \<noteq> report_mouse"

lemma plain_hid_frame: "rt \<noteq> report_mouse \<Longrightarrow> plain_hid (hid_frame rt body)"
  by (simp add: plain_hid_def is_hid_frame_def hid_frame_def hid_body_max_def)

lemma plain_hid_out: "plain_hid data \<Longrightarrow> out_frame cfg now data rf = data"
  by (auto simp: plain_hid_def out_frame_def is_mouse_report_def)

lemma hid_refusal:
  assumes "kconfig_ok cfg" "is_hid_frame data"
  shows "send_refusal cfg now data l = (if esb_transport_is_quiet now (tr l) then Some EAGAIN else None)"
  using assms kconfig_okD(1) [OF assms(1)] by (auto simp: send_refusal_def is_hid_frame_def is_shell_def)

lemma ready_send_refused:
  assumes r: "link_ready cfg l" and e: "send_refusal cfg now data l = Some e"
  shows "fst (esb_transport_send cfg now addr pipe data l) = Err e
    \<and> tx_queue (radio (snd (esb_transport_send cfg now addr pipe data l))) = tx_queue (radio l)
    \<and> link_ready cfg (snd (esb_transport_send cfg now addr pipe data l))"
proof -
  have k: "kconfig_ok cfg" "link_wf cfg l" "esb_initialized (radio l)" using r by (simp_all add: link_ready_def)
  let ?r = "esb_transport_send cfg now addr pipe data l"
  have "fst ?r = Err e \<and> same_queue (radio l) (radio (snd ?r))"
    using e by (auto simp: send_refusal_def esb_transport_send_def esb_transport_is_quiet_def Let_def split: if_splits)
  then show ?thesis
    using same_queueD [of "radio l" "radio (snd ?r)"] k link_wf_send [OF k(2)] by (simp add: link_ready_def)
qed

lemma ready_send_accepted:
  assumes r: "link_ready cfg l" and acc: "send_refusal cfg now data l = None" "data \<noteq> []"
  shows "fst (esb_transport_send cfg now addr pipe_data data l) = OK
    \<and> (\<exists>p rf. pl_data p = out_frame cfg now data rf
        \<and> tx_queue (radio (snd (esb_transport_send cfg now addr pipe_data data l)))
            = (if esb_tx_full (radio l) then [] else tx_queue (radio l)) @ [p])
    \<and> link_ready cfg (snd (esb_transport_send cfg now addr pipe_data data l))"
proof -
  have k: "kconfig_ok cfg" "link_wf cfg l" "esb_initialized (radio l)" using r by (simp_all add: link_ready_def)
  from send_admitted [OF k(2,3) acc(1), of addr pipe_data] obtain b where
      b: "esb_transport_send cfg now addr pipe_data data l = transmit cfg now pipe_data data b"
        "length data \<le> c_max_payload cfg" "esb_wf cfg (radio b)" "esb_initialized (radio b)" "\<not> esb_tx_full (radio b)"
        "tx_queue (radio b) = (if esb_tx_full (radio l) then [] else tx_queue (radio l))"
    by blast
  have n: "pipe_data < c_pipe_count cfg" using kconfig_okD(3) [OF k(1)] by auto
  from transmit_law [OF b(3-5) acc(2) b(2) n, of now] obtain s a pid na rf where
      t: "transmit cfg now pipe_data data b = (OK, a\<lparr>radio := s\<rparr>)" "esb_initialized s"
        "tx_queue s = tx_queue (radio b) @ [\<lparr>pl_pipe = pipe_data, pl_data = out_frame cfg now data rf, pl_noack = na, pl_pid = pid, pl_rssi = 0\<rparr>]"
    by blast
  then show ?thesis
    using b(1,6) k link_wf_send [OF k(2), of now addr pipe_data data]
    by (auto simp: link_ready_def intro!: exI [of _ rf] exI [of _ "\<lparr>pl_pipe = pipe_data, pl_data = out_frame cfg now data rf, pl_noack = na, pl_pid = pid, pl_rssi = 0\<rparr>"])
qed

text \<open>
  The laws of the interface for one frame, seen through any view of the packets in the queue that
  the motion patched into a pointer report does not change.
\<close>

lemma hid_frame_laws:
  assumes "link_ready cfg l" "is_hid_frame data" "esb_transport_send cfg now addr pipe_data data l = (r, l')"
    and view: "\<And>p rf. pl_data p = out_frame cfg now data rf \<Longrightarrow> view p = img"
  shows "r = Err EAGAIN \<Longrightarrow> map view (tx_queue (radio l')) = map view (tx_queue (radio l)) \<and> link_ready cfg l'"
    and "r \<noteq> Err EAGAIN \<Longrightarrow> r = OK \<and> link_ready cfg l' \<and> (\<exists>m \<le> length (map view (tx_queue (radio l))).
        map view (tx_queue (radio l')) = drop m (map view (tx_queue (radio l)) @ [img]))"
proof -
  let ?v = "map view (tx_queue (radio l))"
  have k: "kconfig_ok cfg" and d: "data \<noteq> []" using assms(1,2) by (auto simp: link_ready_def is_hid_frame_def)
  note ref = hid_refusal [OF k assms(2), of now l]
  note no = ready_send_refused [OF assms(1), of now data _ addr pipe_data, unfolded assms(3) fst_conv snd_conv]
  note yes = ready_send_accepted [OF assms(1) _ d, of now addr, unfolded assms(3) fst_conv snd_conv]
  show "r = Err EAGAIN \<Longrightarrow> map view (tx_queue (radio l')) = ?v \<and> link_ready cfg l'"
    using ref no yes by (cases "esb_transport_is_quiet now (tr l)") simp_all
  assume "r \<noteq> Err EAGAIN"
  then have "send_refusal cfg now data l = None" using ref no by (cases "esb_transport_is_quiet now (tr l)") auto
  from yes [OF this] obtain p rf where p: "r = OK" "link_ready cfg l'" "pl_data p = out_frame cfg now data rf"
      "tx_queue (radio l') = (if esb_tx_full (radio l) then [] else tx_queue (radio l)) @ [p]"
    by blast
  then have "map view (tx_queue (radio l')) = drop (if esb_tx_full (radio l) then length ?v else 0) (?v @ [img])"
    using view by simp
  with p(1,2) show "r = OK \<and> link_ready cfg l' \<and> (\<exists>m \<le> length ?v. map view (tx_queue (radio l')) = drop m (?v @ [img]))"
    by (intro conjI exI [of _ "if esb_tx_full (radio l) then length ?v else 0"]) simp_all
qed

lemma plain_hid_laws:
  assumes "link_ready cfg l" "rt \<noteq> report_mouse" "send_hid_pkt cfg now addr rt body l = (r, l')"
  shows "r = Err EAGAIN \<Longrightarrow> tx_frames l' = tx_frames l \<and> link_ready cfg l'"
    and "r \<noteq> Err EAGAIN \<Longrightarrow> r = OK \<and> link_ready cfg l'
      \<and> (\<exists>m \<le> length (tx_frames l). tx_frames l' = drop m (tx_frames l @ [hid_frame rt body]))"
proof -
  have p: "plain_hid (hid_frame rt body)" using assms(2) by (rule plain_hid_frame)
  have f: "is_hid_frame (hid_frame rt body)" using p by (simp add: plain_hid_def)
  have v: "pl_data p = hid_frame rt body" if "pl_data p = out_frame cfg now (hid_frame rt body) rf" for p rf
    using that plain_hid_out [OF p] by simp
  note h = hid_frame_laws [OF assms(1) f assms(3) [unfolded send_hid_pkt_def], of pl_data "hid_frame rt body", OF v]
  show "r = Err EAGAIN \<Longrightarrow> tx_frames l' = tx_frames l \<and> link_ready cfg l'"
    "r \<noteq> Err EAGAIN \<Longrightarrow> r = OK \<and> link_ready cfg l'
      \<and> (\<exists>m \<le> length (tx_frames l). tx_frames l' = drop m (tx_frames l @ [hid_frame rt body]))"
    using h by (simp_all add: tx_frames_def)
qed

abbreviation (input) kb_frame :: "hid_cfg \<Rightarrow> kb_body \<Rightarrow> bytes" where
  "kb_frame hc b \<equiv> hid_frame report_keyboard (hc_kb_image hc b)"

abbreviation (input) cons_frame :: "hid_cfg \<Rightarrow> u32 list \<Rightarrow> bytes" where
  "cons_frame hc b \<equiv> hid_frame report_consumer (hc_cons_image hc b)"

lemma hid_frame_sender:
  assumes "rt \<noteq> report_mouse"
  shows "frame_sender (\<lambda>x. send_hid_pkt cfg now addr rt (im x)) tx_frames (\<lambda>x. hid_frame rt (im x)) (link_ready cfg)"
proof unfold_locales
  show "tx_frames k' = tx_frames k \<and> link_ready cfg k'"
    if "link_ready cfg k" "send_hid_pkt cfg now addr rt (im x) k = (Err EAGAIN, k')" for k x k'
    using plain_hid_laws(1) [OF that(1) assms that(2)] by simp
  show "r = OK \<and> link_ready cfg k' \<and> (\<exists>m \<le> length (tx_frames k). tx_frames k' = drop m (tx_frames k @ [hid_frame rt (im x)]))"
    if "link_ready cfg k" "send_hid_pkt cfg now addr rt (im x) k = (r, k')" "r \<noteq> Err EAGAIN" for k x r k'
    by (rule plain_hid_laws(2) [OF that(1) assms that(2,3)])
qed

interpretation kbs: frame_sender "send_kb_body hc cfg now addr" tx_frames "kb_frame hc" "link_ready cfg" for hc cfg now addr
proof -
  have "send_kb_body hc cfg now addr = (\<lambda>b. send_hid_pkt cfg now addr report_keyboard (hc_kb_image hc b))"
    by (simp add: fun_eq_iff send_kb_body_def)
  then show "frame_sender (send_kb_body hc cfg now addr) tx_frames (kb_frame hc) (link_ready cfg)"
    using hid_frame_sender [of report_keyboard cfg now addr "hc_kb_image hc"] by simp
qed

interpretation cs: frame_sender "send_cons_body hc cfg now addr" tx_frames "cons_frame hc" "link_ready cfg" for hc cfg now addr
proof -
  have "send_cons_body hc cfg now addr = (\<lambda>b. send_hid_pkt cfg now addr report_consumer (hc_cons_image hc b))"
    by (simp add: fun_eq_iff send_cons_body_def)
  then show "frame_sender (send_cons_body hc cfg now addr) tx_frames (cons_frame hc) (link_ready cfg)"
    using hid_frame_sender [of report_consumer cfg now addr "hc_cons_image hc"] by simp
qed

section \<open>No edge is lost\<close>

definition kb_snapshot :: "hid \<Rightarrow> kb_body" where
  "kb_snapshot h = (kb_report_body h)\<lparr>kb_modifiers := explicit_mods h OR implicit_mods h\<rparr>"

lemma send_keyboard_eq:
  assumes "\<not> esb_transport_is_quiet now (tr l)"
  shows "send_keyboard hc cfg now addr live (h, l) =
    (let (again, q, l') = drain_then_send (send_kb_body hc cfg now addr) (send_kb_body hc cfg now addr (kb_snapshot h)) (c_kb_depth cfg) live (kb_pending h) (kb_snapshot h) l;
         h' = h\<lparr>kb_report_body := kb_snapshot h, kb_pending := q\<rparr>
     in (if again then hid_retry_later cfg h' else h', l'))"
  using assms
  by (simp add: send_keyboard_def kb_snapshot_def drain_then_send_def drain_pending_kb_def park_kb_def split_beta Let_def)

lemma send_consumer_eq:
  assumes "\<not> esb_transport_is_quiet now (tr l)"
  shows "send_consumer hc cfg now addr live (h, l) =
    (let (again, q, l') = drain_then_send (send_cons_body hc cfg now addr) (send_cons_body hc cfg now addr (cons_body h)) (c_cons_depth cfg) live (cons_pending h) (cons_body h) l;
         h' = h\<lparr>cons_pending := q\<rparr>
     in (if again then hid_retry_later cfg h' else h', l'))"
  using assms
  by (simp add: send_consumer_def drain_then_send_def drain_pending_cons_def park_cons_def split_beta Let_def)

text \<open>
  C7. No keyboard edge is lost or overtaken. As long as the queue of snapshots has a free place, a
  keyboard report appends its snapshot to what is pending; a first part of that has reached the
  radio's queue, in order and with its frames (of which the radio can only have dropped the
  oldest), and the rest is still pending in order, with the retry worker scheduled.
\<close>

theorem keyboard_edges_in_order:
  fixes hc :: hid_cfg
  assumes r: "link_ready cfg l" and room: "length (kb_pending h) < c_kb_depth cfg"
  shows "let (h', l') = send_keyboard hc cfg now addr [] (h, l) in
      link_ready cfg l' \<and> kb_report_body h' = kb_snapshot h
    \<and> (\<exists>sent n. kb_pending h @ [kb_snapshot h] = sent @ kb_pending h'
         \<and> tx_frames l' = drop n (tx_frames l @ map (kb_frame hc) sent)
         \<and> (sent = [] \<longrightarrow> n = 0) \<and> (sent \<noteq> [] \<longrightarrow> n < length (tx_frames l @ map (kb_frame hc) sent)))
    \<and> (kb_pending h' \<noteq> [] \<longrightarrow> hid_wq h' W_hid_retry = Some (c_hid_retry_ms cfg))"
proof (cases "esb_transport_is_quiet now (tr l)")
  case True
  then have "send_keyboard hc cfg now addr [] (h, l) = (park_kb cfg (kb_snapshot h) (h\<lparr>kb_report_body := kb_snapshot h\<rparr>), l)"
    by (simp add: send_keyboard_def kb_snapshot_def Let_def)
  with r room show ?thesis
    by (auto simp: park_kb_def hid_retry_later_def enqueue_pending_def intro: exI [of _ "[]"])
next
  case False
  obtain again q l' where d: "drain_then_send (send_kb_body hc cfg now addr) (send_kb_body hc cfg now addr (kb_snapshot h)) (c_kb_depth cfg) [] (kb_pending h) (kb_snapshot h) l
      = (again, q, l')"
    by (metis prod_cases3)
  from kbs.drain_then_send_self [OF r d room] obtain sent n where o: "link_ready cfg l'"
      "kb_pending h @ [kb_snapshot h] = sent @ q" "tx_frames l' = drop n (tx_frames l @ map (kb_frame hc) sent)"
      "sent = [] \<longrightarrow> n = 0" "sent \<noteq> [] \<longrightarrow> n < length (tx_frames l @ map (kb_frame hc) sent)" "again \<longleftrightarrow> q \<noteq> []"
    by blast
  let ?h = "h\<lparr>kb_report_body := kb_snapshot h, kb_pending := q\<rparr>"
  have e: "send_keyboard hc cfg now addr [] (h, l) = (if again then hid_retry_later cfg ?h else ?h, l')"
    by (simp only: send_keyboard_eq [OF False] d Let_def prod.case)
  show ?thesis
    unfolding e Let_def prod.case using o
    by (intro conjI exI [of _ sent] exI [of _ n]) (simp_all add: hid_retry_later_def)
qed

theorem keyboard_edges_in_order_witness:
  "link_ready default_kconfig (snd (send_keyboard demo_hid_cfg default_kconfig 700 0x20001000 [] (hid_boot demo_hid_cfg, up_link)))"
proof -
  have "link_ready default_kconfig up_link" by (simp add: link_ready_def up_link_wf)
  from keyboard_edges_in_order [OF this, of "hid_boot demo_hid_cfg" demo_hid_cfg 700 "0x20001000"] show ?thesis
    by (simp add: hid_boot_def split_beta)
qed

section \<open>Well-formedness\<close>

definition hid_wf :: "hid_cfg \<Rightarrow> kconfig \<Rightarrow> hid \<Rightarrow> bool" where
  "hid_wf hc cfg h \<longleftrightarrow> length (kb_keys (kb_report_body h)) = hc_kb_keys hc \<and> length (cons_body h) = hc_cons_keys hc
     \<and> length (explicit_rc h) = 8 \<and> length (implicit_rc h) = 8
     \<and> length (kb_pending h) \<le> c_kb_depth cfg \<and> length (cons_pending h) \<le> c_cons_depth cfg"

definition hid_link_wf :: "hid_cfg \<Rightarrow> kconfig \<Rightarrow> hid \<times> link \<Rightarrow> bool" where
  "hid_link_wf hc cfg s \<longleftrightarrow> hid_wf hc cfg (fst s) \<and> link_wf cfg (snd s)"

lemma hid_boot_wf: "hid_wf hc cfg (hid_boot hc)"
  by (simp add: hid_wf_def hid_boot_def)

lemma mods_lengths [simp]: "length (fst (mods_inc m s)) = length (fst s)" "length (fst (mods_dec m s)) = length (fst s)"
proof -
  have i: "length (fst (fold (mod_inc m) bs s)) = length (fst s)" for bs
    by (induction bs arbitrary: s) (auto simp: mod_inc_def split_beta)
  have d: "length (fst (fold (mod_dec m) bs s)) = length (fst s)" for bs
    by (induction bs arbitrary: s) (auto simp: mod_dec_def split_beta)
  show "length (fst (mods_inc m s)) = length (fst s)" "length (fst (mods_dec m s)) = length (fst s)"
    using i d by (simp_all add: mods_inc_def mods_dec_def)
qed

lemma key_lengths [simp]:
  "length (kb_keys_press hc k ks) = length ks" "length (kb_keys_release hc k ks) = length ks"
  "length (cons_keys_press hc k cs) = length cs" "length (cons_keys_release k cs) = length cs"
  by (simp_all add: kb_keys_press_def kb_keys_release_def cons_keys_press_def cons_keys_release_def)

lemma hid_wf_on_mods:
  "hid_wf hc cfg h \<Longrightarrow> (\<And>s. length (fst (f s)) = length (fst s)) \<Longrightarrow> hid_wf hc cfg (on_explicit f h)"
  "hid_wf hc cfg h \<Longrightarrow> (\<And>s. length (fst (f s)) = length (fst s)) \<Longrightarrow> hid_wf hc cfg (on_implicit f h)"
  by (simp_all add: hid_wf_def on_explicit_def on_implicit_def split_beta Let_def)

lemma hid_wf_track_mods: "hid_wf hc cfg h \<Longrightarrow> hid_wf hc cfg (track_mods ev h)"
  by (auto simp: track_mods_def intro!: hid_wf_on_mods)

lemma hid_wf_track: "hid_wf hc cfg h \<Longrightarrow> track_event hc ev h = Some (a, b, h') \<Longrightarrow> hid_wf hc cfg h'"
  by (auto simp: track_event_def hid_wf_def [of _ _ "_\<lparr>kb_report_body := _\<rparr>"] hid_wf_def [of _ _ "_\<lparr>cons_body := _\<rparr>"]
      intro!: hid_wf_track_mods hid_wf_on_mods split: if_splits) (simp_all add: hid_wf_def)

lemma hid_wf_active: "hid_wf hc cfg h \<Longrightarrow> hid_wf hc cfg (note_active b h)"
  by (simp add: note_active_def hid_wf_def Let_def)

lemma hid_wf_retry [simp]: "hid_wf hc cfg (hid_retry_later cfg h) = hid_wf hc cfg h"
  by (simp add: hid_retry_later_def hid_wf_def)

lemma hid_wf_park:
  assumes "kconfig_ok cfg" "hid_wf hc cfg h"
  shows "hid_wf hc cfg (park_kb cfg b h)" "hid_wf hc cfg (park_cons cfg c h)"
proof -
  have "0 < c_kb_depth cfg" "0 < c_cons_depth cfg" using kconfig_depths [OF assms(1)] by simp_all
  with assms(2) show "hid_wf hc cfg (park_kb cfg b h)" "hid_wf hc cfg (park_cons cfg c h)"
    by (simp_all add: park_kb_def park_cons_def) (simp_all add: hid_wf_def)
qed

lemma link_wf_send_hid: "link_wf cfg l \<Longrightarrow> link_wf cfg (snd (send_kb_body hc cfg now addr b l))"
  "link_wf cfg l \<Longrightarrow> link_wf cfg (snd (send_cons_body hc cfg now addr c l))"
  by (simp_all add: send_kb_body_def send_cons_body_def send_hid_pkt_def link_wf_send)

lemma hid_drain_wf:
  assumes "hid_link_wf hc cfg s" "length kbl \<le> c_kb_depth cfg" "length consl \<le> c_cons_depth cfg"
  shows "hid_link_wf hc cfg (snd (drain_pending_kb hc cfg now addr kbl s))"
    "hid_link_wf hc cfg (snd (drain_pending_cons hc cfg now addr consl s))"
  using assms drain_pending_keeps [of "link_wf cfg" "send_kb_body hc cfg now addr" "snd s" "c_kb_depth cfg" kbl "kb_pending (fst s)", OF link_wf_send_hid(1)]
    drain_pending_keeps [of "link_wf cfg" "send_cons_body hc cfg now addr" "snd s" "c_cons_depth cfg" consl "cons_pending (fst s)", OF link_wf_send_hid(2)]
  by (cases s; simp add: drain_pending_kb_def drain_pending_cons_def hid_link_wf_def hid_wf_def split_beta drain_bounded)+

lemma hid_send_wf:
  assumes k: "kconfig_ok cfg" and s: "hid_link_wf hc cfg s"
    and l: "length kbl \<le> c_kb_depth cfg" "length consl \<le> c_cons_depth cfg"
  shows "hid_link_wf hc cfg (send_keyboard hc cfg now addr kbl s)" "hid_link_wf hc cfg (send_consumer hc cfg now addr consl s)"
proof -
  obtain h w where hl: "s = (h, w)" by (cases s)
  let ?h0 = "h\<lparr>kb_report_body := (kb_report_body h)\<lparr>kb_modifiers := explicit_mods h OR implicit_mods h\<rparr>\<rparr>"
  have "hid_link_wf hc cfg (?h0, w)" using s by (simp add: hl hid_link_wf_def hid_wf_def)
  note d = hid_drain_wf(1) [OF this l, of now addr] hid_drain_wf(2) [OF s l, of now addr] this
  show "hid_link_wf hc cfg (send_keyboard hc cfg now addr kbl s)" "hid_link_wf hc cfg (send_consumer hc cfg now addr consl s)"
    using d s hid_wf_park [OF k] link_wf_send_hid
    by (auto simp: hl send_keyboard_def send_consumer_def hid_link_wf_def split_beta Let_def)
qed

lemma hid_ops_wf:
  assumes k: "kconfig_ok cfg" and s: "hid_link_wf hc cfg s"
    and l: "length kbl \<le> c_kb_depth cfg" "length consl \<le> c_cons_depth cfg"
  shows "hid_link_wf hc cfg (hid_retry_work_fn hc cfg now addr kbl consl s)"
    "hid_link_wf hc cfg (hid_resync_cb hc cfg now addr ep p kinds kbl consl s)"
    "hid_link_wf hc cfg (snd (hid_relay_cb hc cfg now addr ep p ev kbl consl s))"
proof -
  obtain h w where hl: "s = (h, w)" by (cases s)
  note d = hid_drain_wf [OF _ l] and t = hid_send_wf [OF k _ l]
  show "hid_link_wf hc cfg (hid_retry_work_fn hc cfg now addr kbl consl s)"
    using s d(2) [OF d(1) [OF s], of now addr now addr] by (auto simp: hl hid_retry_work_fn_def hid_link_wf_def split_beta Let_def)
  show "hid_link_wf hc cfg (hid_resync_cb hc cfg now addr ep p kinds kbl consl s)"
    using s t by (simp add: hid_resync_cb_def Let_def)
  have "hid_link_wf hc cfg (note_active b h, w)" for b using s by (simp add: hl hid_link_wf_def hid_wf_active)
  then show "hid_link_wf hc cfg (snd (hid_relay_cb hc cfg now addr ep p ev kbl consl s))"
    using t hid_wf_track [of hc cfg "note_active (ep \<and> pairing_is_connected p) h" ev]
    by (auto simp: hl hid_relay_cb_def hid_link_wf_def Let_def split: option.split)
qed

end
