(* ===== verification/InputProc.thy ===== *)
theory InputProc
  imports HidDelivery
begin

text \<open>
  The pointer input processor \<open>src/src/esb/input_processor_esb.c\<close>: the accumulator of deltas with
  its staleness anchor, the queue of button snapshots for quiet periods and for back-pressure, and
  the handlers that turn events into mouse reports. The accumulator holds 32-bit integers that wrap.
  Zephyr's event types and codes are a parameter, the record \<open>input_codes\<close>.
\<close>

section \<open>State\<close>

datatype ip_work_item = W_ip_retry

record ip_data =
  ip_motion :: motion
  ip_buttons :: u8
  accum_start_ms :: u32
  pending_buttons :: "u8 list"
  ip_wq :: "ip_work_item workq"

definition ip_boot :: ip_data where
  "ip_boot = \<lparr>ip_motion = zero_motion, ip_buttons = 0, accum_start_ms = 0, pending_buttons = [], ip_wq = no_work\<rparr>"

record input_codes =
  ic_ev_rel :: nat
  ic_ev_key :: nat
  ic_rel_x :: nat
  ic_rel_y :: nat
  ic_wheel :: nat
  ic_hwheel :: nat
  ic_btn_0 :: nat
  ic_btn_4 :: nat

record input_event =
  ie_type :: nat
  ie_code :: nat
  ie_value :: int
  ie_sync :: bool

section \<open>Sending\<close>

text \<open>The zero-initialised packet with the body, its deltas clamped, copied in.\<close>

definition mouse_packet :: "u8 \<Rightarrow> motion \<Rightarrow> bytes" where
  "mouse_packet buttons m =
     put_motion (motion_map2 (\<lambda>t _. sat16 t) m m) (hid_frame report_mouse [buttons])"

definition send_hid_report_raw :: "kconfig \<Rightarrow> u32 \<Rightarrow> u32 \<Rightarrow> u8 \<Rightarrow> motion \<Rightarrow> link \<Rightarrow> rc \<times> link" where
  "send_hid_report_raw cfg now addr buttons m l =
     esb_transport_send cfg now addr pipe_data (mouse_packet buttons m) l"

definition ip_retry_later :: "kconfig \<Rightarrow> ip_data \<Rightarrow> ip_data" where
  "ip_retry_later cfg d = d\<lparr>ip_wq := resched W_ip_retry (c_ip_retry_ms cfg) (ip_wq d)\<rparr>"

definition enqueue_pending_button :: "kconfig \<Rightarrow> ip_data \<Rightarrow> ip_data" where
  "enqueue_pending_button cfg d =
     d\<lparr>pending_buttons := enqueue_pending (c_btn_depth cfg) (ip_buttons d) (pending_buttons d)\<rparr>"

definition send_buttons :: "kconfig \<Rightarrow> u32 \<Rightarrow> u32 \<Rightarrow> u8 \<Rightarrow> link \<Rightarrow> rc \<times> link" where
  "send_buttons cfg now addr b = send_hid_report_raw cfg now addr b zero_motion"

definition drain_pending_buttons ::
  "kconfig \<Rightarrow> u32 \<Rightarrow> u32 \<Rightarrow> u8 list \<Rightarrow> ip_data \<times> link \<Rightarrow> bool \<times> ip_data \<times> link" where
  "drain_pending_buttons cfg now addr live = (\<lambda>(d, l).
     let (again, q, l') = drain_pending (send_buttons cfg now addr) (c_btn_depth cfg) live (pending_buttons d) l
     in (again, d\<lparr>pending_buttons := q\<rparr>, l'))"

text \<open>Snapshot-and-clear of the accumulator, and merging it back after \<open>EAGAIN\<close>.\<close>

definition clear_accum :: "ip_data \<Rightarrow> ip_data" where
  "clear_accum d = d\<lparr>ip_motion := zero_motion, accum_start_ms := 0\<rparr>"

definition merge_accum :: "u32 \<Rightarrow> motion \<Rightarrow> ip_data \<Rightarrow> ip_data" where
  "merge_accum start m d = d\<lparr>ip_motion := motion_map2 (\<lambda>a b. i32 (a + b)) (ip_motion d) m,
     accum_start_ms := (if accum_start_ms d = 0 then start else accum_start_ms d)\<rparr>"

definition must_defer :: "kconfig \<Rightarrow> u32 \<Rightarrow> link \<Rightarrow> bool" where
  "must_defer cfg now l \<longleftrightarrow> esb_transport_is_quiet now (tr l) \<or> esb_transport_pointer_backpressure cfg (tr l)"

definition retry_work_fn :: "kconfig \<Rightarrow> u32 \<Rightarrow> u32 \<Rightarrow> u8 list \<Rightarrow> ip_data \<times> link \<Rightarrow> ip_data \<times> link" where
  "retry_work_fn cfg now addr live = (\<lambda>(d, l).
     if must_defer cfg now l then (ip_retry_later cfg d, l)
     else
       let (again, d1, l1) = drain_pending_buttons cfg now addr live (d, l)
       in if again then (ip_retry_later cfg d1, l1)
          else
            let start = accum_start_ms d1; m = ip_motion d1; d2 = clear_accum d1
            in if start \<noteq> 0 \<and> now - start \<le> c_motion_stale_ms cfg \<and> has_motion m
               then (let (r, l2) = send_hid_report_raw cfg now addr (ip_buttons d1) m l1
                     in (if r = Err EAGAIN then ip_retry_later cfg (merge_accum start m d2) else d2, l2))
               else (d2, l1))"

definition send_mouse_report ::
  "kconfig \<Rightarrow> u32 \<Rightarrow> u32 \<Rightarrow> u8 list \<Rightarrow> bool \<Rightarrow> ip_data \<times> link \<Rightarrow> ip_data \<times> link" where
  "send_mouse_report cfg now addr live button_changed = (\<lambda>(d, l).
     if must_defer cfg now l
     then (if button_changed then ip_retry_later cfg (enqueue_pending_button cfg d) else d, l)
     else
       let (again, d1, l1) = drain_pending_buttons cfg now addr live (d, l)
       in if again
          then (ip_retry_later cfg (if button_changed then enqueue_pending_button cfg d1 else d1), l1)
          else if \<not> button_changed \<and> accum_start_ms d1 \<noteq> 0 \<and> c_motion_stale_ms cfg < now - accum_start_ms d1
            then (clear_accum d1, l1)
          else
            let start = accum_start_ms d1; m = ip_motion d1; d2 = clear_accum d1;
                (r, l2) = send_hid_report_raw cfg now addr (ip_buttons d1) m l1
            in if r = Err EAGAIN
               then (let d3 = merge_accum start m d2
                     in (ip_retry_later cfg (if button_changed then enqueue_pending_button cfg d3 else d3), l2))
               else (d2, l2))"

section \<open>The handlers\<close>

definition esb_ip_resync_cb ::
  "kconfig \<Rightarrow> u32 \<Rightarrow> u32 \<Rightarrow> bool \<Rightarrow> pairing \<Rightarrow> u8 \<Rightarrow> u8 list \<Rightarrow> ip_data \<times> link \<Rightarrow> ip_data \<times> link" where
  "esb_ip_resync_cb cfg now addr ep p kinds live = (\<lambda>(d, l).
     if kinds AND kind_bit KIND_MOUSE = 0 \<or> \<not> ep \<or> \<not> pairing_is_connected p then (d, l)
     else if must_defer cfg now l then (ip_retry_later cfg (enqueue_pending_button cfg d), l)
     else
       let (again, d1, l1) = drain_pending_buttons cfg now addr live (d, l)
       in if again then (ip_retry_later cfg (enqueue_pending_button cfg d1), l1)
          else let (r, l2) = send_buttons cfg now addr (ip_buttons d1) l1
               in (if r = Err EAGAIN then ip_retry_later cfg (enqueue_pending_button cfg d1) else d1, l2))"

text \<open>The event applied to the accumulator and the buttons.\<close>

definition accumulate :: "input_codes \<Rightarrow> u32 \<Rightarrow> input_event \<Rightarrow> ip_data \<Rightarrow> ip_data" where
  "accumulate ic now ev d =
     (let d1 = (if accum_start_ms d = 0 then d\<lparr>accum_start_ms := nz_stamp now\<rparr> else d);
          m = ip_motion d1; v = ie_value ev; c = ie_code ev
      in d1\<lparr>ip_motion :=
           (if c = ic_rel_x ic then m\<lparr>dx := i32 (dx m + v)\<rparr>
            else if c = ic_rel_y ic then m\<lparr>dy := i32 (dy m + v)\<rparr>
            else if c = ic_wheel ic then m\<lparr>scroll_y := i32 (scroll_y m + v)\<rparr>
            else if c = ic_hwheel ic then m\<lparr>scroll_x := i32 (scroll_x m + v)\<rparr> else m)\<rparr>)"

definition press_button :: "input_codes \<Rightarrow> input_event \<Rightarrow> u8 \<Rightarrow> u8" where
  "press_button ic ev b =
     (if ic_btn_0 ic \<le> ie_code ev \<and> ie_code ev \<le> ic_btn_4 ic
      then let bit = push_bit (ie_code ev - ic_btn_0 ic) 1
           in if ie_value ev \<noteq> 0 then b OR bit else b AND NOT bit
      else b)"

text \<open>\<open>True\<close> is \<open>ZMK_INPUT_PROC_STOP\<close>, \<open>False\<close> \<open>ZMK_INPUT_PROC_CONTINUE\<close>.\<close>

definition esb_ip_handle_event ::
  "input_codes \<Rightarrow> kconfig \<Rightarrow> u32 \<Rightarrow> u32 \<Rightarrow> bool \<Rightarrow> pairing \<Rightarrow> u8 list \<Rightarrow> input_event \<Rightarrow> ip_data \<times> link \<Rightarrow> bool \<times> ip_data \<times> link" where
  "esb_ip_handle_event ic cfg now addr ep p live ev = (\<lambda>(d, l).
     if \<not> ep \<or> \<not> pairing_is_connected p then (False, d, l)
     else
       let d1 = (if ie_type ev = ic_ev_rel ic then accumulate ic now ev d
                 else if ie_type ev = ic_ev_key ic then d\<lparr>ip_buttons := press_button ic ev (ip_buttons d)\<rparr> else d);
           button_changed = (ip_buttons d1 \<noteq> ip_buttons d)
       in (True, if ie_sync ev \<or> button_changed
                 then send_mouse_report cfg now addr live button_changed (d1, l) else (d1, l)))"

definition esb_ip_init :: "nat \<Rightarrow> link \<Rightarrow> ip_data \<times> link" where
  "esb_ip_init cb l = (ip_boot, on_tr (\<lambda>t. snd (esb_transport_register_hid_resync_cb cb t)) l)"

section \<open>Button edges in order\<close>

text \<open>The buttons that a queued packet reports; the motion patched into it does not matter.\<close>

definition pkt_buttons :: "payload \<Rightarrow> u8 option" where
  "pkt_buttons p = (if is_mouse_report (pl_data p) then Some (pl_data p ! 2) else None)"

definition tx_buttons :: "link \<Rightarrow> u8 option list" where
  "tx_buttons l = map pkt_buttons (tx_queue (radio l))"

lemma mouse_packet_props:
  "is_hid_frame (mouse_packet b m)" "is_mouse_report (mouse_packet b m)" "mouse_packet b m ! 2 = b"
proof -
  have f: "length (hid_frame report_mouse [b]) = 32" "hid_frame report_mouse [b] ! 0 = pkt_hid_report"
    "hid_frame report_mouse [b] ! 1 = report_mouse" "hid_frame report_mouse [b] ! 2 = b"
    by (simp_all add: hid_frame_def hid_body_max_def)
  have r: "is_mouse_report (hid_frame report_mouse [b])" using f by (simp add: is_mouse_report_def)
  have "length (put_motion n (hid_frame report_mouse [b])) = 32 \<and> take 3 (put_motion n (hid_frame report_mouse [b])) = take 3 (hid_frame report_mouse [b])"
    if "motion_ok n" for n
    using put_motion_law [OF r that] f(1) by simp
  then have p: "length (mouse_packet b m) = 32" "take 3 (mouse_packet b m) = take 3 (hid_frame report_mouse [b])"
    using sat_motion_ok by (simp_all add: mouse_packet_def)
  have "mouse_packet b m ! i = hid_frame report_mouse [b] ! i" if "i < 3" for i
    using that p(2) by (metis nth_take)
  then show "is_hid_frame (mouse_packet b m)" "is_mouse_report (mouse_packet b m)" "mouse_packet b m ! 2 = b"
    using f p(1) by (simp_all add: is_hid_frame_def is_mouse_report_def)
qed

lemma out_frame_buttons:
  assumes "pl_data p = out_frame cfg now (mouse_packet b m) rf"
  shows "pkt_buttons p = Some b"
proof -
  let ?f = "out_frame cfg now (mouse_packet b m) rf"
  have r: "is_mouse_report (mouse_packet b m)" by (rule mouse_packet_props)
  then have "put_motion n (mouse_packet b m) ! 2 = mouse_packet b m ! 2" for n
    by (auto simp: put_motion_def is_mouse_report_def nth_append)
  then show ?thesis
    using assms r out_frame_head(3) [of cfg now "mouse_packet b m" rf] mouse_packet_props(3) [of b m]
    by (simp add: pkt_buttons_def) (simp add: out_frame_def)
qed

lemma mouse_laws:
  assumes "link_ready cfg l" "send_hid_report_raw cfg now addr b m l = (r, l')"
  shows "r = Err EAGAIN \<Longrightarrow> tx_buttons l' = tx_buttons l \<and> link_ready cfg l'"
    and "r \<noteq> Err EAGAIN \<Longrightarrow> r = OK \<and> link_ready cfg l'
      \<and> (\<exists>n \<le> length (tx_buttons l). tx_buttons l' = drop n (tx_buttons l @ [Some b]))"
  using hid_frame_laws [OF assms(1) mouse_packet_props(1) assms(2) [unfolded send_hid_report_raw_def],
      of pkt_buttons "Some b", OF out_frame_buttons]
  by (simp_all add: tx_buttons_def)

interpretation bs: frame_sender "send_buttons cfg now addr" tx_buttons Some "link_ready cfg" for cfg now addr
proof unfold_locales
  show "tx_buttons k' = tx_buttons k \<and> link_ready cfg k'"
    if "link_ready cfg k" "send_buttons cfg now addr x k = (Err EAGAIN, k')" for k x k'
    using mouse_laws(1) [OF that(1) that(2) [unfolded send_buttons_def]] by simp
  show "r = OK \<and> link_ready cfg k' \<and> (\<exists>m \<le> length (tx_buttons k). tx_buttons k' = drop m (tx_buttons k @ [Some x]))"
    if "link_ready cfg k" "send_buttons cfg now addr x k = (r, k')" "r \<noteq> Err EAGAIN" for k x r k'
    by (rule mouse_laws(2) [OF that(1) that(2) [unfolded send_buttons_def] that(3)])
qed

text \<open>The deltas are 32-bit integers.\<close>

definition motion_i32 :: "motion \<Rightarrow> bool" where
  "motion_i32 m \<longleftrightarrow> in_i32 (dx m) \<and> in_i32 (dy m) \<and> in_i32 (scroll_x m) \<and> in_i32 (scroll_y m)"

lemma merge_clear: "motion_i32 (ip_motion d) \<Longrightarrow> merge_accum (accum_start_ms d) (ip_motion d) (clear_accum d) = d"
  by (simp add: merge_accum_def clear_accum_def motion_i32_def motion_map2_def zero_motion_def)

lemma send_mouse_report_eq:
  assumes "\<not> must_defer cfg now l" "motion_i32 (ip_motion d)"
  shows "send_mouse_report cfg now addr live True (d, l) =
      (let (again, q, l') = drain_then_send (send_buttons cfg now addr) (send_hid_report_raw cfg now addr (ip_buttons d) (ip_motion d))
             (c_btn_depth cfg) live (pending_buttons d) (ip_buttons d) l;
           d' = d\<lparr>pending_buttons := q\<rparr>
       in (if again then ip_retry_later cfg d' else clear_accum d', l'))"
proof -
  have "merge_accum (accum_start_ms d) (ip_motion d) (clear_accum (d\<lparr>pending_buttons := q\<rparr>)) = d\<lparr>pending_buttons := q\<rparr>" for q
    using merge_clear [of "d\<lparr>pending_buttons := q\<rparr>"] assms(2) by simp
  then show ?thesis
    using assms(1)
    by (simp add: send_mouse_report_def drain_then_send_def drain_pending_buttons_def enqueue_pending_button_def
        split_beta Let_def)
qed

text \<open>
  C27. No button edge is lost or overtaken, and no motion with it. As long as the queue of snapshots
  has a free place, a change of the buttons appends its snapshot to what is pending; a first part of
  that is in the radio's queue, in order, and the rest is still pending with the retry worker
  scheduled. The accumulated motion has been sent along, or it is still in the accumulator.
\<close>

theorem button_edges_in_order:
  assumes r: "link_ready cfg l" and room: "length (pending_buttons d) < c_btn_depth cfg" and m: "motion_i32 (ip_motion d)"
  shows "let (d', l') = send_mouse_report cfg now addr [] True (d, l) in
      link_ready cfg l'
    \<and> (\<exists>sent n. pending_buttons d @ [ip_buttons d] = sent @ pending_buttons d'
         \<and> tx_buttons l' = drop n (tx_buttons l @ map Some sent)
         \<and> (sent = [] \<longrightarrow> n = 0) \<and> (sent \<noteq> [] \<longrightarrow> n < length (tx_buttons l @ map Some sent)))
    \<and> (if pending_buttons d' = [] then ip_motion d' = zero_motion
       else ip_motion d' = ip_motion d \<and> accum_start_ms d' = accum_start_ms d
          \<and> ip_wq d' W_ip_retry = Some (c_ip_retry_ms cfg))"
proof (cases "must_defer cfg now l")
  case True
  with r room show ?thesis
    by (auto simp: send_mouse_report_def ip_retry_later_def enqueue_pending_button_def enqueue_pending_def
        intro: exI [of _ "[]"])
next
  case False
  let ?fin = "send_hid_report_raw cfg now addr (ip_buttons d) (ip_motion d)"
  obtain again q l' where dr: "drain_then_send (send_buttons cfg now addr) ?fin (c_btn_depth cfg) [] (pending_buttons d)
      (ip_buttons d) l = (again, q, l')"
    by (metis prod_cases3)
  have fa: "tx_buttons k' = tx_buttons k \<and> link_ready cfg k'" if "link_ready cfg k" "?fin k = (Err EAGAIN, k')" for k k'
    using mouse_laws(1) [OF that] by simp
  have fo: "link_ready cfg k' \<and> (\<exists>n \<le> length (tx_buttons k). tx_buttons k' = drop n (tx_buttons k @ [Some (ip_buttons d)]))"
    if "link_ready cfg k" "?fin k = (e, k')" "e \<noteq> Err EAGAIN" for k e k'
    using mouse_laws(2) [OF that] by simp
  have "link_ready cfg l' \<and> (\<exists>sent n. pending_buttons d @ [ip_buttons d] = sent @ q
       \<and> tx_buttons l' = drop n (tx_buttons l @ map Some sent)
       \<and> (sent = [] \<longrightarrow> n = 0) \<and> (sent \<noteq> [] \<longrightarrow> n < length (tx_buttons l @ map Some sent))) \<and> (again \<longleftrightarrow> q \<noteq> [])"
    by (rule bs.drain_then_send_order [OF r dr room]) (use fa fo in blast)+
  then obtain sent n where o: "link_ready cfg l'" "pending_buttons d @ [ip_buttons d] = sent @ q"
      "tx_buttons l' = drop n (tx_buttons l @ map Some sent)" "sent = [] \<longrightarrow> n = 0"
      "sent \<noteq> [] \<longrightarrow> n < length (tx_buttons l @ map Some sent)" "again \<longleftrightarrow> q \<noteq> []"
    by blast
  have e: "send_mouse_report cfg now addr [] True (d, l)
      = (if again then ip_retry_later cfg (d\<lparr>pending_buttons := q\<rparr>) else clear_accum (d\<lparr>pending_buttons := q\<rparr>), l')"
    by (simp only: send_mouse_report_eq [OF False m] dr Let_def prod.case)
  show ?thesis
    unfolding e Let_def prod.case using o
    by (intro conjI exI [of _ sent] exI [of _ n]) (simp_all add: ip_retry_later_def clear_accum_def)
qed

theorem button_edges_in_order_witness:
  "link_ready default_kconfig (snd (send_mouse_report default_kconfig 700 0x20001000 [] True (ip_boot\<lparr>ip_buttons := 1\<rparr>, up_link)))"
proof -
  have "link_ready default_kconfig up_link" by (simp add: link_ready_def up_link_wf)
  from button_edges_in_order [OF this, of "ip_boot\<lparr>ip_buttons := 1\<rparr>" 700 "0x20001000"] show ?thesis
    by (simp add: ip_boot_def motion_i32_def zero_motion_def in_i32_def split_beta)
qed

text \<open>
  The last motion before a pause is only sent by the next event: while the send is deferred nothing
  schedules the retry worker for motion alone, and later the accumulator is dropped as stale.
\<close>

lemma deferred_motion_unscheduled:
  "must_defer cfg now l \<Longrightarrow> send_mouse_report cfg now addr live False (d, l) = (d, l)"
  by (simp add: send_mouse_report_def)

section \<open>Well-formedness\<close>

definition ip_link_wf :: "kconfig \<Rightarrow> ip_data \<times> link \<Rightarrow> bool" where
  "ip_link_wf cfg s \<longleftrightarrow> length (pending_buttons (fst s)) \<le> c_btn_depth cfg \<and> motion_i32 (ip_motion (fst s))
     \<and> link_wf cfg (snd s)"

lemma motion_i32_zero [simp]: "motion_i32 zero_motion"
  by (simp add: motion_i32_def zero_motion_def in_i32_def)

lemma motion_i32_sum [simp]: "motion_i32 (motion_map2 (\<lambda>a b. i32 (a + b)) x y)"
  by (simp add: motion_i32_def motion_map2_def)

lemma link_wf_raw: "link_wf cfg l \<Longrightarrow> link_wf cfg (snd (send_hid_report_raw cfg now addr b m l))"
  by (simp add: send_hid_report_raw_def link_wf_send)

lemma ip_wf_steps [simp]:
  "ip_link_wf cfg (ip_retry_later cfg d, l) = ip_link_wf cfg (d, l)"
  "ip_link_wf cfg (clear_accum d, l) \<longleftrightarrow> length (pending_buttons d) \<le> c_btn_depth cfg \<and> link_wf cfg l"
  "ip_link_wf cfg (merge_accum t m d, l) \<longleftrightarrow> length (pending_buttons d) \<le> c_btn_depth cfg \<and> link_wf cfg l"
  by (simp_all add: ip_link_wf_def ip_retry_later_def clear_accum_def merge_accum_def)

lemma accum_pending [simp]: "pending_buttons (clear_accum d) = pending_buttons d" "pending_buttons (merge_accum t m d) = pending_buttons d"
  by (simp_all add: clear_accum_def merge_accum_def)

lemma ip_wf_enqueue: "kconfig_ok cfg \<Longrightarrow> ip_link_wf cfg (d, l) \<Longrightarrow> ip_link_wf cfg (enqueue_pending_button cfg d, l)"
  using kconfig_depths(3) [of cfg] by (simp add: ip_link_wf_def enqueue_pending_button_def)

lemma ip_wf_drain:
  assumes "ip_link_wf cfg s" "length live \<le> c_btn_depth cfg"
  shows "ip_link_wf cfg (snd (drain_pending_buttons cfg now addr live s))"
proof -
  obtain d l where s: "s = (d, l)" by (cases s)
  have keep: "link_wf cfg (snd (send_buttons cfg now addr b k))" if "link_wf cfg k" for b k
    using that by (simp add: send_buttons_def link_wf_raw)
  have "link_wf cfg (snd (snd (drain_pending (send_buttons cfg now addr) (c_btn_depth cfg) live (pending_buttons d) l)))"
    by (rule drain_pending_keeps [of "link_wf cfg", OF keep]) (use assms(1) in \<open>simp_all add: s ip_link_wf_def\<close>)
  then show ?thesis
    using assms by (simp add: s drain_pending_buttons_def ip_link_wf_def split_beta drain_bounded)
qed

lemma ip_wf_ops:
  assumes k: "kconfig_ok cfg" and s: "ip_link_wf cfg s" and l: "length live \<le> c_btn_depth cfg"
  shows "ip_link_wf cfg (retry_work_fn cfg now addr live s)"
    "ip_link_wf cfg (send_mouse_report cfg now addr live ch s)"
    "ip_link_wf cfg (esb_ip_resync_cb cfg now addr ep p kinds live s)"
proof -
  obtain d w where dl: "s = (d, w)" by (cases s)
  obtain a d1 w1 where dr: "drain_pending_buttons cfg now addr live (d, w) = (a, d1, w1)" by (metis prod_cases3)
  have d1: "ip_link_wf cfg (d1, w1)" using ip_wf_drain [OF s l, of now addr] dr dl by simp
  then have d1': "length (pending_buttons d1) \<le> c_btn_depth cfg" "link_wf cfg w1" by (simp_all add: ip_link_wf_def)
  have e: "ip_link_wf cfg (enqueue_pending_button cfg (merge_accum t m (clear_accum d1)), k)" if "link_wf cfg k" for t m k
    using that d1'(1) by (intro ip_wf_enqueue k) simp
  note parts = s [unfolded dl] d1 d1' ip_wf_enqueue [OF k] link_wf_raw [OF d1'(2)] e
  show "ip_link_wf cfg (retry_work_fn cfg now addr live s)"
    using parts by (simp add: dl retry_work_fn_def dr split_beta Let_def)
  show "ip_link_wf cfg (send_mouse_report cfg now addr live ch s)"
    using parts by (simp add: dl send_mouse_report_def dr split_beta Let_def)
  show "ip_link_wf cfg (esb_ip_resync_cb cfg now addr ep p kinds live s)"
    using parts by (simp add: dl esb_ip_resync_cb_def dr split_beta Let_def send_buttons_def) (simp add: ip_link_wf_def)
qed

end
