(* ===== verification/Senders.thy ===== *)
theory Senders
  imports HidDelivery InputProc
begin

text \<open>
  The relay and the input processor act on the link only by sending. The locale \<open>kept_by_sends\<close>
  states it once: whatever every send keeps of the link is kept by every operation of
  \<open>src/src/esb/hid_relay.c\<close> and \<open>src/src/esb/input_processor_esb.c\<close>.
\<close>

locale kept_by_sends =
  fixes Q :: "link \<Rightarrow> bool" and cfg :: kconfig
  assumes send: "Q l \<Longrightarrow> Q (snd (esb_transport_send cfg now addr pipe data l))"
begin

lemma pkts:
  "Q l \<Longrightarrow> Q (snd (send_kb_body hc cfg now addr b l))" "Q l \<Longrightarrow> Q (snd (send_cons_body hc cfg now addr c l))"
  "Q l \<Longrightarrow> Q (snd (send_hid_report_raw cfg now addr x m l))" "Q l \<Longrightarrow> Q (snd (send_buttons cfg now addr x l))"
  "Q l \<Longrightarrow> Q (snd (send_pkt cfg now addr p l))"
  by (simp_all add: send send_kb_body_def send_cons_body_def send_hid_pkt_def send_hid_report_raw_def send_buttons_def
      send_pkt_def)

lemma drains:
  assumes "Q l"
  shows "Q (snd (snd (drain_pending_kb hc cfg now addr kbl (h, l))))"
    "Q (snd (snd (drain_pending_cons hc cfg now addr consl (h, l))))"
    "Q (snd (snd (drain_pending_buttons cfg now addr live (d, l))))"
  using drain_pending_keeps [of Q "send_kb_body hc cfg now addr", OF pkts(1) assms]
    drain_pending_keeps [of Q "send_cons_body hc cfg now addr", OF pkts(2) assms]
    drain_pending_keeps [of Q "send_buttons cfg now addr", OF pkts(4) assms]
  by (simp_all add: drain_pending_kb_def drain_pending_cons_def drain_pending_buttons_def split_beta)

lemma drains_of:
  assumes "Q (snd s)"
  shows "Q (snd (snd (drain_pending_kb hc cfg now addr kbl s)))" "Q (snd (snd (drain_pending_cons hc cfg now addr consl s)))"
  using assms drains by (cases s; simp)+

lemma reports:
  assumes "Q (snd s)"
  shows "Q (snd (send_keyboard hc cfg now addr kbl s))" "Q (snd (send_consumer hc cfg now addr consl s))"
    "Q (snd (hid_retry_work_fn hc cfg now addr kbl consl s))"
  using assms drains drains_of pkts
  by (cases s; simp add: send_keyboard_def send_consumer_def hid_retry_work_fn_def split_beta Let_def)+

lemma hid:
  assumes "Q (snd s)"
  shows "Q (snd (hid_resync_cb hc cfg now addr ep p kinds kbl consl s))"
    "Q (snd (snd (hid_relay_cb hc cfg now addr ep p ev kbl consl s)))"
  using assms reports by (cases s; simp add: hid_resync_cb_def hid_relay_cb_def Let_def split: option.split)+

lemma ip:
  assumes "Q (snd s)"
  shows "Q (snd (retry_work_fn cfg now addr live s))" "Q (snd (send_mouse_report cfg now addr live ch s))"
    "Q (snd (esb_ip_resync_cb cfg now addr ep p kinds live s))"
    "Q (snd (snd (esb_ip_handle_event ic cfg now addr ep p live ev s)))"
proof -
  obtain d l where s: "s = (d, l)" by (cases s)
  have l: "Q l" using assms by (simp add: s)
  note k = l drains(3) [OF l] pkts(3,4)
  show "Q (snd (send_mouse_report cfg now addr live ch s))" "Q (snd (retry_work_fn cfg now addr live s))"
    "Q (snd (esb_ip_resync_cb cfg now addr ep p kinds live s))"
    using k by (simp_all add: s retry_work_fn_def send_mouse_report_def esb_ip_resync_cb_def split_beta Let_def)
  have "Q (snd (send_mouse_report cfg now addr live c (e, l)))" for c e
    using k by (simp add: send_mouse_report_def split_beta Let_def)
  then show "Q (snd (snd (esb_ip_handle_event ic cfg now addr ep p live ev s)))"
    using l by (simp add: s esb_ip_handle_event_def Let_def)
qed

lemma timers: "Q l \<Longrightarrow> Q (snd (beacon_work_fn cfg now addr (p, l)))" "Q l \<Longrightarrow> Q (snd (verify_work_fn cfg now addr (p, l)))"
  by (auto simp: beacon_work_fn_def verify_work_fn_def send_beacon_def send pkts)

end

end
