(* ===== verification/Endpoint.thy ===== *)
theory Endpoint
  imports InputProc
begin

text \<open>
  The control of the endpoint, \<open>src/src/esb/esb_endpoint.c\<close>: the thread that switches the radio
  between Bluetooth and ESB, the listener and the boot check that command it, the gate on the
  Bluetooth calls, the dispatch of received packets and the shell commands. The devicetree values,
  the Bluetooth profile that stands for ESB and the depth of the message queue are a parameter, the
  record \<open>ep_cfg\<close>; printing is left out.
\<close>

section \<open>State\<close>

datatype ctrl_cmd = ESB_CMD_ACTIVATE | ESB_CMD_DEACTIVATE

record ep_cfg =
  ec_base0 :: bytes
  ec_base1 :: bytes
  ec_pairing_prefix :: u8
  ec_data_prefix :: u8
  ec_channel :: nat
  ec_profile_count :: nat
  ec_msgq_depth :: nat

text \<open>
  Where the control thread waits: for a command, for Bluetooth to go quiet, for the radio to settle.
\<close>

datatype ctrl_phase = CTRL_WAIT | CTRL_QUIESCE | CTRL_SETTLE

record endpoint =
  esb_active :: bool
  ctrl_msgq :: "ctrl_cmd list"
  ctrl_at :: ctrl_phase

definition endpoint_boot :: endpoint where
  "endpoint_boot = \<lparr>esb_active = False, ctrl_msgq = [], ctrl_at = CTRL_WAIT\<rparr>"

text \<open>\<open>k_msgq_put\<close> without waiting: a full queue drops the command.\<close>

definition put_cmd :: "ep_cfg \<Rightarrow> ctrl_cmd \<Rightarrow> endpoint \<Rightarrow> endpoint" where
  "put_cmd ec c e = (if length (ctrl_msgq e) < ec_msgq_depth ec then e\<lparr>ctrl_msgq := ctrl_msgq e @ [c]\<rparr> else e)"

section \<open>Addresses and reception\<close>

definition configure_esb_addresses :: "ep_cfg \<Rightarrow> link \<Rightarrow> link" where
  "configure_esb_addresses ec = on_tr (esb_transport_set_addresses (ec_base0 ec) (ec_base1 ec)
     [ec_pairing_prefix ec, ec_data_prefix ec, 0xC3, 0xC4, 0xC5, 0xC6, 0xC7, 0xC8] (ec_channel ec))"

definition on_transport_evt :: "kconfig \<Rightarrow> u32 \<Rightarrow> u32 \<Rightarrow> bytes \<Rightarrow> pairing \<times> link \<Rightarrow> pairing \<times> link" where
  "on_transport_evt cfg now addr data s =
     (let (p, l) = pairing_on_rx cfg now addr data s in (p, on_bn (esb_bench_on_rx cfg data) l))"

text \<open>The wrappers of the Bluetooth calls: while ESB owns the radio they answer 0 and call nothing.\<close>

definition ble_gate :: "endpoint \<Rightarrow> 'r::zero \<Rightarrow> 'r" where
  "ble_gate e real = (if esb_active e then 0 else real)"

section \<open>The control thread\<close>

text \<open>
  The thread sleeps twice during an activation, so that it runs in pieces.
  \<open>hf\<close>, \<open>tm\<close> and \<open>ppi\<close> are what the oscillator, the timer and the PPI allocation answer. The calls
  into the Bluetooth host around the switch do not touch the state modelled here.
\<close>

definition ctrl_activate :: "ctrl_cmd list \<Rightarrow> endpoint \<times> pairing \<times> link \<Rightarrow> endpoint \<times> pairing \<times> link" where
  "ctrl_activate rest = (\<lambda>(e, p, l). (e\<lparr>ctrl_msgq := rest, ctrl_at := CTRL_QUIESCE\<rparr>, p, l))"

definition ctrl_quiesced ::
  "ep_cfg \<Rightarrow> kconfig \<Rightarrow> rc \<Rightarrow> rc \<Rightarrow> rc \<Rightarrow> endpoint \<times> pairing \<times> link \<Rightarrow> endpoint \<times> pairing \<times> link" where
  "ctrl_quiesced ec cfg hf tm ppi = (\<lambda>(e, p, l).
     (e\<lparr>ctrl_at := CTRL_SETTLE\<rparr>, p, esb_transport_on_slot_start cfg hf tm ppi (configure_esb_addresses ec l)))"

definition ctrl_settled :: "kconfig \<Rightarrow> endpoint \<times> pairing \<times> link \<Rightarrow> endpoint \<times> pairing \<times> link" where
  "ctrl_settled cfg = (\<lambda>(e, p, l). (e\<lparr>esb_active := True, ctrl_at := CTRL_WAIT\<rparr>, pairing_start cfg p, l))"

definition ctrl_deactivate :: "ctrl_cmd list \<Rightarrow> endpoint \<times> pairing \<times> link \<Rightarrow> endpoint \<times> pairing \<times> link" where
  "ctrl_deactivate rest = (\<lambda>(e, p, l).
     let (p', l') = pairing_stop (p, esb_transport_on_slot_stop l)
     in (e\<lparr>ctrl_msgq := rest, esb_active := False\<rparr>, p', on_tr esb_transport_deinit l'))"

text \<open>What the thread does between two of its waits; with an empty queue it goes on waiting.\<close>

definition esb_ctrl_resume ::
  "ep_cfg \<Rightarrow> kconfig \<Rightarrow> rc \<Rightarrow> rc \<Rightarrow> rc \<Rightarrow> endpoint \<times> pairing \<times> link \<Rightarrow> endpoint \<times> pairing \<times> link" where
  "esb_ctrl_resume ec cfg hf tm ppi s = (case ctrl_at (fst s) of
       CTRL_WAIT \<Rightarrow> (case ctrl_msgq (fst s) of
           [] \<Rightarrow> s
         | ESB_CMD_ACTIVATE # cs \<Rightarrow> ctrl_activate cs s
         | ESB_CMD_DEACTIVATE # cs \<Rightarrow> ctrl_deactivate cs s)
     | CTRL_QUIESCE \<Rightarrow> ctrl_quiesced ec cfg hf tm ppi s
     | CTRL_SETTLE \<Rightarrow> ctrl_settled cfg s)"

text \<open>One turn of the thread's loop with nothing else running while it sleeps.\<close>

definition esb_ctrl_thread_fn ::
  "ep_cfg \<Rightarrow> kconfig \<Rightarrow> rc \<Rightarrow> rc \<Rightarrow> rc \<Rightarrow> endpoint \<times> pairing \<times> link \<Rightarrow> endpoint \<times> pairing \<times> link" where
  "esb_ctrl_thread_fn ec cfg hf tm ppi s =
     (let s1 = esb_ctrl_resume ec cfg hf tm ppi s
      in if ctrl_at (fst s1) = CTRL_WAIT then s1
         else esb_ctrl_resume ec cfg hf tm ppi (esb_ctrl_resume ec cfg hf tm ppi s1))"

section \<open>Profile changes\<close>

definition profile_listener_cb :: "ep_cfg \<Rightarrow> nat \<Rightarrow> endpoint \<Rightarrow> endpoint" where
  "profile_listener_cb ec index e =
     (let should_be_active = (index = ec_profile_count ec - 1) in
      if should_be_active \<and> \<not> esb_active e then put_cmd ec ESB_CMD_ACTIVATE e
      else if \<not> should_be_active \<and> esb_active e then put_cmd ec ESB_CMD_DEACTIVATE e
      else e)"

definition boot_profile_check_fn :: "ep_cfg \<Rightarrow> nat \<Rightarrow> endpoint \<Rightarrow> endpoint" where
  "boot_profile_check_fn ec index e =
     (if index = ec_profile_count ec - 1 \<and> \<not> esb_active e then put_cmd ec ESB_CMD_ACTIVATE e else e)"

text \<open>
  \<open>esb_endpoint_init\<close>: \<open>lo\<close>, \<open>hi\<close> the device id, \<open>quars\<close> and \<open>rssis\<close> the records of the hop manager
  in flash.
\<close>

definition esb_endpoint_init ::
  "kconfig \<Rightarrow> u32 \<Rightarrow> u32 \<Rightarrow> u32 \<Rightarrow> bytes list \<Rightarrow> rssi_state option \<Rightarrow> pairing \<times> link \<Rightarrow> pairing \<times> link" where
  "esb_endpoint_init cfg now lo hi quars rssis = (\<lambda>(p, l).
     let l1 = on_tr esb_transport_init l
     in (pairing_init lo hi p, on_hop (channel_hop_ep_init cfg (boot_channel (tr l1)) now quars rssis) l1))"

section \<open>Shell commands\<close>

definition cmd_esb_unpair :: "kconfig \<Rightarrow> pairing \<Rightarrow> pairing" where
  "cmd_esb_unpair cfg p = pairing_unpair cfg p"

definition cmd_esb_bench :: "kconfig \<Rightarrow> endpoint \<Rightarrow> link \<Rightarrow> rc \<times> link" where
  "cmd_esb_bench cfg e l = (case bn_state (bn l) of
     BENCH_IDLE \<Rightarrow> if \<not> esb_active e then (Err EINVAL, l) else (OK, on_bn (esb_bench_start cfg) l)
   | BENCH_RUNNING \<Rightarrow> (OK, l)
   | BENCH_STOPPING \<Rightarrow> (OK, l)
   | BENCH_DONE \<Rightarrow> (OK, on_bn esb_bench_reset l))"

text \<open>The rates that \<open>esb stats\<close> prints, in per mille, computed in 32 bits.\<close>

definition per_mille :: "u32 \<Rightarrow> u32 \<Rightarrow> u32" where
  "per_mille part whole = (part * 1000) div whole"

definition tx_rates :: "transport \<Rightarrow> (u32 \<times> u32) option" where
  "tx_rates t =
     (let tx_total = tx_ok_count t + tx_exhausted_count t in
      if 0 < tx_total
      then Some (per_mille (tx_exhausted_count t) tx_total,
                 if 0 < tx_ok_count t then per_mille (tx_retried_count t) (tx_ok_count t) else 0)
      else None)"

section \<open>Properties\<close>

lemmas ctrl_defs = esb_ctrl_thread_fn_def esb_ctrl_resume_def ctrl_activate_def ctrl_quiesced_def ctrl_settled_def
  ctrl_deactivate_def

lemma slot_parts [simp]:
  "t_configured (tr (esb_transport_on_slot_start cfg hf tm ppi l)) = t_configured (tr l)"
  "t_channel (tr (esb_transport_on_slot_start cfg hf tm ppi l)) = t_channel (tr l)"
  "boot_channel (tr (esb_transport_on_slot_start cfg hf tm ppi l)) = boot_channel (tr l)"
  "hopm (esb_transport_on_slot_start cfg hf tm ppi l) = hopm l"
  "t_configured (tr (esb_transport_on_slot_stop l)) = t_configured (tr l)"
  "t_channel (tr (esb_transport_on_slot_stop l)) = t_channel (tr l)"
  "boot_channel (tr (esb_transport_on_slot_stop l)) = boot_channel (tr l)"
  "hopm (esb_transport_on_slot_stop l) = hopm l"
  by (simp_all add: esb_transport_on_slot_start_def esb_transport_on_slot_stop_def esb_init_and_configure_def split_beta
      Let_def split: rc.split)

text \<open>
  What is left of ESB when the endpoint is switched off: no radio, no frame queued, the hardware back with
  Bluetooth, pairing and hop manager down and nothing of theirs scheduled, except the two writers
  to flash and a hop that was already submitted (see \<open>refused_hop_retries_for_ever\<close>).
\<close>

definition esb_gone :: "pairing \<Rightarrow> link \<Rightarrow> bool" where
  "esb_gone p l \<longleftrightarrow> p_state p = PAIRING_STATE_IDLE \<and> p_wq p W_beacon = None \<and> p_wq p W_verify = None
     \<and> \<not> esb_initialized (radio l) \<and> tx_queue (radio l) = [] \<and> \<not> bt_suspended (tr l) \<and> \<not> hfxo_held (tr l)
     \<and> t_wq (tr l) W_adaptive = None
     \<and> \<not> link_up (hopm l) \<and> \<not> hop_active (hopm l) \<and> burst_remaining (hopm l) = 0 \<and> coop_st (hopm l) = COOP_IDLE
     \<and> (\<forall>w \<in> {W_negotiate, W_idle_check, W_post_hop_burst, W_hop_retry, W_coop_offer, W_coop_commit}. hop_wq (hopm l) w = None)"

lemma slot_stop_disables: "\<not> esb_initialized (radio (esb_transport_on_slot_stop l))"
  by (simp add: esb_transport_on_slot_stop_def esb_disable_def reset_fifos_def Let_def)

lemma stop_gone:
  "esb_gone (fst (pairing_stop (p, esb_transport_on_slot_stop l)))
     (on_tr esb_transport_deinit (snd (pairing_stop (p, esb_transport_on_slot_stop l))))"
  by (simp add: esb_gone_def pairing_stop_def p_cancel_def esb_transport_on_slot_stop_def esb_disable_def reset_fifos_def
      esb_transport_deinit_def cancel_def channel_hop_ep_on_disconnected_def hop_simps Let_def)

lemma slot_start_radio:
  assumes "\<not> esb_initialized (radio l)"
  shows "esb_initialized (radio (esb_transport_on_slot_start cfg hf tm ppi l)) = (tm = OK \<and> ppi = OK)"
  using assms
  by (auto simp: esb_transport_on_slot_start_def esb_init_and_configure_def esb_init_def reset_fifos_def Let_def
      esb_set_rf_channel_def esb_set_prefixes_def esb_set_base_address_1_def esb_set_base_address_0_def split: rc.split)

lemma slot_start_suspends [simp]: "bt_suspended (tr (esb_transport_on_slot_start cfg hf tm ppi l))"
  by (simp add: esb_transport_on_slot_start_def esb_init_and_configure_def split_beta Let_def split: rc.split)

text \<open>
  A profile switch that finds the control thread idle is followed. One turn of the thread after
  the event, ESB is active exactly when the selected profile is its own; a switch to it leaves the
  transport configured on the devicetree channel and the pairing running, and the radio working if the
  hardware let it start; a switch away leaves the transport without addresses and ESB gone.
\<close>

lemma switch_followed:
  fixes ec :: ep_cfg
  assumes "ctrl_at e = CTRL_WAIT" "ctrl_msgq e = []" "0 < ec_msgq_depth ec"
  shows "let esb = (index = ec_profile_count ec - 1);
             (e', p', l') = esb_ctrl_thread_fn ec cfg hf tm ppi (profile_listener_cb ec index e, p, l)
    in ctrl_at e' = CTRL_WAIT \<and> ctrl_msgq e' = [] \<and> esb_active e' = esb
     \<and> (esb \<and> \<not> esb_active e \<longrightarrow> t_configured (tr l') \<and> t_channel (tr l') = ec_channel ec \<and> boot_channel (tr l') = ec_channel ec
          \<and> p_state p' = (if p_has_peer p then PAIRING_STATE_VERIFYING else PAIRING_STATE_UNPAIRED)
          \<and> bt_suspended (tr l')
          \<and> (\<not> esb_initialized (radio l) \<longrightarrow> esb_initialized (radio l') = (tm = OK \<and> ppi = OK)))
     \<and> (\<not> esb \<and> esb_active e \<longrightarrow> \<not> t_configured (tr l') \<and> esb_gone p' l')
     \<and> (esb = esb_active e \<longrightarrow> e' = e \<and> p' = p \<and> l' = l)"
  using assms stop_gone [of p l] slot_start_radio
  by (cases "index = ec_profile_count ec - 1"; cases "esb_active e")
    (simp_all add: profile_listener_cb_def put_cmd_def ctrl_defs
      configure_esb_addresses_def esb_transport_set_addresses_def esb_transport_deinit_def pairing_start_def p_resched_def
      pairing_stop_def p_cancel_def Let_def)

text \<open>
  Between two switches the thread is idle and the radio belongs to whom the flag says: with ESB active
  the transport is configured, Bluetooth suspended and the pairing runs, otherwise ESB is gone.
\<close>

definition settled :: "endpoint \<times> pairing \<times> link \<Rightarrow> bool" where
  "settled = (\<lambda>(e, p, l). ctrl_at e = CTRL_WAIT \<and> ctrl_msgq e = [] \<and> t_configured (tr l) = esb_active e
     \<and> (esb_active e \<longrightarrow> p_state p \<noteq> PAIRING_STATE_IDLE \<and> bt_suspended (tr l))
     \<and> (\<not> esb_active e \<longrightarrow> esb_gone p l))"

text \<open>A switch, with a whole turn of the thread behind it; the answers of the hardware may differ each time.\<close>

definition profile_turn :: "ep_cfg \<Rightarrow> kconfig \<Rightarrow> nat \<times> rc \<times> rc \<times> rc \<Rightarrow> endpoint \<times> pairing \<times> link \<Rightarrow> endpoint \<times> pairing \<times> link" where
  "profile_turn ec cfg = (\<lambda>(index, hf, tm, ppi) (e, p, l). esb_ctrl_thread_fn ec cfg hf tm ppi (profile_listener_cb ec index e, p, l))"

lemma profile_turn_settled:
  fixes ec :: ep_cfg and cfg :: kconfig and index :: nat and hf tm ppi :: rc
  assumes "settled s" "0 < ec_msgq_depth ec"
  defines "s' \<equiv> profile_turn ec cfg (index, hf, tm, ppi) s"
  shows "settled s' \<and> esb_active (fst s') = (index = ec_profile_count ec - 1)
    \<and> (\<not> esb_active (fst s) \<and> esb_active (fst s') \<longrightarrow> esb_initialized (radio (snd (snd s'))) = (tm = OK \<and> ppi = OK))
    \<and> (esb_active (fst s) = esb_active (fst s') \<longrightarrow> s' = s)"
proof -
  obtain e p l where s: "s = (e, p, l)" by (metis prod_cases3)
  obtain e' p' l' where t: "esb_ctrl_thread_fn ec cfg hf tm ppi (profile_listener_cb ec index e, p, l) = (e', p', l')"
    by (metis prod_cases3)
  then have s': "s' = (e', p', l')" by (simp add: s'_def profile_turn_def s)
  have w: "ctrl_at e = CTRL_WAIT" "ctrl_msgq e = []" using assms(1) by (simp_all add: settled_def s)
  have off: "\<not> esb_active e \<Longrightarrow> \<not> esb_initialized (radio l)" using assms(1) by (simp add: settled_def s esb_gone_def)
  note followed = switch_followed [OF w assms(2), of index cfg hf tm ppi p l, unfolded t Let_def prod.case]
  show ?thesis
  proof (cases "(index = ec_profile_count ec - 1) = esb_active e")
    case True
    with followed assms(1) show ?thesis by (simp add: s s')
  next
    case False
    with followed off show ?thesis by (auto simp: s s' settled_def)
  qed
qed

text \<open>
  C39. The radio follows the profile. From any settled state, after any history of profile switches, each
  followed by a turn of the control thread and whatever the hardware answers, ESB is active exactly when
  the last profile selected is its own. When it is, the transport has its addresses, Bluetooth is suspended
  and the pairing runs; the radio works exactly when the timer and the PPI channels of the switch that
  turned it on were granted, since the thread goes on when they were not. When it is not, ESB is gone: the
  radio off, no frame queued, the hardware back, pairing and hop manager down and none of their work
  scheduled but the writers to flash and a hop already submitted. A switch between two profiles that are
  both not ESB's, or to the one selected, changes nothing.
\<close>

theorem profiles_followed:
  fixes ec :: ep_cfg and cfg :: kconfig and switches and index :: nat and hf tm ppi :: rc
  assumes "settled s" "0 < ec_msgq_depth ec"
  defines "s0 \<equiv> fold (profile_turn ec cfg) switches s"
  defines "s1 \<equiv> profile_turn ec cfg (index, hf, tm, ppi) s0"
  shows "settled s1 \<and> esb_active (fst s1) = (index = ec_profile_count ec - 1)
    \<and> (\<not> esb_active (fst s1) \<longrightarrow> \<not> t_configured (tr (snd (snd s1))) \<and> esb_gone (fst (snd s1)) (snd (snd s1)))
    \<and> (esb_active (fst s1) \<longrightarrow> t_configured (tr (snd (snd s1))) \<and> bt_suspended (tr (snd (snd s1)))
         \<and> p_state (fst (snd s1)) \<noteq> PAIRING_STATE_IDLE)
    \<and> (\<not> esb_active (fst s0) \<and> esb_active (fst s1) \<longrightarrow> esb_initialized (radio (snd (snd s1))) = (tm = OK \<and> ppi = OK))
    \<and> (esb_active (fst s0) = esb_active (fst s1) \<longrightarrow> s1 = s0)"
proof -
  have "settled s0" unfolding s0_def using assms(1)
  proof (induction switches arbitrary: s)
    case (Cons x xs)
    obtain index hf tm ppi where x: "x = (index, hf, tm, ppi)" by (metis prod_cases4)
    from profile_turn_settled [OF Cons.prems assms(2)] Cons.IH show ?case by (simp add: x)
  qed simp
  from profile_turn_settled [OF this assms(2), of cfg index hf tm ppi, folded s1_def] show ?thesis
    by (cases s1) (auto simp: settled_def)
qed

definition demo_ep_cfg :: ep_cfg where
  "demo_ep_cfg = \<lparr>ec_base0 = [1, 2, 3, 4], ec_base1 = [5, 6, 7, 8], ec_pairing_prefix = 0xC1, ec_data_prefix = 0xC2,
     ec_channel = 40, ec_profile_count = 5, ec_msgq_depth = 4\<rparr>"

definition demo_off :: "endpoint \<times> pairing \<times> link" where
  "demo_off = (endpoint_boot, pairing_boot, \<lparr>tr = transport_boot default_kconfig, radio = esb_boot default_kconfig,
     hopm = idle_hop\<lparr>link_up := False, hop_active := False\<rparr>, bn = bench_boot\<rparr>)"

lemma demo_off_settled: "settled demo_off"
  by (simp add: settled_def esb_gone_def demo_off_def endpoint_boot_def pairing_boot_def transport_boot_def esb_boot_def
      idle_hop_def no_work_def)

theorem profiles_followed_witness:
  "esb_active (fst (profile_turn demo_ep_cfg default_kconfig (4, Err EIO, OK, OK)
     (fold (profile_turn demo_ep_cfg default_kconfig) [(4, OK, OK, OK), (0, OK, OK, OK)] demo_off)))"
  using profiles_followed [OF demo_off_settled, where ec = demo_ep_cfg and cfg = default_kconfig
      and switches = "[(4, OK, OK, OK), (0, OK, OK, OK)]" and index = 4 and hf = "Err EIO" and tm = OK and ppi = OK]
  by (simp add: demo_ep_cfg_def del: fold_simps)

text \<open>
  The outcome of the start is not looked at: when the radio cannot be initialised the thread goes on, and
  ESB counts as active over a radio that is dead until the profile is switched away and back. The gate
  keeps Bluetooth silent as long.
\<close>

lemma dead_radio_counts_as_active:
  assumes "settled s" "0 < ec_msgq_depth ec" "\<not> esb_active (fst s)" "ppi \<noteq> OK"
  shows "let s' = profile_turn ec cfg (ec_profile_count ec - 1, hf, tm, ppi) s
    in esb_active (fst s') \<and> \<not> esb_initialized (radio (snd (snd s'))) \<and> ble_gate (fst s') (r :: int) = 0"
  using profile_turn_settled [OF assms(1,2), of cfg "ec_profile_count ec - 1" hf tm ppi] assms(3,4)
  by (simp add: ble_gate_def Let_def)

text \<open>
  A switch to the ESB profile and away from it again, before the thread has activated (it waits for
  Bluetooth to go quiet on the way), is lost: the second event finds ESB inactive and commands
  nothing, and ESB becomes active on a profile that is not its own.
\<close>

lemma quick_switch_back_lost:
  fixes ec :: ep_cfg and cfg :: kconfig and hf tm ppi :: rc
  assumes "ctrl_at e = CTRL_WAIT" "ctrl_msgq e = []" "\<not> esb_active e" "0 < ec_msgq_depth ec" "other \<noteq> ec_profile_count ec - 1"
  defines "resume \<equiv> esb_ctrl_resume ec cfg hf tm ppi"
  shows "let (e1, p1, l1) = resume (profile_listener_cb ec (ec_profile_count ec - 1) e, p, l);
             s = resume (resume (profile_listener_cb ec other e1, p1, l1))
    in esb_active (fst s) \<and> ctrl_msgq (fst s) = [] \<and> ctrl_at (fst s) = CTRL_WAIT"
  using assms by (simp add: profile_listener_cb_def put_cmd_def ctrl_defs Let_def)

text \<open>
  The same window accepts a second activation: the boot check and the listener both command one, and
  the second restarts the pairing of a link that is already connected, which leaves the hop manager
  running while the pairing verifies.
\<close>

lemma second_activation_restarts_pairing:
  assumes "ctrl_at e = CTRL_WAIT" "ctrl_msgq e = [ESB_CMD_ACTIVATE]" "p_has_peer p"
  shows "let (e', p', l') = esb_ctrl_thread_fn ec cfg hf tm ppi (e, p, l)
    in p_state p' = PAIRING_STATE_VERIFYING \<and> link_up (hopm l') = link_up (hopm l)"
  using assms by (simp add: ctrl_defs configure_esb_addresses_def pairing_start_def p_resched_def Let_def)

text \<open>The printed rates are right until the product leaves 32 bits; then they are not.\<close>

lemma per_mille_exact:
  assumes "unat part * 1000 < 2 ^ 32"
  shows "unat (per_mille part whole) = unat part * 1000 div unat whole"
proof -
  have "unat (part * 1000) = unat part * 1000" using assms by (simp add: unat_word_ariths)
  then show ?thesis by (simp add: per_mille_def unat_div_distrib)
qed

lemma per_mille_overflows: "per_mille 4294968 4294968 = 0"
  by (simp add: per_mille_def)

end
