(* ===== verification/ShellRelay.thy ===== *)
theory ShellRelay
  imports HidDelivery
begin

text \<open>
  The keyboard's end of the shell relay, \<open>src/src/shell/shell_relay.c\<close>, a build option: the session
  that the dongle opens, the line editor for the bytes it sends, the output that goes back in
  fragments, and the polls that let the dongle answer. The command queue and the output buffer
  belong to the shell relay core, a module outside the repository: they are the record \<open>relay_ops\<close>
  of its calls, over a state of its own. The log formatter is the list of chunks it emits.
\<close>

section \<open>State\<close>

record 'r relay_ops =
  ro_enqueue :: "bytes \<Rightarrow> 'r \<Rightarrow> 'r"
  ro_claim :: "nat \<Rightarrow> 'r \<Rightarrow> bytes \<times> 'r"
  ro_finish :: "nat \<Rightarrow> 'r \<Rightarrow> 'r"
  ro_size :: "'r \<Rightarrow> nat"
  ro_reset :: "'r \<Rightarrow> 'r"
  ro_reset_cmds :: "'r \<Rightarrow> 'r"
  ro_queue_cmd :: "bytes \<Rightarrow> 'r \<Rightarrow> 'r"
  ro_attach :: "'r \<Rightarrow> 'r"
  ro_detach :: "'r \<Rightarrow> 'r"

text \<open>The options of \<open>src/src/shell/Kconfig\<close>; \<open>sc_prompt\<close> with its colour sequences.\<close>

record shell_cfg =
  sc_poll_ms :: u32
  sc_initial_poll_ms :: u32
  sc_inactivity_s :: nat
  sc_cmd_buf :: nat
  sc_drain_retry_ms :: u32
  sc_stdout_bytes :: nat
  sc_stdout_ms :: u32
  sc_bg_poll :: bool
  sc_bg_poll_ms :: u32
  sc_bg_threshold_ms :: u32
  sc_nudge_ms :: int
  sc_prompt :: bytes

datatype shell_work_item = W_shell_poll | W_inactivity | W_out_drain | W_stdout_flush | W_bg_poll

record 'r shell =
  sh_active :: bool
  cmd_buf :: bytes
  stdout_buf :: bytes
  at_line_start :: bool
  in_log_emit :: bool
  last_nudge_ms :: int
  stdout_hooked :: bool
  sh_core :: 'r
  sh_wq :: "shell_work_item workq"

definition shell_boot :: "'r \<Rightarrow> 'r shell" where
  "shell_boot r = \<lparr>sh_active = False, cmd_buf = [], stdout_buf = [], at_line_start = True, in_log_emit = False,
     last_nudge_ms = 0, stdout_hooked = False, sh_core = r, sh_wq = no_work\<rparr>"

definition sh_resched :: "shell_work_item \<Rightarrow> u32 \<Rightarrow> 'r shell \<Rightarrow> 'r shell" where
  "sh_resched w d s = s\<lparr>sh_wq := resched w d (sh_wq s)\<rparr>"

definition sh_cancel :: "shell_work_item \<Rightarrow> 'r shell \<Rightarrow> 'r shell" where
  "sh_cancel w s = s\<lparr>sh_wq := cancel w (sh_wq s)\<rparr>"

definition on_core :: "('r \<Rightarrow> 'r) \<Rightarrow> 'r shell \<Rightarrow> 'r shell" where
  "on_core f s = s\<lparr>sh_core := f (sh_core s)\<rparr>"

section \<open>Output\<close>

definition out_drain_kick :: "'r shell \<Rightarrow> 'r shell" where
  "out_drain_kick s = sh_resched W_out_drain 0 s"

definition out_enqueue :: "'r relay_ops \<Rightarrow> bytes \<Rightarrow> 'r shell \<Rightarrow> 'r shell" where
  "out_enqueue ro data s = (if data = [] then s else (on_core (ro_enqueue ro data) s)\<lparr>at_line_start := (last data = 0x0A)\<rparr>)"

definition send_prompt :: "'r relay_ops \<Rightarrow> shell_cfg \<Rightarrow> 'r shell \<Rightarrow> 'r shell" where
  "send_prompt ro sc s = out_drain_kick (out_enqueue ro (sc_prompt sc) (out_enqueue ro [0x0D, 0x0A] s))"

text \<open>A fragment as a packet, zero-padded to its fixed size.\<close>

definition shell_data_max :: nat where
  "shell_data_max = 30"

definition shell_pkt :: "bytes \<Rightarrow> bytes" where
  "shell_pkt chunk = layout (Shell_Data (of_nat (length chunk)) (chunk @ replicate (shell_data_max - length chunk) 0))"

text \<open>
  The loop of the drain; it has no bound of its own, so that not returning is \<open>None\<close>.
\<close>

partial_function (option) out_drain_loop ::
  "'r relay_ops \<Rightarrow> kconfig \<Rightarrow> u32 \<Rightarrow> u32 \<Rightarrow> 'r \<Rightarrow> link \<Rightarrow> ('r \<times> link) option" where
  "out_drain_loop ro cfg now addr r l =
     (if esb_transport_shell_backpressure cfg l then Some (r, l)
      else let (chunk, r1) = ro_claim ro shell_data_max r
        in if chunk = [] then Some (r1, l)
           else let (e, l1) = esb_transport_send cfg now addr pipe_data (shell_pkt chunk) l
             in if e = Err ENOMEM \<or> e = Err EAGAIN then Some (ro_finish ro 0 r1, l1)
                else if e \<noteq> OK then Some (ro_finish ro (length chunk) r1, l1)
                else out_drain_loop ro cfg now addr (ro_finish ro (length chunk) r1) l1)"

definition out_drain_work_fn ::
  "'r relay_ops \<Rightarrow> shell_cfg \<Rightarrow> kconfig \<Rightarrow> u32 \<Rightarrow> u32 \<Rightarrow> 'r shell \<times> link \<Rightarrow> ('r shell \<times> link) option" where
  "out_drain_work_fn ro sc cfg now addr = (\<lambda>(s, l).
     if \<not> sh_active s then Some (s, l)
     else if esb_transport_is_quiet now (tr l) then Some (sh_resched W_out_drain (sc_drain_retry_ms sc) s, l)
     else case out_drain_loop ro cfg now addr (sh_core s) l of
         None \<Rightarrow> None
       | Some (r, l1) \<Rightarrow>
           (let s1 = s\<lparr>sh_core := r\<rparr>
            in Some (if 0 < ro_size ro r then sh_resched W_out_drain (sc_drain_retry_ms sc) s1 else s1, l1)))"

text \<open>The callbacks of the core: more output is there, and a command is done (after a short sleep).\<close>

definition esb_out_data_ready :: "'r shell \<Rightarrow> 'r shell" where
  "esb_out_data_ready s = out_drain_kick s"

definition esb_cmd_done :: "'r relay_ops \<Rightarrow> shell_cfg \<Rightarrow> 'r shell \<Rightarrow> 'r shell" where
  "esb_cmd_done ro sc s = send_prompt ro sc s"

definition esb_shell_relay_notify_tx :: "'r relay_ops \<Rightarrow> 'r shell \<Rightarrow> 'r shell" where
  "esb_shell_relay_notify_tx ro s = (if sh_active s \<and> 0 < ro_size ro (sh_core s) then out_drain_kick s else s)"

section \<open>Standard output and the log\<close>

definition stdout_buf_reset :: "'r shell \<Rightarrow> 'r shell" where
  "stdout_buf_reset s = (sh_cancel W_stdout_flush s)\<lparr>stdout_buf := []\<rparr>"

definition stdout_flush_work_fn :: "'r relay_ops \<Rightarrow> 'r shell \<Rightarrow> 'r shell" where
  "stdout_flush_work_fn ro s =
     (let tmp = stdout_buf s; s1 = s\<lparr>stdout_buf := []\<rparr>
      in if tmp = [] \<or> \<not> sh_active s1 then s1 else out_drain_kick (out_enqueue ro tmp s1))"

definition esb_stdout_hook :: "shell_cfg \<Rightarrow> u8 \<Rightarrow> 'r shell \<Rightarrow> 'r shell" where
  "esb_stdout_hook sc c s =
     (if \<not> sh_active s then s
      else let s1 = (if length (stdout_buf s) < sc_stdout_bytes sc then s\<lparr>stdout_buf := stdout_buf s @ [c]\<rparr> else s)
        in sh_resched W_stdout_flush (if sc_stdout_bytes sc \<le> length (stdout_buf s1) then 0 else sc_stdout_ms sc) s1)"

definition log_out_func :: "'r relay_ops \<Rightarrow> bytes \<Rightarrow> 'r shell \<Rightarrow> 'r shell" where
  "log_out_func ro buf s = (if sh_active s then out_drain_kick (out_enqueue ro buf s) else s)"

definition esb_log_backend_process :: "'r relay_ops \<Rightarrow> bytes list \<Rightarrow> 'r shell \<Rightarrow> 'r shell" where
  "esb_log_backend_process ro chunks s =
     (if \<not> sh_active s \<or> in_log_emit s then s
      else let s1 = s\<lparr>in_log_emit := True\<rparr>;
               s2 = (if \<not> at_line_start s1 then out_enqueue ro [0x0D, 0x0A] s1 else s1)
           in (fold (log_out_func ro) chunks s2)\<lparr>in_log_emit := False\<rparr>)"

text \<open>Other callbacks of the log: a notice of dropped messages, and what is left at a panic.\<close>

definition esb_log_backend_dropped :: "'r relay_ops \<Rightarrow> bytes list \<Rightarrow> 'r shell \<Rightarrow> 'r shell" where
  "esb_log_backend_dropped ro chunks s = fold (log_out_func ro) chunks s"

definition esb_log_backend_panic :: "'r relay_ops \<Rightarrow> bytes list \<Rightarrow> 'r shell \<Rightarrow> 'r shell" where
  "esb_log_backend_panic ro rest s = fold (log_out_func ro) rest s"

definition esb_shell_relay_is_active :: "'r shell \<Rightarrow> bool" where
  "esb_shell_relay_is_active s = sh_active s"

definition esb_shell_relay_on_activate :: "bool \<Rightarrow> 'r shell \<Rightarrow> 'r shell" where
  "esb_shell_relay_on_activate active s = (if active then s\<lparr>stdout_hooked := True\<rparr> else s)"

definition esb_shell_relay_on_deactivate :: "'r shell \<Rightarrow> 'r shell" where
  "esb_shell_relay_on_deactivate s = s\<lparr>stdout_hooked := False\<rparr>"

section \<open>The session\<close>

text \<open>What every end of a session does to the output and to the core.\<close>

definition drop_session :: "'r relay_ops \<Rightarrow> 'r shell \<Rightarrow> 'r shell" where
  "drop_session ro s = on_core (ro_reset_cmds ro \<circ> ro_reset ro \<circ> ro_detach ro) (stdout_buf_reset s)"

definition shell_poll_work_fn ::
  "shell_cfg \<Rightarrow> kconfig \<Rightarrow> u32 \<Rightarrow> u32 \<Rightarrow> 'r shell \<times> link \<Rightarrow> 'r shell \<times> link" where
  "shell_poll_work_fn sc cfg now addr = (\<lambda>(s, l).
     if \<not> sh_active s then (s, l)
     else (sh_resched W_shell_poll (sc_poll_ms sc) s, snd (send_pkt cfg now addr Shell_Poll l)))"

definition inactivity_work_fn ::
  "'r relay_ops \<Rightarrow> kconfig \<Rightarrow> u32 \<Rightarrow> u32 \<Rightarrow> 'r shell \<times> link \<Rightarrow> 'r shell \<times> link" where
  "inactivity_work_fn ro cfg now addr = (\<lambda>(s, l).
     (drop_session ro (sh_cancel W_out_drain (sh_cancel W_shell_poll (s\<lparr>sh_active := False\<rparr>))),
      snd (send_pkt cfg now addr Shell_Stop l)))"

definition bg_poll_work_fn ::
  "shell_cfg \<Rightarrow> kconfig \<Rightarrow> u32 \<Rightarrow> u32 \<Rightarrow> 'r shell \<times> link \<Rightarrow> 'r shell \<times> link" where
  "bg_poll_work_fn sc cfg now addr = (\<lambda>(s, l).
     if sh_active s then (s, l)
     else (sh_resched W_bg_poll (sc_bg_poll_ms sc) s,
           if sc_bg_threshold_ms sc = 0 \<or> esb_transport_ms_since_activity now (tr l) \<le> sc_bg_threshold_ms sc
           then snd (send_pkt cfg now addr Shell_Bg_Poll l) else l))"

definition esb_shell_relay_on_connected :: "'r relay_ops \<Rightarrow> shell_cfg \<Rightarrow> 'r shell \<Rightarrow> 'r shell" where
  "esb_shell_relay_on_connected ro sc s =
     (let s1 = (drop_session ro (sh_cancel W_out_drain (sh_cancel W_inactivity (sh_cancel W_shell_poll
                 (s\<lparr>sh_active := False\<rparr>)))))\<lparr>cmd_buf := []\<rparr>
      in if sc_bg_poll sc then sh_resched W_bg_poll (sc_bg_poll_ms sc) s1 else s1)"

definition esb_shell_relay_on_disconnected :: "'r relay_ops \<Rightarrow> shell_cfg \<Rightarrow> 'r shell \<Rightarrow> 'r shell" where
  "esb_shell_relay_on_disconnected ro sc s =
     (let s0 = (if sc_bg_poll sc then sh_cancel W_bg_poll s else s)
      in if \<not> sh_active s0 then s0
         else drop_session ro (sh_cancel W_out_drain (sh_cancel W_inactivity (sh_cancel W_shell_poll
                (s0\<lparr>sh_active := False\<rparr>)))))"

text \<open>The inactivity timer restarts, unless it is configured off.\<close>

definition restart_inactivity :: "shell_cfg \<Rightarrow> 'r shell \<Rightarrow> 'r shell" where
  "restart_inactivity sc s =
     (if 0 < sc_inactivity_s sc then sh_resched W_inactivity (of_nat (sc_inactivity_s sc) * 1000) s else s)"

definition esb_shell_relay_on_req :: "'r relay_ops \<Rightarrow> shell_cfg \<Rightarrow> 'r shell \<Rightarrow> 'r shell" where
  "esb_shell_relay_on_req ro sc s =
     (if sh_active s then s
      else let s1 = on_core (ro_attach ro \<circ> ro_reset_cmds ro \<circ> ro_reset ro)
                      (stdout_buf_reset (s\<lparr>sh_active := True, cmd_buf := []\<rparr>));
               s2 = (if sc_bg_poll sc then sh_cancel W_bg_poll s1 else s1)
           in send_prompt ro sc (restart_inactivity sc (sh_resched W_shell_poll (sc_initial_poll_ms sc) s2)))"

definition esb_shell_relay_request :: "kconfig \<Rightarrow> u32 \<Rightarrow> u32 \<Rightarrow> bool \<Rightarrow> 'r shell \<Rightarrow> link \<Rightarrow> rc \<times> link" where
  "esb_shell_relay_request cfg now addr active s l =
     (if \<not> active then (Err ENOTCONN, l) else if sh_active s then (OK, l) else send_pkt cfg now addr Shell_Start l)"

section \<open>The line editor\<close>

definition line_erase :: bytes where
  "line_erase = [0x08, 0x20, 0x08]"

text \<open>One byte of input; the flag says that there is an erasure to echo.\<close>

definition edit_byte :: "'r relay_ops \<Rightarrow> shell_cfg \<Rightarrow> u8 \<Rightarrow> bool \<times> 'r shell \<Rightarrow> bool \<times> 'r shell" where
  "edit_byte ro sc b = (\<lambda>(need, s).
     if b = 0x0A \<or> b = 0x0D then
       (need, if cmd_buf s \<noteq> [] then (on_core (ro_queue_cmd ro (cmd_buf s)) s)\<lparr>cmd_buf := []\<rparr> else s)
     else if b = 0x7F \<or> b = 0x08 then
       (if cmd_buf s \<noteq> [] then (True, out_enqueue ro line_erase (s\<lparr>cmd_buf := butlast (cmd_buf s)\<rparr>)) else (need, s))
     else if length (cmd_buf s) < sc_cmd_buf sc - 1 then (need, s\<lparr>cmd_buf := cmd_buf s @ [b]\<rparr>)
     else (need, s))"

definition esb_shell_relay_on_data ::
  "'r relay_ops \<Rightarrow> shell_cfg \<Rightarrow> kconfig \<Rightarrow> u32 \<Rightarrow> u32 \<Rightarrow> int \<Rightarrow> bytes \<Rightarrow> 'r shell \<times> link \<Rightarrow> 'r shell \<times> link" where
  "esb_shell_relay_on_data ro sc cfg now addr uptime data = (\<lambda>(s, l).
     if \<not> sh_active s \<or> data = [] then
       (if \<not> sh_active s \<and> data \<noteq> [] \<and> sc_nudge_ms sc < uptime - last_nudge_ms s
        then (s\<lparr>last_nudge_ms := uptime\<rparr>, snd (send_pkt cfg now addr Shell_Stop l))
        else (s, l))
     else let (need, s1) = fold (edit_byte ro sc) data (False, restart_inactivity sc s)
       in (if need then out_drain_kick s1 else s1, l))"

text \<open>
  The two packets as \<open>pairing_on_rx\<close> dispatches them in this build. The length byte is not compared
  with the length of the frame: \<open>stale\<close> is what the reception buffer holds behind the frame.
\<close>

definition shell_on_rx ::
  "'r relay_ops \<Rightarrow> shell_cfg \<Rightarrow> kconfig \<Rightarrow> u32 \<Rightarrow> u32 \<Rightarrow> int \<Rightarrow> bytes \<Rightarrow> bytes \<Rightarrow> 'r shell \<times> link \<Rightarrow> 'r shell \<times> link" where
  "shell_on_rx ro sc cfg now addr uptime stale data = (\<lambda>(s, l).
     if data = [] then (s, l)
     else if data ! 0 = pkt_shell_req then (esb_shell_relay_on_req ro sc s, l)
     else if data ! 0 = pkt_shell_data \<and> 2 \<le> length data \<and> 0 < data ! 1 \<and> unat (data ! 1) \<le> shell_data_max
     then esb_shell_relay_on_data ro sc cfg now addr uptime (take (unat (data ! 1)) (drop 2 (data @ stale))) (s, l)
     else (s, l))"

section \<open>The output arrives in order\<close>

text \<open>
  What the drain relies on of the core, with \<open>pend\<close> the bytes it holds: a claim hands out a first part
  of them, not empty when there are any, and finishing it with \<open>k\<close> bytes removes these.
\<close>

definition byte_stream :: "'r relay_ops \<Rightarrow> ('r \<Rightarrow> bytes) \<Rightarrow> bool" where
  "byte_stream ro pend \<longleftrightarrow> (\<forall>r. ro_size ro r = length (pend r))
     \<and> (\<forall>n r. let (c, r') = ro_claim ro n r in length c \<le> n \<and> (\<exists>rest. pend r = c @ rest) \<and> (0 < n \<and> pend r \<noteq> [] \<longrightarrow> c \<noteq> [])
          \<and> (c = [] \<longrightarrow> pend r' = pend r) \<and> (\<forall>k \<le> length c. pend (ro_finish ro k r') = drop k (pend r)))"

lemma byte_streamD:
  assumes "byte_stream ro pend" "ro_claim ro n r = (c, r')"
  shows "length c \<le> n" "\<exists>rest. pend r = c @ rest" "0 < n \<Longrightarrow> c = [] \<Longrightarrow> pend r = []" "c = [] \<Longrightarrow> pend r' = pend r"
    "pend (ro_finish ro 0 r') = pend r" "pend r = c @ pend (ro_finish ro (length c) r')"
proof -
  have l: "length c \<le> n \<and> (\<exists>rest. pend r = c @ rest) \<and> (0 < n \<and> pend r \<noteq> [] \<longrightarrow> c \<noteq> [])
      \<and> (c = [] \<longrightarrow> pend r' = pend r) \<and> (\<forall>k \<le> length c. pend (ro_finish ro k r') = drop k (pend r))"
    using assms(1) [unfolded byte_stream_def, THEN conjunct2, THEN spec, THEN spec, of n r] by (simp add: assms(2))
  then show "length c \<le> n" "\<exists>rest. pend r = c @ rest" "0 < n \<Longrightarrow> c = [] \<Longrightarrow> pend r = []" "c = [] \<Longrightarrow> pend r' = pend r"
    "pend (ro_finish ro 0 r') = pend r" by auto
  from l show "pend r = c @ pend (ro_finish ro (length c) r')" by auto
qed

lemma shell_pkt_shape:
  assumes "length c \<le> shell_data_max"
  shows "length (shell_pkt c) = 32" "is_shell (shell_pkt c)" "out_frame cfg now (shell_pkt c) rf = shell_pkt c"
  using assms by (simp_all add: shell_pkt_def shell_data_max_def is_shell_def out_frame_def is_mouse_report_def)

lemma shell_send:
  assumes r: "link_ready cfg l" and c: "length c \<le> shell_data_max" "c \<noteq> []"
    and s: "esb_transport_send cfg now addr pipe_data (shell_pkt c) l = (e, l')"
  shows "link_ready cfg l' \<and> (e = OK \<and> tx_frames l' = tx_frames l @ [shell_pkt c]
      \<or> (e = Err EAGAIN \<or> e = Err ENOMEM) \<and> tx_frames l' = tx_frames l)"
proof (cases "send_refusal cfg now (shell_pkt c) l")
  case None
  have full: "\<not> esb_tx_full (radio l)"
    using None shell_pkt_shape(2) [OF c(1)] by (auto simp: send_refusal_def split: if_splits)
  have "shell_pkt c \<noteq> []" using shell_pkt_shape(1) [OF c(1)] by auto
  from ready_send_accepted [OF r None this, of addr] s full show ?thesis
    by (auto simp: tx_frames_def shell_pkt_shape(3) [OF c(1)])
next
  case (Some x)
  have "c_max_payload cfg \<ge> 32" using r kconfig_okD(1) by (auto simp: link_ready_def)
  then have "x = EAGAIN \<or> x = ENOMEM"
    using Some shell_pkt_shape(1) [OF c(1)] by (auto simp: send_refusal_def split: if_splits)
  with ready_send_refused [OF r Some, of addr pipe_data] s show ?thesis by (auto simp: tx_frames_def)
qed

text \<open>The loop returns, with the output split into the fragments that went out and the rest.\<close>

definition drained :: "('r \<Rightarrow> bytes) \<Rightarrow> kconfig \<Rightarrow> 'r \<times> link \<Rightarrow> 'r \<times> link \<Rightarrow> bool" where
  "drained pend cfg = (\<lambda>(r, l) (r', l'). link_ready cfg l' \<and> (\<exists>cs. pend r = concat cs @ pend r'
      \<and> tx_frames l' = tx_frames l @ map shell_pkt cs \<and> (\<forall>c \<in> set cs. c \<noteq> [] \<and> length c \<le> shell_data_max)))"

lemma drainedI:
  "link_ready cfg l' \<Longrightarrow> pend r = concat cs @ pend r' \<Longrightarrow> tx_frames l' = tx_frames l @ map shell_pkt cs
    \<Longrightarrow> (\<And>c. c \<in> set cs \<Longrightarrow> c \<noteq> [] \<and> length c \<le> shell_data_max) \<Longrightarrow> drained pend cfg (r, l) (r', l')"
  by (auto simp: drained_def)

text \<open>One turn of the loop: it stops, its packet is refused, or its packet is sent and it goes on.\<close>

lemma drain_turn:
  assumes "ro_claim ro shell_data_max r = (c, r1)" "esb_transport_send cfg now addr pipe_data (shell_pkt c) l = (e, l1)"
  shows "esb_transport_shell_backpressure cfg l \<Longrightarrow> out_drain_loop ro cfg now addr r l = Some (r, l)"
    "\<not> esb_transport_shell_backpressure cfg l \<Longrightarrow> c = [] \<Longrightarrow> out_drain_loop ro cfg now addr r l = Some (r1, l)"
    "\<not> esb_transport_shell_backpressure cfg l \<Longrightarrow> c \<noteq> [] \<Longrightarrow> e = Err ENOMEM \<or> e = Err EAGAIN
      \<Longrightarrow> out_drain_loop ro cfg now addr r l = Some (ro_finish ro 0 r1, l1)"
    "\<not> esb_transport_shell_backpressure cfg l \<Longrightarrow> c \<noteq> [] \<Longrightarrow> e = OK
      \<Longrightarrow> out_drain_loop ro cfg now addr r l = out_drain_loop ro cfg now addr (ro_finish ro (length c) r1) l1"
  using assms by (subst out_drain_loop.simps; auto)+

lemma drain_loop_order:
  assumes "byte_stream ro pend" "link_ready cfg l"
  shows "\<exists>r' l'. out_drain_loop ro cfg now addr r l = Some (r', l') \<and> drained pend cfg (r, l) (r', l')"
  using assms(2)
proof (induction "length (pend r)" arbitrary: r l rule: less_induct)
  case less
  obtain c r1 where cl: "ro_claim ro shell_data_max r = (c, r1)" by fastforce
  note c = byte_streamD [OF assms(1) cl]
  obtain e l1 where s: "esb_transport_send cfg now addr pipe_data (shell_pkt c) l = (e, l1)" by fastforce
  note turn = drain_turn [OF cl s]
  have stay: "drained pend cfg (r, l) (r', l')" if "link_ready cfg l'" "pend r' = pend r" "tx_frames l' = tx_frames l" for r' l'
    using that by (intro drainedI [where cs = "[]"]) simp_all
  consider "esb_transport_shell_backpressure cfg l" | "\<not> esb_transport_shell_backpressure cfg l" "c = []"
    | (packet) "\<not> esb_transport_shell_backpressure cfg l" "c \<noteq> []" by blast
  then show ?case
  proof cases
    case packet
    note sent = shell_send [OF less.prems c(1) packet(2) s]
    show ?thesis
    proof (cases "e = OK")
      case True
      then have o: "link_ready cfg l1" "tx_frames l1 = tx_frames l @ [shell_pkt c]" using sent by auto
      let ?r = "ro_finish ro (length c) r1"
      have "length (pend ?r) < length (pend r)" using c(6) packet(2) by (metis length_append length_greater_0_conv less_add_same_cancel2)
      from less.hyps [OF this o(1)] obtain r' l' where
          i: "out_drain_loop ro cfg now addr ?r l1 = Some (r', l')" "drained pend cfg (?r, l1) (r', l')" by blast
      then obtain cs where "link_ready cfg l'" "pend ?r = concat cs @ pend r'"
          "tx_frames l' = tx_frames l1 @ map shell_pkt cs" "\<forall>c \<in> set cs. c \<noteq> [] \<and> length c \<le> shell_data_max"
        by (auto simp: drained_def)
      then have "drained pend cfg (r, l) (r', l')"
        using o(2) c(1,6) packet(2) by (intro drainedI [where cs = "c # cs"]) auto
      with turn(4) [OF packet True] i(1) show ?thesis by simp
    next
      case False
      with sent turn(3) [OF packet] c(5) show ?thesis by (auto intro: stay)
    qed
  qed (use turn(1,2) stay less.prems c(4) in auto)
qed

text \<open>
  C23. The output of the shell reaches the radio's queue in order, without loss or repetition. Given a
  core that is a stream of bytes, the drain returns; the bytes that were pending are the contents of
  the packets it queued, behind everything queued before and at most 30 bytes each, followed by what
  is still pending; and when anything is, the drain is scheduled again.
\<close>

theorem shell_output_in_order:
  fixes s :: "'r shell"
  assumes "byte_stream ro pend" "link_ready cfg l"
  shows "\<exists>s' l' cs. out_drain_work_fn ro sc cfg now addr (s, l) = Some (s', l')
    \<and> pend (sh_core s) = concat cs @ pend (sh_core s')
    \<and> tx_frames l' = tx_frames l @ map shell_pkt cs \<and> (\<forall>c \<in> set cs. c \<noteq> [] \<and> length c \<le> shell_data_max)
    \<and> (sh_active s \<and> pend (sh_core s') \<noteq> [] \<and> \<not> esb_transport_is_quiet now (tr l)
        \<longrightarrow> sh_wq s' W_out_drain = Some (sc_drain_retry_ms sc))"
proof -
  obtain r l' where d: "out_drain_loop ro cfg now addr (sh_core s) l = Some (r, l')" "drained pend cfg (sh_core s, l) (r, l')"
    using drain_loop_order [OF assms] by blast
  have z: "0 < ro_size ro r \<longleftrightarrow> pend r \<noteq> []" using assms(1) by (simp add: byte_stream_def)
  have t: "sh_core (sh_resched w q s) = sh_core s" "sh_wq (sh_resched w q s) w = Some q" for w q and s :: "'r shell"
    by (simp_all add: sh_resched_def)
  show ?thesis
  proof (cases "\<not> sh_active s \<or> esb_transport_is_quiet now (tr l)")
    case True
    then show ?thesis by (auto simp: out_drain_work_fn_def t intro!: exI [of _ "[]"])
  next
    case False
    with d show ?thesis by (auto simp: out_drain_work_fn_def drained_def z t Let_def)
  qed
qed

definition demo_shell_cfg :: shell_cfg where
  "demo_shell_cfg = \<lparr>sc_poll_ms = 20, sc_initial_poll_ms = 20, sc_inactivity_s = 60, sc_cmd_buf = 256, sc_drain_retry_ms = 5,
     sc_stdout_bytes = 96, sc_stdout_ms = 5, sc_bg_poll = True, sc_bg_poll_ms = 100, sc_bg_threshold_ms = 5000,
     sc_nudge_ms = 5000, sc_prompt = [0x3E]\<rparr>"

definition demo_relay_ops :: "bytes relay_ops" where
  "demo_relay_ops = \<lparr>ro_enqueue = (\<lambda>d r. r @ d), ro_claim = (\<lambda>n r. (take n r, r)), ro_finish = drop, ro_size = length,
     ro_reset = (\<lambda>r. []), ro_reset_cmds = id, ro_queue_cmd = (\<lambda>c r. r), ro_attach = id, ro_detach = id\<rparr>"

theorem shell_output_in_order_witness:
  "\<exists>s' l'. out_drain_work_fn demo_relay_ops demo_shell_cfg default_kconfig 700 0x20001000
       ((shell_boot (replicate 40 0x41))\<lparr>sh_active := True\<rparr>, up_link) = Some (s', l')
     \<and> (sh_core s' = [] \<or> sh_wq s' W_out_drain = Some 5)"
proof -
  have "byte_stream demo_relay_ops id"
    by (auto simp: byte_stream_def demo_relay_ops_def) (metis append_take_drop_id)
  moreover have "link_ready default_kconfig up_link" by (simp add: link_ready_def up_link_wf)
  moreover have "\<not> esb_transport_is_quiet 700 (tr up_link)" by (simp add: esb_transport_is_quiet_def)
  ultimately show ?thesis
    using shell_output_in_order [where ro = demo_relay_ops and pend = id and l = up_link and cfg = default_kconfig
        and now = 700 and addr = "0x20001000" and sc = demo_shell_cfg and s = "(shell_boot (replicate 40 0x41))\<lparr>sh_active := True\<rparr>"]
    by (auto simp: demo_shell_cfg_def)
qed

section \<open>Sessions\<close>

text \<open>
  An open session polls and, unless that is configured off, has its inactivity timer running; a closed
  one has neither, and nothing of its output is left behind.
\<close>

definition shell_ok :: "shell_cfg \<Rightarrow> 'r shell \<Rightarrow> bool" where
  "shell_ok sc s \<longleftrightarrow> length (cmd_buf s) \<le> sc_cmd_buf sc - 1 \<and> length (stdout_buf s) \<le> sc_stdout_bytes sc \<and> \<not> in_log_emit s
     \<and> (if sh_active s
        then sh_wq s W_shell_poll \<noteq> None \<and> (0 < sc_inactivity_s sc \<longrightarrow> sh_wq s W_inactivity \<noteq> None)
        else sh_wq s W_shell_poll = None \<and> sh_wq s W_inactivity = None \<and> sh_wq s W_stdout_flush = None \<and> stdout_buf s = [])"

text \<open>What the relay does by itself: its work items, which are off their queue while they run, the log,
  the standard output, the callbacks of the core and of the transport, and the core at work.\<close>

inductive shell_internal ::
  "'r relay_ops \<Rightarrow> shell_cfg \<Rightarrow> kconfig \<Rightarrow> 'r shell \<times> link \<Rightarrow> 'r shell \<times> link \<Rightarrow> bool" for ro sc cfg where
  sh_poll: "sh_wq s W_shell_poll \<noteq> None
    \<Longrightarrow> shell_internal ro sc cfg (s, l) (shell_poll_work_fn sc cfg now addr (sh_cancel W_shell_poll s, l))"
| sh_inactive: "sh_wq s W_inactivity \<noteq> None
    \<Longrightarrow> shell_internal ro sc cfg (s, l) (inactivity_work_fn ro cfg now addr (sh_cancel W_inactivity s, l))"
| sh_drain: "sh_wq s W_out_drain \<noteq> None \<Longrightarrow> out_drain_work_fn ro sc cfg now addr (sh_cancel W_out_drain s, l) = Some t
    \<Longrightarrow> shell_internal ro sc cfg (s, l) t"
| sh_flush: "sh_wq s W_stdout_flush \<noteq> None
    \<Longrightarrow> shell_internal ro sc cfg (s, l) (stdout_flush_work_fn ro (sh_cancel W_stdout_flush s), l)"
| sh_bg: "sh_wq s W_bg_poll \<noteq> None
    \<Longrightarrow> shell_internal ro sc cfg (s, l) (bg_poll_work_fn sc cfg now addr (sh_cancel W_bg_poll s, l))"
| sh_hook: "stdout_hooked s \<Longrightarrow> shell_internal ro sc cfg (s, l) (esb_stdout_hook sc c s, l)"
| sh_log: "shell_internal ro sc cfg (s, l) (esb_log_backend_process ro chunks s, l)"
| sh_dropped: "shell_internal ro sc cfg (s, l) (esb_log_backend_dropped ro chunks s, l)"
| sh_panic: "shell_internal ro sc cfg (s, l) (esb_log_backend_panic ro rest s, l)"
| sh_ready: "shell_internal ro sc cfg (s, l) (esb_out_data_ready s, l)"
| sh_cmd_done: "shell_internal ro sc cfg (s, l) (esb_cmd_done ro sc s, l)"
| sh_tx: "shell_internal ro sc cfg (s, l) (esb_shell_relay_notify_tx ro s, l)"
| sh_core_runs: "shell_internal ro sc cfg (s, l) (on_core f s, l)"

text \<open>These and the calls of the pairing and of the control thread.\<close>

inductive shell_step ::
  "'r relay_ops \<Rightarrow> shell_cfg \<Rightarrow> kconfig \<Rightarrow> 'r shell \<times> link \<Rightarrow> 'r shell \<times> link \<Rightarrow> bool" for ro sc cfg where
  sh_internal: "shell_internal ro sc cfg t t' \<Longrightarrow> shell_step ro sc cfg t t'"
| sh_rx: "shell_step ro sc cfg (s, l) (shell_on_rx ro sc cfg now addr uptime stale data (s, l))"
| sh_connected: "shell_step ro sc cfg (s, l) (esb_shell_relay_on_connected ro sc s, l)"
| sh_disconnected: "shell_step ro sc cfg (s, l) (esb_shell_relay_on_disconnected ro sc s, l)"
| sh_activate: "shell_step ro sc cfg (s, l) (esb_shell_relay_on_activate active s, l)"
| sh_deactivate: "shell_step ro sc cfg (s, l) (esb_shell_relay_on_deactivate s, l)"

named_theorems shell_defs \<open>definitions of the shell relay's steps\<close>

lemmas [shell_defs] = sh_resched_def sh_cancel_def on_core_def out_drain_kick_def out_enqueue_def send_prompt_def
  esb_out_data_ready_def esb_cmd_done_def esb_shell_relay_notify_tx_def stdout_buf_reset_def stdout_flush_work_fn_def
  esb_stdout_hook_def log_out_func_def esb_shell_relay_on_activate_def esb_shell_relay_on_deactivate_def drop_session_def
  shell_poll_work_fn_def inactivity_work_fn_def bg_poll_work_fn_def esb_shell_relay_on_connected_def
  esb_shell_relay_on_disconnected_def restart_inactivity_def esb_shell_relay_on_req_def

text \<open>What output, logging and draining leave alone.\<close>

definition session :: "'r shell \<Rightarrow> bool \<times> bytes \<times> bytes \<times> bool \<times> u32 option \<times> u32 option \<times> u32 option" where
  "session s = (sh_active s, cmd_buf s, stdout_buf s, in_log_emit s, sh_wq s W_shell_poll, sh_wq s W_inactivity, sh_wq s W_stdout_flush)"

lemma shell_ok_session: "session s' = session s \<Longrightarrow> shell_ok sc s' = shell_ok sc s"
  by (simp add: session_def shell_ok_def)

lemma session_output [simp]:
  "session (out_drain_kick s) = session s" "session (out_enqueue ro d s) = session s" "session (send_prompt ro sc s) = session s"
  "session (on_core f s) = session s" "session (esb_out_data_ready s) = session s" "session (esb_cmd_done ro sc s) = session s"
  "session (esb_shell_relay_notify_tx ro s) = session s" "session (log_out_func ro d s) = session s"
  "session (esb_shell_relay_on_activate a s) = session s" "session (esb_shell_relay_on_deactivate s) = session s"
  "session (sh_resched W_out_drain q s) = session s" "session (sh_cancel W_out_drain s) = session s"
  "session (sh_resched W_bg_poll q s) = session s" "session (sh_cancel W_bg_poll s) = session s"
  by (simp_all add: session_def shell_defs)

lemma session_drain: "out_drain_work_fn ro sc cfg now addr (s, l) = Some (s', l') \<Longrightarrow> session s' = session s"
  by (auto simp: out_drain_work_fn_def session_def sh_resched_def Let_def split: if_splits option.splits)

lemma session_chunks [simp]: "session (fold (log_out_func ro) chunks s) = session s"
  by (induction chunks arbitrary: s) simp_all

lemma session_log:
  "\<not> in_log_emit s \<Longrightarrow> session (esb_log_backend_process ro chunks s) = session s"
proof -
  have g: "session (t\<lparr>in_log_emit := b\<rparr>) = session (s\<lparr>in_log_emit := b\<rparr>)" if "session t = session (s\<lparr>in_log_emit := c\<rparr>)" for t b c
    using that by (simp add: session_def)
  assume "\<not> in_log_emit s"
  then have "session (s\<lparr>in_log_emit := False\<rparr>) = session s" by (simp add: session_def)
  moreover have "session ((fold (log_out_func ro) chunks t)\<lparr>in_log_emit := False\<rparr>) = session (s\<lparr>in_log_emit := False\<rparr>)"
    if "session t = session (s\<lparr>in_log_emit := True\<rparr>)" for t
    using that by (intro g [of _ True]) simp
  ultimately show ?thesis by (simp add: esb_log_backend_process_def Let_def)
qed

lemma shell_ok_edit:
  assumes "sh_active s" "shell_ok sc s"
  shows "sh_active (snd (fold (edit_byte ro sc) data (need, s))) \<and> shell_ok sc (snd (fold (edit_byte ro sc) data (need, s)))"
  using assms
proof (induction data arbitrary: need s)
  case (Cons b data)
  have "sh_active (snd (edit_byte ro sc b (need, s))) \<and> shell_ok sc (snd (edit_byte ro sc b (need, s)))"
    using Cons.prems by (auto simp: edit_byte_def shell_ok_def on_core_def out_enqueue_def)
  then show ?case using Cons.IH by (cases "edit_byte ro sc b (need, s)") simp
qed simp

lemma shell_ok_data:
  assumes "shell_ok sc s"
  shows "shell_ok sc (fst (esb_shell_relay_on_data ro sc cfg now addr uptime data (s, l)))"
proof -
  have r: "shell_ok sc (restart_inactivity sc s)" "sh_active (restart_inactivity sc s) = sh_active s" if "sh_active s"
    using that assms by (simp_all add: restart_inactivity_def sh_resched_def shell_ok_def)
  have k: "shell_ok sc (out_drain_kick t) = shell_ok sc t" for t :: "'a shell" by (rule shell_ok_session) simp
  have n: "shell_ok sc (s\<lparr>last_nudge_ms := u\<rparr>)" for u using assms by (simp add: shell_ok_def)
  show ?thesis
  proof (cases "sh_active s")
    case True
    with assms r shell_ok_edit [of "restart_inactivity sc s" sc ro data False] show ?thesis
      by (simp add: esb_shell_relay_on_data_def split_beta Let_def k)
  next
    case False
    with assms n show ?thesis by (simp add: esb_shell_relay_on_data_def)
  qed
qed

lemma shell_ok_calls:
  assumes "shell_ok sc s"
  shows "shell_ok sc (esb_shell_relay_on_req ro sc s)" "shell_ok sc (esb_shell_relay_on_connected ro sc s)"
    "shell_ok sc (esb_shell_relay_on_disconnected ro sc s)" "shell_ok sc (esb_stdout_hook sc c s)"
    "shell_ok sc (fst (inactivity_work_fn ro cfg now addr (sh_cancel W_inactivity s, l)))"
    "shell_ok sc (stdout_flush_work_fn ro (sh_cancel W_stdout_flush s))"
    "sh_wq s W_shell_poll \<noteq> None \<Longrightarrow> shell_ok sc (fst (shell_poll_work_fn sc cfg now addr (sh_cancel W_shell_poll s, l)))"
proof -
  have p: "shell_ok sc (send_prompt ro sc t) = shell_ok sc t" for t :: "'a shell" by (rule shell_ok_session) simp
  show "shell_ok sc (esb_shell_relay_on_req ro sc s)"
    using assms by (simp add: esb_shell_relay_on_req_def p Let_def) (auto simp: shell_ok_def shell_defs)
  show "shell_ok sc (esb_shell_relay_on_connected ro sc s)" "shell_ok sc (esb_shell_relay_on_disconnected ro sc s)"
    "shell_ok sc (esb_stdout_hook sc c s)"
    "shell_ok sc (fst (inactivity_work_fn ro cfg now addr (sh_cancel W_inactivity s, l)))"
    using assms by (auto simp: shell_ok_def shell_defs Let_def)
  show "shell_ok sc (stdout_flush_work_fn ro (sh_cancel W_stdout_flush s))"
    using assms by (auto simp: shell_ok_def shell_defs Let_def)
  show "shell_ok sc (fst (shell_poll_work_fn sc cfg now addr (sh_cancel W_shell_poll s, l)))" if "sh_wq s W_shell_poll \<noteq> None"
    using assms that by (auto simp: shell_ok_def shell_defs)
qed

lemma shell_ok_internal:
  assumes "shell_internal ro sc cfg t t'" "shell_ok sc (fst t)"
  shows "shell_ok sc (fst t')"
  using assms
proof cases
  case (sh_bg s l now addr)
  have "session (fst (bg_poll_work_fn sc cfg now addr (sh_cancel W_bg_poll s, l))) = session s"
    by (simp add: bg_poll_work_fn_def)
  with sh_bg assms(2) show ?thesis using shell_ok_session by (metis fst_conv)
next
  case (sh_drain s now addr l)
  then have "session (fst t') = session s" using session_drain [of ro sc cfg now addr "sh_cancel W_out_drain s" l "fst t'" "snd t'"] by simp
  with sh_drain assms(2) show ?thesis using shell_ok_session by (metis fst_conv)
next
  case (sh_log s l chunks)
  then have "\<not> in_log_emit s" using assms(2) by (simp add: shell_ok_def)
  from shell_ok_session [OF session_log [OF this]] sh_log assms(2) show ?thesis by simp
qed (use assms(2) in \<open>simp_all add: shell_ok_calls shell_ok_session [OF session_output(5)] shell_ok_session [OF session_output(6)]
    shell_ok_session [OF session_output(7)] shell_ok_session [OF session_output(4)] shell_ok_session [OF session_chunks]
    esb_log_backend_dropped_def esb_log_backend_panic_def\<close>)

lemma shell_ok_rx:
  "shell_ok sc s \<Longrightarrow> shell_ok sc (fst (shell_on_rx ro sc cfg now addr uptime stale data (s, l)))"
  by (simp add: shell_on_rx_def shell_ok_calls shell_ok_data)

lemma shell_ok_step:
  assumes "shell_step ro sc cfg t t'" "shell_ok sc (fst t)"
  shows "shell_ok sc (fst t')"
  using assms
proof cases
  case sh_internal
  with assms(2) show ?thesis by (rule shell_ok_internal [rotated])
qed (use assms(2) in \<open>simp_all add: shell_ok_rx shell_ok_calls shell_ok_session [OF session_output(9)] shell_ok_session [OF session_output(10)]\<close>)

interpretation shell_kept: step_invariant "shell_step ro sc cfg" "\<lambda>t. shell_ok sc (fst t)" for ro sc cfg
  by unfold_locales (rule shell_ok_step)

text \<open>
  From boot, whatever the dongle, the keyboard and the core do in whatever order, an open session
  keeps polling and its inactivity timer stays armed, so that it cannot hang; a closed session has no
  poll and no timer left, and no output of the old session goes into the next; and the line and the
  output buffer never overflow.
\<close>

lemma shell_session_invariant:
  fixes ro :: "'r relay_ops"
  assumes "(shell_step ro sc cfg)\<^sup>*\<^sup>* (shell_boot r, l0) (s, l)"
  shows "length (cmd_buf s) \<le> sc_cmd_buf sc - 1 \<and> length (stdout_buf s) \<le> sc_stdout_bytes sc \<and> \<not> in_log_emit s
    \<and> (sh_active s \<longrightarrow> sh_wq s W_shell_poll \<noteq> None \<and> (0 < sc_inactivity_s sc \<longrightarrow> sh_wq s W_inactivity \<noteq> None))
    \<and> (\<not> sh_active s \<longrightarrow> sh_wq s W_shell_poll = None \<and> sh_wq s W_inactivity = None \<and> sh_wq s W_stdout_flush = None
        \<and> stdout_buf s = [])"
proof -
  have "shell_ok sc (fst (shell_boot r, l0))" by (simp add: shell_ok_def shell_boot_def no_work_def)
  with assms have "shell_ok sc (fst (s, l))" by (rule shell_kept.reached_keeps)
  then show ?thesis by (simp add: shell_ok_def split: if_splits)
qed

section \<open>The line editor\<close>

definition line_byte :: "u8 \<Rightarrow> bool" where
  "line_byte b \<longleftrightarrow> b \<notin> {0x0A, 0x0D, 0x7F, 0x08}"

lemma edit_typed:
  assumes "\<forall>b \<in> set bs. line_byte b" "length (cmd_buf s) + length bs \<le> sc_cmd_buf sc - 1"
  shows "fold (edit_byte ro sc) bs (need, s) = (need, s\<lparr>cmd_buf := cmd_buf s @ bs\<rparr>)"
  using assms by (induction bs arbitrary: s) (auto simp: edit_byte_def line_byte_def)

lemma edit_erased:
  assumes "k \<le> length (cmd_buf s)"
  shows "\<exists>need' b. (edit_byte ro sc 0x7F ^^ k) (need, s)
    = (need', s\<lparr>cmd_buf := take (length (cmd_buf s) - k) (cmd_buf s), sh_core := (ro_enqueue ro line_erase ^^ k) (sh_core s), at_line_start := b\<rparr>)"
  using assms
proof (induction k arbitrary: need s)
  case (Suc k)
  let ?s = "out_enqueue ro line_erase (s\<lparr>cmd_buf := butlast (cmd_buf s)\<rparr>)"
  have e: "edit_byte ro sc 0x7F (need, s) = (True, ?s)" using Suc.prems by (auto simp: edit_byte_def)
  have p: "cmd_buf ?s = butlast (cmd_buf s)" "sh_core ?s = ro_enqueue ro line_erase (sh_core s)"
    by (simp_all add: out_enqueue_def on_core_def line_erase_def)
  have "k \<le> length (cmd_buf ?s)" using Suc.prems p by simp
  from Suc.IH [OF this, of True] obtain need' b where
    i: "(edit_byte ro sc 0x7F ^^ k) (True, ?s)
      = (need', ?s\<lparr>cmd_buf := take (length (cmd_buf ?s) - k) (cmd_buf ?s), sh_core := (ro_enqueue ro line_erase ^^ k) (sh_core ?s), at_line_start := b\<rparr>)"
    by blast
  have t: "take (length (cmd_buf s) - Suc k) (butlast (cmd_buf s)) = take (length (cmd_buf s) - Suc k) (cmd_buf s)"
    by (simp add: take_butlast butlast_conv_take min_def)
  have "(edit_byte ro sc 0x7F ^^ Suc k) (need, s)
      = (need', s\<lparr>cmd_buf := take (length (cmd_buf s) - Suc k) (cmd_buf s), sh_core := (ro_enqueue ro line_erase ^^ Suc k) (sh_core s), at_line_start := b\<rparr>)"
    using i by (simp add: e p t funpow_swap1 funpow_Suc_right del: funpow.simps(2)) (simp add: out_enqueue_def on_core_def line_erase_def t)
  then show ?case by blast
next
  case (0 need s)
  show ?case by (rule exI [of _ need], rule exI [of _ "at_line_start s"]) simp
qed

lemma edited_line:
  fixes ro :: "'r relay_ops" and cfg :: kconfig and now addr :: u32 and uptime :: int and l :: link
  assumes "sh_active s" "cmd_buf s = []" "\<forall>b \<in> set (xs @ ys). line_byte b"
    and "length xs \<le> sc_cmd_buf sc - 1" "k \<le> length xs" "length xs - k + length ys \<le> sc_cmd_buf sc - 1"
  defines "line \<equiv> take (length xs - k) xs @ ys" and "echo \<equiv> ro_enqueue ro line_erase ^^ k"
    and "s' \<equiv> fst (esb_shell_relay_on_data ro sc cfg now addr uptime (xs @ replicate k 0x7F @ ys @ [0x0D]) (s, l))"
  shows "cmd_buf s' = [] \<and> sh_core s' = (if line = [] then echo (sh_core s) else ro_queue_cmd ro line (echo (sh_core s)))"
proof -
  let ?t = "(restart_inactivity sc s)\<lparr>cmd_buf := xs\<rparr>"
  have p: "cmd_buf (restart_inactivity sc s) = []" "sh_core (restart_inactivity sc s) = sh_core s"
    using assms(2) by (simp_all add: restart_inactivity_def sh_resched_def)
  have x: "fold (edit_byte ro sc) xs (False, restart_inactivity sc s) = (False, ?t)"
    using edit_typed [of xs "restart_inactivity sc s" sc ro False] assms(3,4) p by simp
  obtain need b where "(edit_byte ro sc 0x7F ^^ k) (False, ?t)
      = (need, ?t\<lparr>cmd_buf := take (length xs - k) xs, sh_core := echo (sh_core s), at_line_start := b\<rparr>)"
    using edit_erased [of k ?t ro sc False] assms(5) by (auto simp: echo_def p)
  then obtain u where e: "(edit_byte ro sc 0x7F ^^ k) (False, ?t) = (need, u)"
      and u: "cmd_buf u = take (length xs - k) xs" "sh_core u = echo (sh_core s)" by simp
  have y: "fold (edit_byte ro sc) ys (need, u) = (need, u\<lparr>cmd_buf := line\<rparr>)"
    using edit_typed [of ys u sc ro need] assms(3,6) u by (auto simp: line_def)
  have "s' = (let v = snd (edit_byte ro sc 0x0D (need, u\<lparr>cmd_buf := line\<rparr>))
      in if fst (edit_byte ro sc 0x0D (need, u\<lparr>cmd_buf := line\<rparr>)) then out_drain_kick v else v)"
    using assms(1) by (simp add: s'_def esb_shell_relay_on_data_def x e y split_beta Let_def)
  then show ?thesis by (simp add: edit_byte_def on_core_def out_drain_kick_def sh_resched_def u Let_def)
qed

text \<open>
  C40. What is typed into an open session, partly erased and typed again arrives as one command: the
  erased bytes are gone, each with one erasure in the echo, and the rest is in order; a line that was
  erased completely is no command. The line buffer is empty afterwards.
\<close>

theorem command_line_edited:
  assumes "sh_active s" "cmd_buf s = []" "\<forall>b \<in> set (xs @ ys). line_byte b"
    and "length xs \<le> sc_cmd_buf sc - 1" "k \<le> length xs" "length xs - k + length ys \<le> sc_cmd_buf sc - 1"
  shows "let line = take (length xs - k) xs @ ys;
             echoed = (ro_enqueue ro line_erase ^^ k) (sh_core s);
             s' = fst (esb_shell_relay_on_data ro sc cfg now addr uptime (xs @ replicate k 0x7F @ ys @ [0x0D]) (s, l))
    in cmd_buf s' = [] \<and> sh_core s' = (if line = [] then echoed else ro_queue_cmd ro line echoed)"
  using edited_line [OF assms, where ro = ro and cfg = cfg and now = now and addr = addr and uptime = uptime and l = l]
  by (simp add: Let_def)

theorem command_line_edited_witness:
  "sh_core (fst (esb_shell_relay_on_data (demo_relay_ops\<lparr>ro_queue_cmd := (\<lambda>c r. r @ c)\<rparr>) demo_shell_cfg default_kconfig 7 8 9
       [0x61, 0x62, 0x7F, 0x63, 0x0D] ((shell_boot [])\<lparr>sh_active := True\<rparr>, up_link))) = [0x08, 0x20, 0x08, 0x61, 0x63]"
  using command_line_edited [where ro = "demo_relay_ops\<lparr>ro_queue_cmd := (\<lambda>c r. r @ c)\<rparr>" and sc = demo_shell_cfg
      and cfg = default_kconfig and now = 7 and addr = 8 and uptime = 9 and l = up_link and xs = "[0x61, 0x62]" and k = 1
      and ys = "[0x63]" and s = "(shell_boot [])\<lparr>sh_active := True\<rparr>"]
  by (simp add: shell_boot_def demo_shell_cfg_def demo_relay_ops_def line_byte_def line_erase_def Let_def)

text \<open>
  A session that ends by inactivity does not resume the background polls that its start withdrew: until
  the next connection the dongle reaches the keyboard only behind other traffic.
\<close>

lemma bg_poll_not_resumed:
  assumes "\<not> sh_active s" "sc_bg_poll sc"
  shows "\<not> sh_active (fst (inactivity_work_fn ro cfg now addr (sh_cancel W_inactivity (esb_shell_relay_on_req ro sc s), l)))
    \<and> sh_wq (fst (inactivity_work_fn ro cfg now addr (sh_cancel W_inactivity (esb_shell_relay_on_req ro sc s), l))) W_bg_poll = None"
  using assms by (simp add: shell_defs Let_def)

text \<open>The length byte of a fragment is trusted: a short frame types what an earlier frame left behind.\<close>

lemma stale_bytes_typed:
  assumes "0 < n" "unat n \<le> shell_data_max"
  shows "shell_on_rx ro sc cfg now addr uptime stale [pkt_shell_data, n] (s, l)
    = esb_shell_relay_on_data ro sc cfg now addr uptime (take (unat n) stale) (s, l)"
  using assms by (simp add: shell_on_rx_def)

end
