(* ===== verification/RelayBuild.thy ===== *)
theory RelayBuild
  imports ShellRelay Endpoint
begin

text \<open>
  The build with the shell relay: where the other components call it. \<open>pairing.c\<close> tells it when the
  link comes and goes and hands it two packets, the event callback of \<open>esb_transport.c\<close> tells it that
  the transmit queue moved, the control thread of \<open>esb_endpoint.c\<close> hooks and unhooks the standard
  output. The hooks of the relay touch neither pairing nor link, so that each handler is the one of
  the build without the relay, next to the hook at its guard. Behind it, the keymap behaviours
  (\<open>src/src/behaviors\<close>).
\<close>

section \<open>Pairing with its hooks\<close>

type_synonym 'r relay_state = "'r shell \<times> pairing \<times> link"

definition relay_pair_req ::
  "'r relay_ops \<Rightarrow> shell_cfg \<Rightarrow> kconfig \<Rightarrow> u32 \<Rightarrow> u32 \<Rightarrow> bytes \<Rightarrow> 'r relay_state \<Rightarrow> 'r relay_state" where
  "relay_pair_req ro sc cfg now addr data = (\<lambda>(s, p, l).
     (if p_state p = PAIRING_STATE_UNPAIRED \<and> 7 \<le> length data then esb_shell_relay_on_connected ro sc s else s,
      on_pair_req cfg now addr data (p, l)))"

definition relay_verify_resp ::
  "'r relay_ops \<Rightarrow> shell_cfg \<Rightarrow> kconfig \<Rightarrow> u32 \<Rightarrow> bytes \<Rightarrow> 'r relay_state \<Rightarrow> 'r relay_state" where
  "relay_verify_resp ro sc cfg now data = (\<lambda>(s, p, l).
     (if p_state p = PAIRING_STATE_VERIFYING \<and> 7 \<le> length data \<and> take 6 (drop 1 data) = p_peer_id p
      then esb_shell_relay_on_connected ro sc s else s,
      on_verify_resp cfg now data (p, l)))"

definition relay_disconnect :: "'r relay_ops \<Rightarrow> shell_cfg \<Rightarrow> kconfig \<Rightarrow> 'r relay_state \<Rightarrow> 'r relay_state" where
  "relay_disconnect ro sc cfg = (\<lambda>(s, p, l). (esb_shell_relay_on_disconnected ro sc s, on_disconnect cfg (p, l)))"

definition relay_resync :: "'r relay_ops \<Rightarrow> shell_cfg \<Rightarrow> 'r relay_state \<Rightarrow> 'r relay_state" where
  "relay_resync ro sc = (\<lambda>(s, p, l).
     (if p_state p = PAIRING_STATE_CONNECTED then esb_shell_relay_on_disconnected ro sc s else s, on_resync (p, l)))"

definition relay_pairing_stop :: "'r relay_ops \<Rightarrow> shell_cfg \<Rightarrow> 'r relay_state \<Rightarrow> 'r relay_state" where
  "relay_pairing_stop ro sc = (\<lambda>(s, p, l). (esb_shell_relay_on_disconnected ro sc s, pairing_stop (p, l)))"

definition relay_pairing_unpair :: "kconfig \<Rightarrow> 'r relay_state \<Rightarrow> 'r relay_state" where
  "relay_pairing_unpair cfg = (\<lambda>(s, p, l). (s, pairing_unpair cfg p, l))"

definition relay_on_rx ::
  "'r relay_ops \<Rightarrow> shell_cfg \<Rightarrow> kconfig \<Rightarrow> u32 \<Rightarrow> u32 \<Rightarrow> int \<Rightarrow> bytes \<Rightarrow> bytes \<Rightarrow> 'r relay_state \<Rightarrow> 'r relay_state" where
  "relay_on_rx ro sc cfg now addr uptime stale data = (\<lambda>(s, p, l).
     if length data < 1 then (s, p, l)
     else let t = data ! 0 in
       if t = pkt_pair_req then relay_pair_req ro sc cfg now addr data (s, p, l)
       else if t = pkt_verify_resp then relay_verify_resp ro sc cfg now data (s, p, l)
       else if t = pkt_disconnect then relay_disconnect ro sc cfg (s, p, l)
       else if t = pkt_resync then relay_resync ro sc (s, p, l)
       else if t = pkt_shell_req \<or> t = pkt_shell_data
         then (let (s', l') = shell_on_rx ro sc cfg now addr uptime stale data (s, l) in (s', p, l'))
       else (s, pairing_on_rx cfg now addr data (p, l)))"

section \<open>Transport and control thread with their hooks\<close>

text \<open>The end of a packet of a side trip does not reach the relay.\<close>

definition relay_transport_evt :: "'r relay_ops \<Rightarrow> kconfig \<Rightarrow> u32 \<Rightarrow> esb_evt \<Rightarrow> 'r shell \<times> link \<Rightarrow> 'r shell \<times> link" where
  "relay_transport_evt ro cfg now ev = (\<lambda>(s, l).
     (if ev = Rx_Received \<or> sync_in_progress (tr l) then s else esb_shell_relay_notify_tx ro s,
      zmk_esb_transport_evt_cb cfg now ev l))"

definition relay_ctrl_settled :: "kconfig \<Rightarrow> 'r shell \<times> endpoint \<times> pairing \<times> link \<Rightarrow> 'r shell \<times> endpoint \<times> pairing \<times> link" where
  "relay_ctrl_settled cfg = (\<lambda>(s, t).
     let t' = ctrl_settled cfg t in (esb_shell_relay_on_activate (esb_active (fst t')) s, t'))"

definition relay_ctrl_deactivate ::
  "'r relay_ops \<Rightarrow> shell_cfg \<Rightarrow> ctrl_cmd list \<Rightarrow> 'r shell \<times> endpoint \<times> pairing \<times> link \<Rightarrow> 'r shell \<times> endpoint \<times> pairing \<times> link" where
  "relay_ctrl_deactivate ro sc rest = (\<lambda>(s, e, p, l).
     let (s', p', l') = relay_pairing_stop ro sc (esb_shell_relay_on_deactivate s, p, esb_transport_on_slot_stop l)
     in (s', e\<lparr>ctrl_msgq := rest, esb_active := False\<rparr>, p', on_tr esb_transport_deinit l'))"

section \<open>The keymap behaviours\<close>

text \<open>
  \<open>select\<close> is ZMK's \<open>zmk_ble_prof_select\<close>, with the state it works on; \<open>binding_pressed\<close> answers
  \<open>ZMK_BEHAVIOR_OPAQUE\<close>, which is 0.
\<close>

definition esb_goto_pressed :: "ep_cfg \<Rightarrow> (nat \<Rightarrow> 's \<Rightarrow> 's) \<Rightarrow> 's \<Rightarrow> nat \<times> 's" where
  "esb_goto_pressed ec select s = (0, select (ec_profile_count ec - 1) s)"

definition esb_unpair_pressed :: "kconfig \<Rightarrow> pairing \<Rightarrow> nat \<times> pairing" where
  "esb_unpair_pressed cfg p = (0, pairing_unpair cfg p)"

definition esb_shell_req_pressed :: "kconfig \<Rightarrow> u32 \<Rightarrow> u32 \<Rightarrow> endpoint \<Rightarrow> 'r shell \<Rightarrow> link \<Rightarrow> nat \<times> link" where
  "esb_shell_req_pressed cfg now addr e s l = (0, snd (esb_shell_relay_request cfg now addr (esb_active e) s l))"

section \<open>Runs\<close>

text \<open>
  Everything that happens to relay, pairing and link. With \<open>hand\<close> somebody may unpair by hand, from the
  keymap or the shell, and an activation may find the pairing running (see \<open>second_activation_restarts_pairing\<close>);
  without, neither happens.
\<close>

inductive relay_step ::
  "bool \<Rightarrow> 'r relay_ops \<Rightarrow> shell_cfg \<Rightarrow> kconfig \<Rightarrow> 'r relay_state \<Rightarrow> 'r relay_state \<Rightarrow> bool" for hand ro sc cfg where
  rl_shell: "shell_internal ro sc cfg (s, l) (s', l') \<Longrightarrow> relay_step hand ro sc cfg (s, p, l) (s', p, l')"
| rl_rx: "relay_step hand ro sc cfg t (relay_on_rx ro sc cfg now addr uptime stale data t)"
| rl_beacon: "relay_step hand ro sc cfg (s, p, l) (s, beacon_work_fn cfg now addr (p_cancel W_beacon p, l))"
| rl_verify: "relay_step hand ro sc cfg (s, p, l) (s, verify_work_fn cfg now addr (p_cancel W_verify p, l))"
| rl_evt: "relay_step hand ro sc cfg (s, p, l)
    (let (s', l') = relay_transport_evt ro cfg now ev (s, l) in (s', p, l'))"
| rl_start: "hand \<or> p_state p = PAIRING_STATE_IDLE \<Longrightarrow> relay_ctrl_settled cfg (s, e, p, l) = (s', e', t)
    \<Longrightarrow> relay_step hand ro sc cfg (s, p, l) (s', t)"
| rl_stop: "relay_ctrl_deactivate ro sc rest (s, e, p, l) = (s', e', t) \<Longrightarrow> relay_step hand ro sc cfg (s, p, l) (s', t)"
| rl_unpair: "hand \<Longrightarrow> relay_step hand ro sc cfg t (relay_pairing_unpair cfg t)"
| rl_link: "relay_step hand ro sc cfg (s, p, l) (s, p, l')"

text \<open>An idle relay polls only when the build has the polls, and only over a link unless \<open>hand\<close> interfered.\<close>

definition polls_over_link :: "bool \<Rightarrow> shell_cfg \<Rightarrow> 'r shell \<Rightarrow> pairing \<Rightarrow> bool" where
  "polls_over_link hand sc s p \<longleftrightarrow> (sh_wq s W_bg_poll \<noteq> None \<longrightarrow> sc_bg_poll sc \<and> (hand \<or> p_state p = PAIRING_STATE_CONNECTED))"

named_theorems bg_poll_simps \<open>what the relay's operations do to the background poll\<close>

lemma bg_frame [bg_poll_simps]:
  "sh_wq (out_drain_kick s) W_bg_poll = sh_wq s W_bg_poll" "sh_wq (out_enqueue ro d s) W_bg_poll = sh_wq s W_bg_poll"
  "sh_wq (send_prompt ro sc s) W_bg_poll = sh_wq s W_bg_poll" "sh_wq (on_core f s) W_bg_poll = sh_wq s W_bg_poll"
  "sh_wq (drop_session ro s) W_bg_poll = sh_wq s W_bg_poll" "sh_wq (restart_inactivity sc s) W_bg_poll = sh_wq s W_bg_poll"
  "sh_wq (log_out_func ro d s) W_bg_poll = sh_wq s W_bg_poll" "sh_wq (esb_stdout_hook sc c s) W_bg_poll = sh_wq s W_bg_poll"
  "sh_wq (stdout_flush_work_fn ro (sh_cancel W_stdout_flush s)) W_bg_poll = sh_wq s W_bg_poll"
  "sh_wq (esb_out_data_ready s) W_bg_poll = sh_wq s W_bg_poll" "sh_wq (esb_cmd_done ro sc s) W_bg_poll = sh_wq s W_bg_poll"
  "sh_wq (esb_shell_relay_notify_tx ro s) W_bg_poll = sh_wq s W_bg_poll"
  "sh_wq (esb_shell_relay_on_activate a s) W_bg_poll = sh_wq s W_bg_poll"
  "sh_wq (esb_shell_relay_on_deactivate s) W_bg_poll = sh_wq s W_bg_poll"
  "sh_wq (fst (shell_poll_work_fn sc cfg now addr (sh_cancel W_shell_poll s, l))) W_bg_poll = sh_wq s W_bg_poll"
  "sh_wq (fst (inactivity_work_fn ro cfg now addr (sh_cancel W_inactivity s, l))) W_bg_poll = sh_wq s W_bg_poll"
  by (simp_all add: shell_defs Let_def)

lemma bg_chunks [bg_poll_simps]: "sh_wq (fold (log_out_func ro) cs s) W_bg_poll = sh_wq s W_bg_poll"
  by (induction cs arbitrary: s) (simp_all add: bg_poll_simps)

lemma bg_log [bg_poll_simps]: "sh_wq (esb_log_backend_process ro cs s) W_bg_poll = sh_wq s W_bg_poll"
  by (simp add: esb_log_backend_process_def bg_poll_simps Let_def)

lemma bg_edit [bg_poll_simps]: "sh_wq (snd (fold (edit_byte ro sc) data (need, s))) W_bg_poll = sh_wq s W_bg_poll"
proof (induction data arbitrary: need s)
  case (Cons b data)
  have "sh_wq (snd (edit_byte ro sc b (need, s))) W_bg_poll = sh_wq s W_bg_poll"
    by (simp add: edit_byte_def bg_poll_simps)
  then show ?case using Cons.IH by (cases "edit_byte ro sc b (need, s)") simp
qed simp

lemma bg_data [bg_poll_simps]:
  "sh_wq (fst (esb_shell_relay_on_data ro sc cfg now addr uptime data (s, l))) W_bg_poll = sh_wq s W_bg_poll"
  by (simp add: esb_shell_relay_on_data_def split_beta Let_def bg_poll_simps)

lemma bg_req: "sh_wq (esb_shell_relay_on_req ro sc s) W_bg_poll \<in> {sh_wq s W_bg_poll, None}"
  by (simp add: shell_defs Let_def)

lemma bg_rx: "sh_wq (fst (shell_on_rx ro sc cfg now addr uptime stale data (s, l))) W_bg_poll \<in> {sh_wq s W_bg_poll, None}"
  using bg_req [of ro sc s] by (simp add: shell_on_rx_def bg_poll_simps)

lemma bg_internal:
  assumes "shell_internal ro sc cfg (s, l) (s', l')" "sh_wq s' W_bg_poll \<noteq> None"
  shows "sh_wq s W_bg_poll \<noteq> None"
  using assms
  by cases (auto simp: bg_poll_simps esb_log_backend_dropped_def esb_log_backend_panic_def shell_poll_work_fn_def
      inactivity_work_fn_def out_drain_work_fn_def stdout_flush_work_fn_def sh_resched_def sh_cancel_def Let_def split: if_splits option.splits)

lemma polls_none: "sh_wq s W_bg_poll = None \<Longrightarrow> polls_over_link hand sc s p"
  by (simp add: polls_over_link_def)

lemma polls_kept: "polls_over_link hand sc s p \<Longrightarrow> (sh_wq s' W_bg_poll \<noteq> None \<Longrightarrow> sh_wq s W_bg_poll \<noteq> None)
    \<Longrightarrow> p_state p' = p_state p \<Longrightarrow> polls_over_link hand sc s' p'"
  by (auto simp: polls_over_link_def)

lemma polls_connected: "p_state p = PAIRING_STATE_CONNECTED \<Longrightarrow> sh_wq s W_bg_poll = None
    \<Longrightarrow> polls_over_link hand sc (esb_shell_relay_on_connected ro sc s) p"
  "p_state p = PAIRING_STATE_CONNECTED \<Longrightarrow> polls_over_link hand sc s q \<Longrightarrow> polls_over_link hand sc (esb_shell_relay_on_connected ro sc s) p"
  by (auto simp: polls_over_link_def esb_shell_relay_on_connected_def bg_poll_simps sh_resched_def sh_cancel_def Let_def)

lemma polls_disconnected:
  "polls_over_link hand sc s q \<Longrightarrow> sh_wq (esb_shell_relay_on_disconnected ro sc s) W_bg_poll = None"
  by (auto simp: polls_over_link_def esb_shell_relay_on_disconnected_def bg_poll_simps sh_cancel_def Let_def)

lemma polls_rx:
  assumes "polls_over_link hand sc s p"
  shows "let (s', p', l') = relay_on_rx ro sc cfg now addr uptime stale data (s, p, l) in polls_over_link hand sc s' p'"
proof -
  let ?goal = "\<lambda>(s', p', l' :: link). polls_over_link hand sc s' p'"
  have e: "?goal (relay_pair_req ro sc cfg now addr data (s, p, l))" "?goal (relay_verify_resp ro sc cfg now data (s, p, l))"
    "?goal (relay_disconnect ro sc cfg (s, p, l))" "?goal (relay_resync ro sc (s, p, l))"
    using assms polls_connected(2) [OF _ assms] polls_none [OF polls_disconnected [OF assms]]
    by (simp_all add: relay_pair_req_def relay_verify_resp_def relay_disconnect_def relay_resync_def on_pair_req_def
        on_verify_resp_def on_disconnect_def on_resync_def split_beta Let_def save_paired_def)
  have o: "p_state (fst (pairing_on_rx cfg now addr data (p, l))) = p_state p"
    if "data ! 0 \<notin> {pkt_pair_req, pkt_verify_resp, pkt_disconnect, pkt_resync}"
    using that by (simp add: pairing_on_rx_def Let_def)
  have k: "polls_over_link hand sc (fst (shell_on_rx ro sc cfg now addr uptime stale data (s, l))) p"
    using bg_rx [of ro sc cfg now addr uptime stale data s l] by (intro polls_kept [OF assms]) auto
  show ?thesis
    using e o k assms polls_kept [OF assms, of s "fst (pairing_on_rx cfg now addr data (p, l))"]
    by (simp add: relay_on_rx_def Let_def split_beta)
qed

lemma polls_step:
  assumes "relay_step hand ro sc cfg t t'" "polls_over_link hand sc (fst t) (fst (snd t))"
  shows "polls_over_link hand sc (fst t') (fst (snd t'))"
  using assms
proof cases
  case (rl_shell s l s' l' p)
  with assms(2) polls_kept [of hand sc s p s' p] bg_internal [OF rl_shell(3)] show ?thesis by simp
next
  case (rl_rx now addr uptime stale data)
  with polls_rx [OF assms(2), of ro cfg now addr uptime stale data "snd (snd t)"] show ?thesis
    by (simp add: split_beta)
next
  case (rl_stop rest s e p l s' e' u)
  have "polls_over_link hand sc (esb_shell_relay_on_deactivate s) p"
    using assms(2) rl_stop by (intro polls_kept [OF assms(2)]) (simp_all add: bg_poll_simps)
  from polls_disconnected [OF this, of ro] show ?thesis
    using rl_stop by (auto simp: relay_ctrl_deactivate_def relay_pairing_stop_def split_beta Let_def intro: polls_none)
next
  case (rl_start p s e l s' e' u)
  then show ?thesis using assms(2) by (auto simp: relay_ctrl_settled_def bg_poll_simps Let_def polls_over_link_def)
next
  case (rl_unpair)
  then show ?thesis using assms(2) by (simp add: relay_pairing_unpair_def split_beta polls_over_link_def)
next
  case (rl_beacon s p l now addr)
  then show ?thesis using assms(2)
    by (intro polls_kept [OF assms(2)]) (simp_all add: beacon_work_fn_def p_cancel_def p_resched_def)
next
  case (rl_verify s p l now addr)
  then show ?thesis using assms(2)
    by (intro polls_kept [OF assms(2)]) (simp_all add: verify_work_fn_def p_cancel_def p_resched_def)
next
  case (rl_evt s p l now ev)
  then show ?thesis using assms(2)
    by (intro polls_kept [OF assms(2)]) (auto simp: relay_transport_evt_def bg_poll_simps split: if_splits)
qed simp

lemma shell_ok_relay:
  assumes "relay_step hand ro sc cfg t t'" "shell_ok sc (fst t)"
  shows "shell_ok sc (fst t')"
  using assms
proof cases
  case (rl_shell s l s' l' p)
  with assms(2) shell_ok_internal [OF rl_shell(3)] show ?thesis by simp
next
  case (rl_rx now addr uptime stale data)
  then show ?thesis using assms(2)
    by (cases t) (simp add: relay_on_rx_def relay_pair_req_def relay_verify_resp_def relay_disconnect_def relay_resync_def
        shell_ok_calls shell_ok_rx split_beta Let_def)
next
  case (rl_stop rest s e p l s' e' u)
  then show ?thesis using assms(2)
    by (auto simp: relay_ctrl_deactivate_def relay_pairing_stop_def shell_ok_session [OF session_output(10)] shell_ok_calls split_beta Let_def)
next
  case (rl_start p s e l s' e' u)
  then show ?thesis using assms(2)
    by (auto simp: relay_ctrl_settled_def shell_ok_session [OF session_output(9)] Let_def)
qed (use assms(2) in \<open>simp_all add: relay_transport_evt_def relay_pairing_unpair_def split_beta shell_ok_session [OF session_output(7)]\<close>)

interpretation relay_kept: step_invariant "relay_step hand ro sc cfg" "\<lambda>t. polls_over_link hand sc (fst t) (fst (snd t)) \<and> shell_ok sc (fst t)"
  for ro sc cfg
  by unfold_locales (auto dest: polls_step shell_ok_relay)

lemma connected_closes:
  "\<not> sh_active (esb_shell_relay_on_connected ro sc s)"
  "(sh_wq (esb_shell_relay_on_connected ro sc s) W_bg_poll \<noteq> None) = (sc_bg_poll sc \<or> sh_wq s W_bg_poll \<noteq> None)"
  by (auto simp: esb_shell_relay_on_connected_def drop_session_def shell_defs Let_def)

lemma disconnected_closes: "\<not> sh_active (esb_shell_relay_on_disconnected ro sc s)"
  by (simp add: esb_shell_relay_on_disconnected_def drop_session_def shell_defs Let_def)

lemma shell_closed:
  "shell_ok sc s \<Longrightarrow> \<not> sh_active s \<Longrightarrow> stdout_buf s = [] \<and> sh_wq s W_shell_poll = None \<and> sh_wq s W_inactivity = None
    \<and> sh_wq s W_stdout_flush = None"
  by (simp add: shell_ok_def)

lemma shell_open: "shell_ok sc s \<Longrightarrow> length (cmd_buf s) \<le> sc_cmd_buf sc - 1 \<and> length (stdout_buf s) \<le> sc_stdout_bytes sc
    \<and> (sh_active s \<longrightarrow> sh_wq s W_shell_poll \<noteq> None \<and> (0 < sc_inactivity_s sc \<longrightarrow> sh_wq s W_inactivity \<noteq> None))"
  by (simp add: shell_ok_def)

text \<open>A packet that moves the pairing into or out of its connected state closes the session.\<close>

lemma rx_edge_closes:
  assumes "relay_on_rx ro sc cfg now addr uptime stale data (s, p, l) = (s', p', l')" "polls_over_link hand sc s p"
    and "(p_state p = PAIRING_STATE_CONNECTED) \<noteq> (p_state p' = PAIRING_STATE_CONNECTED)"
  shows "\<not> sh_active s' \<and> (sh_wq s' W_bg_poll \<noteq> None) = (sc_bg_poll sc \<and> p_state p' = PAIRING_STATE_CONNECTED)"
proof -
  note edges = relay_on_rx_def relay_pair_req_def relay_verify_resp_def relay_disconnect_def relay_resync_def
    on_pair_req_def on_verify_resp_def on_disconnect_def on_resync_def pairing_on_rx_def
  have n: "sh_wq (esb_shell_relay_on_disconnected ro sc s) W_bg_poll = None" by (rule polls_disconnected [OF assms(2)])
  have c: "sh_wq s W_bg_poll \<noteq> None \<Longrightarrow> sc_bg_poll sc" using assms(2) by (auto simp: polls_over_link_def)
  show ?thesis
    using assms(1,3) n c connected_closes [of ro sc s] disconnected_closes [of ro sc s]
    by (auto simp: edges Let_def split_beta p_resched_def p_cancel_def save_paired_def forget_peer_def split: if_splits)
qed

text \<open>
  C14. Shell sessions follow the link. In every state that the relay, the pairing and the transport
  reach from boot, by any steps, the line and the output buffer have not overflowed; an open session keeps
  polling and its inactivity timer is armed, so that it cannot hang; the idle relay's polls are scheduled
  only when the build has them. Unless somebody unpairs by hand or an activation hits a pairing that is
  already running, they are scheduled only while the pairing is connected. And every packet that connects
  or disconnects the pairing leaves no session behind: closed, nothing buffered, no timer of the session
  running, and the idle polls scheduled exactly when the link is now up and the build has them.
\<close>

theorem sessions_follow_link:
  fixes ro :: "'r relay_ops"
  assumes "(relay_step hand ro sc cfg)\<^sup>*\<^sup>* (shell_boot r, p0, l0) (s, p, l)"
  shows "length (cmd_buf s) \<le> sc_cmd_buf sc - 1 \<and> length (stdout_buf s) \<le> sc_stdout_bytes sc
    \<and> (sh_active s \<longrightarrow> sh_wq s W_shell_poll \<noteq> None \<and> (0 < sc_inactivity_s sc \<longrightarrow> sh_wq s W_inactivity \<noteq> None))
    \<and> (sh_wq s W_bg_poll \<noteq> None \<longrightarrow> sc_bg_poll sc \<and> (hand \<or> p_state p = PAIRING_STATE_CONNECTED))
    \<and> (let (s', p', l') = relay_on_rx ro sc cfg now addr uptime stale data (s, p, l)
       in (p_state p = PAIRING_STATE_CONNECTED) \<noteq> (p_state p' = PAIRING_STATE_CONNECTED) \<longrightarrow>
            \<not> sh_active s' \<and> stdout_buf s' = [] \<and> sh_wq s' W_shell_poll = None \<and> sh_wq s' W_inactivity = None
            \<and> sh_wq s' W_stdout_flush = None
            \<and> (sh_wq s' W_bg_poll \<noteq> None \<longleftrightarrow> sc_bg_poll sc \<and> p_state p' = PAIRING_STATE_CONNECTED))"
proof -
  have i: "polls_over_link hand sc (fst t) (fst (snd t)) \<and> shell_ok sc (fst t)" if "(relay_step hand ro sc cfg)\<^sup>*\<^sup>* (shell_boot r, p0, l0) t" for t
    using that by (rule relay_kept.reached_keeps) (simp add: polls_over_link_def shell_ok_def shell_boot_def no_work_def)
  obtain s' p' l' where rx: "relay_on_rx ro sc cfg now addr uptime stale data (s, p, l) = (s', p', l')" by (metis prod_cases3)
  have "(relay_step hand ro sc cfg)\<^sup>*\<^sup>* (shell_boot r, p0, l0) (s', p', l')"
    using assms rl_rx [of hand ro sc cfg "(s, p, l)" now addr uptime stale data] by (simp add: rx)
  from i [OF this] have "shell_ok sc s'" by simp
  moreover have "shell_ok sc s" "polls_over_link hand sc s p" using i [OF assms] by simp_all
  ultimately show ?thesis
    using rx_edge_closes [OF rx] shell_closed [of sc s'] shell_open [of sc s] unfolding polls_over_link_def rx Let_def prod.case
    by blast
qed

theorem sessions_follow_link_witness:
  "let (s', p', l') = relay_on_rx demo_relay_ops demo_shell_cfg default_kconfig 7 8 9 [] [pkt_pair_req, 1, 2, 3, 4, 5, 6]
       (shell_boot [], pairing_boot\<lparr>p_state := PAIRING_STATE_UNPAIRED\<rparr>, up_link)
   in p_state p' = PAIRING_STATE_CONNECTED \<and> sh_wq s' W_bg_poll \<noteq> None"
proof -
  let ?p = "pairing_boot\<lparr>p_state := PAIRING_STATE_UNPAIRED\<rparr>"
  let ?rx = "relay_on_rx demo_relay_ops demo_shell_cfg default_kconfig 7 8 9 [] [pkt_pair_req, 1, 2, 3, 4, 5, 6]
       (shell_boot [], ?p, up_link)"
  have "p_state (fst (snd ?rx)) = PAIRING_STATE_CONNECTED"
    by (simp add: relay_on_rx_def relay_pair_req_def on_pair_req_def save_paired_def Let_def)
  then show ?thesis
    using sessions_follow_link [OF rtranclp.rtrancl_refl, where hand = False and ro = demo_relay_ops and sc = demo_shell_cfg
        and cfg = default_kconfig and r = "[]" and p = ?p and l = up_link and now = 7 and addr = 8 and uptime = 9
        and stale = "[]" and data = "[pkt_pair_req, 1, 2, 3, 4, 5, 6]"]
    by (simp add: split_beta demo_shell_cfg_def Let_def)
qed

section \<open>Where sessions outlive the link\<close>

text \<open>
  A request for a session is honoured in every state of the pairing, also by an endpoint that has never
  been paired: whoever answers its beacons opens a shell. The options say that it takes a paired dongle.
\<close>

lemma session_without_pairing:
  assumes "\<not> sh_active s" "p_state p = PAIRING_STATE_UNPAIRED"
  shows "let (s', p', l') = relay_on_rx ro sc cfg now addr uptime stale [pkt_shell_req] (s, p, l)
    in sh_active s' \<and> p_state p' = PAIRING_STATE_UNPAIRED"
  using assms by (simp add: relay_on_rx_def shell_on_rx_def esb_shell_relay_on_req_def shell_defs Let_def)

text \<open>An unpairing by hand ends neither a session nor the polls: the relay is not told.\<close>

lemma unpair_keeps_session:
  assumes "sh_active s" "p_state p = PAIRING_STATE_CONNECTED"
  shows "let (s', p', l') = relay_pairing_unpair cfg (s, p, l) in sh_active s' \<and> p_state p' = PAIRING_STATE_UNPAIRED"
  using assms by (simp add: relay_pairing_unpair_def pairing_unpair_def p_resched_def p_cancel_def forget_peer_def save_paired_def Let_def)

text \<open>The behaviour that goes to the ESB profile commands the activation when ZMK reports the change.\<close>

lemma goto_activates:
  assumes "ctrl_at e = CTRL_WAIT" "ctrl_msgq e = []" "\<not> esb_active e" "0 < ec_msgq_depth ec"
  shows "esb_active (fst (esb_ctrl_thread_fn ec cfg hf tm ppi (snd (esb_goto_pressed ec (profile_listener_cb ec) e), p, l)))"
  using assms by (simp add: esb_goto_pressed_def profile_listener_cb_def put_cmd_def ctrl_defs Let_def)

end
