(* ===== verification/Status.thy ===== *)
theory Status
  imports Endpoint
begin

text \<open>
  What the shell commands print, \<open>cmd_esb_status\<close> and \<open>cmd_esb_bench\<close> of \<open>src/src/esb/esb_endpoint.c\<close>:
  the getters they read, the lines they print, and the two lines that are put together in arrays of
  fixed size with \<open>snprintk\<close>. A buffer is the list of its characters, a write outside it is \<open>None\<close>.
\<close>

section \<open>Formatting\<close>

text \<open>\<open>%u\<close> and \<open>%d\<close>\<close>

fun digits_onto :: "nat \<Rightarrow> string \<Rightarrow> string" where
  "digits_onto n acc = (let acc' = char_of (48 + n mod 10) # acc in if n < 10 then acc' else digits_onto (n div 10) acc')"

declare digits_onto.simps [simp del]

definition fmt_u :: "nat \<Rightarrow> string" where
  "fmt_u n = digits_onto n []"

definition fmt_d :: "int \<Rightarrow> string" where
  "fmt_d i = (if i < 0 then CHR ''-'' # fmt_u (nat (- i)) else fmt_u (nat i))"

text \<open>
  \<open>snprintk(buf + pos, room, \<dots>)\<close>: it writes what fits with the NUL behind it; its value is the length
  of the whole text.
\<close>

definition snprintk_at :: "nat \<Rightarrow> u32 \<Rightarrow> string \<Rightarrow> string \<Rightarrow> string option" where
  "snprintk_at pos room txt buf =
     (if room = 0 then Some buf
      else let w = take (unat room - 1) txt @ [CHR 0x00]
        in if pos + length w \<le> length buf then Some (take pos buf @ w @ drop (pos + length w) buf) else None)"

definition c_string :: "string \<Rightarrow> string" where
  "c_string buf = takeWhile (\<lambda>c. c \<noteq> CHR 0x00) buf"

text \<open>
  The loops that fill a line: each entry behind a space, except the first, at the position that the
  lengths add up to; the room that is left is a \<open>size_t\<close>.
\<close>

fun print_entries :: "bool \<Rightarrow> nat \<Rightarrow> string list \<Rightarrow> string \<Rightarrow> string option" where
  "print_entries start pos [] buf = Some buf"
| "print_entries start pos (e # es) buf =
     (let txt = (if start then '''' else '' '') @ e
      in case snprintk_at pos (of_nat (length buf) - of_nat pos) txt buf of
           None \<Rightarrow> None
         | Some buf' \<Rightarrow> print_entries False (pos + length txt) es buf')"

section \<open>Getters\<close>

definition pairing_state_str :: "pairing_state \<Rightarrow> string" where
  "pairing_state_str s = (case s of PAIRING_STATE_IDLE \<Rightarrow> ''idle'' | PAIRING_STATE_UNPAIRED \<Rightarrow> ''unpaired''
     | PAIRING_STATE_PAIRING \<Rightarrow> ''pairing'' | PAIRING_STATE_VERIFYING \<Rightarrow> ''verifying''
     | PAIRING_STATE_CONNECTED \<Rightarrow> ''connected'')"

definition pairing_get_state :: "pairing \<Rightarrow> pairing_state" where
  "pairing_get_state p = p_state p"

definition zmk_esb_endpoint_is_active :: "endpoint \<Rightarrow> bool" where
  "zmk_esb_endpoint_is_active e = esb_active e"

definition esb_transport_get_channel :: "transport \<Rightarrow> nat" where
  "esb_transport_get_channel t = t_channel t"

definition esb_transport_get_rendezvous_channel :: "transport \<Rightarrow> nat" where
  "esb_transport_get_rendezvous_channel t = boot_channel t"

definition channel_hop_ep_is_active :: "hop \<Rightarrow> bool" where
  "channel_hop_ep_is_active h = hop_active h"

definition channel_hop_ep_get_committed :: "hop \<Rightarrow> nat" where
  "channel_hop_ep_get_committed h = committed_next h"

definition channel_hop_ep_get_quarantine_count :: "u32 \<Rightarrow> hop \<Rightarrow> nat" where
  "channel_hop_ep_get_quarantine_count now h = quarantine_count now (quar h)"

definition channel_hop_ep_is_quarantined :: "u32 \<Rightarrow> nat \<Rightarrow> hop \<Rightarrow> bool" where
  "channel_hop_ep_is_quarantined now channel h = quarantine_is now (quar h) channel"

definition esb_transport_get_link_quality :: "transport \<Rightarrow> nat \<times> nat" where
  "esb_transport_get_link_quality t = (lq_count (lq t), lq_ewma_x10 (lq t))"

definition esb_transport_get_per_stats :: "transport \<Rightarrow> u32 \<times> u32 \<times> u32" where
  "esb_transport_get_per_stats t = (tx_ok_count t, tx_retried_count t, tx_exhausted_count t)"

definition esb_bench_get_result :: "bench \<Rightarrow> bench_result" where
  "esb_bench_get_result b = bn_result b"

section \<open>The commands\<close>

definition status_head :: "kconfig \<Rightarrow> u32 \<Rightarrow> pairing \<Rightarrow> endpoint \<Rightarrow> link \<Rightarrow> string list" where
  "status_head cfg now p e l =
     (let t = tr l; h = hopm l;
          nxt = channel_hop_ep_get_committed h;
          (lq_retried, lq_ewma_x10) = esb_transport_get_link_quality t;
          (tx_ok, tx_retried, tx_exhausted) = esb_transport_get_per_stats t;
          (hid_total, hid_rate) = esb_transport_get_hid_tx_stats now t
      in [''pairing:  '' @ pairing_state_str (pairing_get_state p),
          ''active:   '' @ (if zmk_esb_endpoint_is_active e then ''yes'' else ''no''),
          ''channel:  '' @ fmt_u (esb_transport_get_channel t) @ '' (hop ''
            @ (if channel_hop_ep_is_active h then ''active'' else ''idle'') @ '')'',
          if nxt = channel_invalid then ''next:     <none>'' else ''next:     '' @ fmt_u nxt,
          case esb_transport_get_peer_rssi t of
            None \<Rightarrow> ''rssi:     n/a''
          | Some (r_last, r_ewma) \<Rightarrow> ''rssi:     -'' @ fmt_d r_last @ '' dBm, ewma: -'' @ fmt_d r_ewma @ '' dBm'',
          ''link:     ewma='' @ fmt_u (lq_ewma_x10 div 10) @ ''.'' @ fmt_u (lq_ewma_x10 mod 10) @ '' attempts, retried=''
            @ fmt_u lq_retried @ ''/'' @ fmt_u (c_lq_window cfg) @ '' in window'',
          case tx_rates t of
            None \<Rightarrow> ''TX:       ok=0 retried=0 failed=0''
          | Some (per_pm, retry_pm) \<Rightarrow> ''TX:       ok='' @ fmt_u (unat tx_ok) @ '' retried='' @ fmt_u (unat tx_retried)
              @ '' ('' @ fmt_u (unat (retry_pm div 10)) @ ''.'' @ fmt_u (unat (retry_pm mod 10)) @ ''%) failed=''
              @ fmt_u (unat tx_exhausted) @ '' (PER '' @ fmt_u (unat (per_pm div 10)) @ ''.''
              @ fmt_u (unat (per_pm mod 10)) @ ''%)'',
          ''HID:      '' @ fmt_u hid_rate @ '' Hz (total '' @ fmt_u (unat hid_total) @ '')''])"

definition entry_u :: "nat \<times> nat \<Rightarrow> string" where
  "entry_u = (\<lambda>(channel, n). fmt_u channel @ ''('' @ fmt_u n @ '')'')"

definition entry_d :: "nat \<times> int \<Rightarrow> string" where
  "entry_d = (\<lambda>(channel, v). fmt_u channel @ ''('' @ fmt_d v @ '')'')"

text \<open>The two lines on the offenders share the array \<open>line\<close>; it starts with whatever the stack held.\<close>

definition shown_line :: "string \<Rightarrow> string list \<Rightarrow> string \<Rightarrow> string" where
  "shown_line head es buf = head @ (if es \<noteq> [] then c_string buf else ''<none>'')"

definition offender_lines :: "(hit_entry \<times> bool) list \<Rightarrow> string \<Rightarrow> string list option" where
  "offender_lines off line =
     (let kept = map (\<lambda>(h, _). entry_u (hit_channel h, hit_hits h)) (filter snd off);
          session = map (\<lambda>(h, _). entry_u (hit_channel h, hit_session h)) (filter (\<lambda>(h, _). hit_session h \<noteq> 0) off)
      in case print_entries True 0 kept line of
           None \<Rightarrow> None
         | Some line1 \<Rightarrow> (case print_entries True 0 session line1 of
               None \<Rightarrow> None
             | Some line2 \<Rightarrow> Some [shown_line ''persistently quarantined:  '' kept line1,
                                  shown_line ''collected since boot:   '' session line2]))"

text \<open>The averages of the known channels, eight to a line.\<close>

fun rssi_rows :: "bool \<Rightarrow> (nat \<times> int) list \<Rightarrow> string \<Rightarrow> string list option" where
  "rssi_rows start [] line = Some []"
| "rssi_rows start (r # rs) line =
     (case print_entries True 0 (map entry_d (take 8 (r # rs))) line of
        None \<Rightarrow> None
      | Some line1 \<Rightarrow> map_option
          ((#) ((if start then ''known channels:   '' else ''                       '') @ c_string line1))
          (rssi_rows False (drop 8 (r # rs)) line1))"

definition rssi_lines :: "(nat \<times> int) list \<Rightarrow> string \<Rightarrow> string list option" where
  "rssi_lines rssi line = (if rssi = [] then Some [''known channels:   <none>''] else rssi_rows True rssi line)"

definition cmd_esb_status ::
  "kconfig \<Rightarrow> u32 \<Rightarrow> pairing \<Rightarrow> endpoint \<Rightarrow> link \<Rightarrow> string \<Rightarrow> string \<Rightarrow> string list option" where
  "cmd_esb_status cfg now p e l line1 line2 =
     (case offender_lines (get_offenders (zrc_persist cfg) (offs (hopm l), quar (hopm l))) line1 of
        None \<Rightarrow> None
      | Some a \<Rightarrow> map_option (\<lambda>b. status_head cfg now p e l @ [] # a @ b)
          (rssi_lines (channel_hop_ep_get_rssi channel_count (hopm l)) line2))"

text \<open>What the benchmark command prints; on an inactive endpoint to the error stream.\<close>

definition bench_text :: "endpoint \<Rightarrow> bench \<Rightarrow> string list" where
  "bench_text e b = (case bn_state b of
     BENCH_IDLE \<Rightarrow> [if \<not> zmk_esb_endpoint_is_active e then ''ESB not active'' else ''ESB benchmark started (10 s)'']
   | BENCH_RUNNING \<Rightarrow> []
   | BENCH_STOPPING \<Rightarrow> [''Benchmark stopping, waiting for dongle result...'']
   | BENCH_DONE \<Rightarrow> (let r = esb_bench_get_result b in
       [''Throughput: '' @ fmt_u (unat (br_throughput r)) @ '' pkt/s  (ok='' @ fmt_u (unat (br_tx_ok r)) @ '' fail=''
          @ fmt_u (unat (br_tx_fail r)) @ '')'',
        if 0 < br_rssi_samples r
        then ''RSSI: avg='' @ fmt_d (br_rssi_avg r) @ '' dBm  min='' @ fmt_d (br_rssi_min r) @ ''  max=''
          @ fmt_d (br_rssi_max r) @ ''  n='' @ fmt_u (unat (br_rssi_samples r))
        else ''RSSI: n/a (no dongle response)'']))"

section \<open>The lines fit\<close>

lemma digits_length: "n < 10 ^ Suc k \<Longrightarrow> length (digits_onto n acc) \<le> Suc k + length acc"
proof (induction k arbitrary: n acc)
  case 0
  then show ?case by (simp add: digits_onto.simps [of n])
next
  case (Suc k)
  then have "n div 10 < 10 ^ Suc k" by (simp add: less_mult_imp_div_less)
  then have "length (digits_onto (n div 10) (c # acc)) \<le> Suc k + length (c # acc)" for c by (rule Suc.IH)
  then show ?case by (subst digits_onto.simps) (simp add: Let_def)
qed

lemma fmt_u_length: "n < 10 ^ Suc k \<Longrightarrow> length (fmt_u n) \<le> Suc k"
  using digits_length [of n k "[]"] by (simp add: fmt_u_def)

lemma digit_visible: "char_of (48 + n mod 10 :: nat) \<noteq> CHR 0x00"
proof
  assume "char_of (48 + n mod 10 :: nat) = CHR 0x00"
  then have "of_char (char_of (48 + n mod 10 :: nat)) = (of_char (CHR 0x00) :: nat)" by simp
  then show False by simp
qed

lemma digits_visible: "CHR 0x00 \<notin> set acc \<Longrightarrow> CHR 0x00 \<notin> set (digits_onto n acc)"
proof (induction n acc rule: digits_onto.induct)
  case (1 n acc)
  then show ?case
    using digit_visible [of n] by (subst digits_onto.simps) (auto simp: Let_def)
qed

lemma fmt_u_visible [simp]: "CHR 0x00 \<notin> set (fmt_u n)"
  by (simp add: fmt_u_def digits_visible)

lemma fmt_d_visible [simp]: "CHR 0x00 \<notin> set (fmt_d i)"
  by (simp add: fmt_d_def)

lemma fmt_d_length:
  assumes "in_i8 i"
  shows "length (fmt_d i) \<le> 4"
proof -
  have "nat (- i) < 1000" "nat i < 1000" using assms unfolding in_i8_def by linarith+
  then have "length (fmt_u (nat (- i))) \<le> 3" "length (fmt_u (nat i)) \<le> 3"
    using fmt_u_length [of _ 2] by (simp_all add: eval_nat_numeral)
  then show ?thesis by (simp add: fmt_d_def)
qed

text \<open>The text that a line should hold: the entries with spaces between them.\<close>

fun spaced :: "string list \<Rightarrow> string" where
  "spaced [] = []"
| "spaced (e # es) = e @ concat (map (\<lambda>x. CHR '' '' # x) es)"

lemma spaced_length: "\<forall>e \<in> set es. length e \<le> 11 \<Longrightarrow> es \<noteq> [] \<Longrightarrow> length (spaced es) < 12 * length es"
proof (cases es)
  case (Cons x xs)
  moreover have "length (concat (map (\<lambda>x. CHR '' '' # x) ys)) \<le> 12 * length ys" if "\<forall>e \<in> set ys. length e \<le> 11" for ys :: "string list"
    using that by (induction ys) auto
  ultimately show "\<forall>e \<in> set es. length e \<le> 11 \<Longrightarrow> length (spaced es) < 12 * length es" by fastforce
qed simp

lemma snprintk_fits:
  assumes "pos + length txt < length buf" "length buf < 2 ^ 32"
  shows "snprintk_at pos (of_nat (length buf) - of_nat pos) txt buf
    = Some (take pos buf @ txt @ CHR 0x00 # drop (pos + length txt + 1) buf)"
proof -
  have "(of_nat (length buf) - of_nat pos :: u32) = of_nat (length buf - pos)" using assms(1) by (simp add: of_nat_diff)
  moreover have "unat (of_nat (length buf - pos) :: u32) = length buf - pos"
    using assms(2) by (simp add: unsigned_of_nat take_bit_nat_eq_self)
  ultimately have r: "unat (of_nat (length buf) - of_nat pos :: u32) = length buf - pos" by simp
  moreover from this have "(of_nat (length buf) - of_nat pos :: u32) \<noteq> 0" using assms(1) by (metis unat_0 zero_less_diff add_lessD1 less_irrefl_nat)
  ultimately show ?thesis using assms(1) by (simp add: snprintk_at_def)
qed

lemma print_entries_text:
  fixes es :: "string list" and buf :: string
  defines "txt \<equiv> \<lambda>start es. (if start then [] else '' '') @ spaced es"
  assumes "pos + length (txt start es) < length buf" "length buf < 2 ^ 32" "es \<noteq> []"
  shows "\<exists>rest. print_entries start pos es buf = Some (take pos buf @ txt start es @ CHR 0x00 # rest)
    \<and> length (take pos buf @ txt start es @ CHR 0x00 # rest) = length buf"
  using assms(2-)
proof (induction es arbitrary: start pos buf)
  case (Cons e es)
  let ?t = "(if start then [] else '' '') @ e"
  let ?b = "take pos buf @ ?t @ CHR 0x00 # drop (pos + length ?t + 1) buf"
  have fit: "pos + length ?t < length buf" using Cons.prems(1) by (auto simp: txt_def split: if_splits)
  have l: "length ?b = length buf" using fit by simp
  from snprintk_fits [OF fit Cons.prems(2)]
  have p: "print_entries start pos (e # es) buf = print_entries False (pos + length ?t) es ?b" by simp
  show ?case
  proof (cases "es = []")
    case True
    with p l show ?thesis by (simp add: txt_def)
  next
    case False
    have "txt start (e # es) = ?t @ txt False es" using False by (cases es) (simp_all add: txt_def)
    moreover have "pos + length ?t + length (txt False es) < length ?b"
      using Cons.prems(1) calculation l by (simp add: add.assoc)
    from Cons.IH [OF this _ False] l Cons.prems(2) obtain rest where
      "print_entries False (pos + length ?t) es ?b = Some (take (pos + length ?t) ?b @ txt False es @ CHR 0x00 # rest)"
      "length (take (pos + length ?t) ?b @ txt False es @ CHR 0x00 # rest) = length ?b" by metis
    moreover have "take (pos + length ?t) ?b = take pos buf @ ?t" using fit by simp
    ultimately show ?thesis using p l by auto
  qed
qed simp

lemma c_string_text: "CHR 0x00 \<notin> set txt \<Longrightarrow> c_string (txt @ CHR 0x00 # rest) = txt"
  by (simp add: c_string_def takeWhile_append)

lemma spaced_visible: "\<forall>e \<in> set es. CHR 0x00 \<notin> set e \<Longrightarrow> CHR 0x00 \<notin> set (spaced es)"
  by (cases es) auto

text \<open>A line of entries of at most eleven characters, twelve places each: the string is the whole text.\<close>

lemma line_complete:
  assumes "\<forall>e \<in> set es. length e \<le> 11 \<and> CHR 0x00 \<notin> set e" "es \<noteq> []" "12 * length es \<le> length buf" "length buf < 2 ^ 32"
  shows "\<exists>buf'. print_entries True 0 es buf = Some buf' \<and> length buf' = length buf \<and> c_string buf' = spaced es"
proof -
  have "length (spaced es) < length buf" using spaced_length [of es] assms by force
  with print_entries_text [of 0 True es buf] assms(2,4) obtain rest where
    "print_entries True 0 es buf = Some (spaced es @ CHR 0x00 # rest)" "length (spaced es @ CHR 0x00 # rest) = length buf"
    by auto
  then show ?thesis using c_string_text [OF spaced_visible, of es rest] assms(1) by auto
qed

text \<open>What the lists should show, without buffers.\<close>

definition listing :: "string \<Rightarrow> string list \<Rightarrow> string" where
  "listing head es = head @ (if es = [] then ''<none>'' else spaced es)"

lemma shown_complete:
  assumes "\<forall>e \<in> set es. length e \<le> 11 \<and> CHR 0x00 \<notin> set e" "12 * length es \<le> length buf" "length buf < 2 ^ 32"
  shows "\<exists>buf'. print_entries True 0 es buf = Some buf' \<and> length buf' = length buf
    \<and> (\<forall>head. shown_line head es buf' = listing head es)"
proof (cases "es = []")
  case False
  from line_complete [OF assms(1) this assms(2,3)] False show ?thesis by (auto simp: shown_line_def listing_def)
qed (simp add: shown_line_def listing_def)

lemma entry_u_ok: "ch < 1000 \<Longrightarrow> n < 100000 \<Longrightarrow> length (entry_u (ch, n)) \<le> 11 \<and> CHR 0x00 \<notin> set (entry_u (ch, n))"
  using fmt_u_length [of ch 2] fmt_u_length [of n 4] by (simp add: entry_u_def)

lemma entry_d_ok: "ch < 1000 \<Longrightarrow> in_i8 v \<Longrightarrow> length (entry_d (ch, v)) \<le> 11 \<and> CHR 0x00 \<notin> set (entry_d (ch, v))"
  using fmt_u_length [of ch 2] fmt_d_length [of v] by (simp add: entry_d_def)

section \<open>The status is complete\<close>

fun rssi_text :: "bool \<Rightarrow> (nat \<times> int) list \<Rightarrow> string list" where
  "rssi_text start [] = []"
| "rssi_text start (r # rs) =
     ((if start then ''known channels:   '' else ''                       '') @ spaced (map entry_d (take 8 (r # rs))))
     # rssi_text False (drop 8 (r # rs))"

lemma rssi_rows_complete:
  assumes "\<forall>(ch, v) \<in> set rs. ch < 1000 \<and> in_i8 v" "length line = 97"
  shows "rssi_rows start rs line = Some (rssi_text start rs)"
  using assms
proof (induction start rs line rule: rssi_rows.induct)
  case (2 start r rs line)
  let ?es = "map entry_d (take 8 (r # rs))"
  have e: "\<forall>e \<in> set ?es. length e \<le> 11 \<and> CHR 0x00 \<notin> set e"
    using "2.prems"(1) entry_d_ok by (auto dest!: in_set_takeD)
  have "?es \<noteq> []" "12 * length ?es \<le> length line" "length line < 2 ^ 32" using "2.prems"(2) by simp_all
  from line_complete [OF e this] obtain line1 where
    l: "print_entries True 0 ?es line = Some line1" "length line1 = 97" "c_string line1 = spaced ?es"
    using "2.prems"(2) by metis
  have "\<forall>(ch, v) \<in> set (drop 8 (r # rs)). ch < 1000 \<and> in_i8 v" using "2.prems"(1) by (auto dest!: in_set_dropD)
  from "2.IH" [OF l(1) this l(2)] l show ?case by simp
qed simp

lemma get_rssi_bounds:
  assumes "rssi_wf (chan_rssi h)"
  shows "\<forall>(ch, v) \<in> set (channel_hop_ep_get_rssi n h). ch < 1000 \<and> in_i8 v"
  using rssi_get_i8 [OF assms]
  by (fastforce simp: channel_hop_ep_get_rssi_def List.map_filter_def dest!: in_set_takeD)

lemma get_offenders_bounds:
  assumes "table_wf cfg (m_hits s)"
  shows "length (get_offenders n (s, q)) \<le> n \<and> (\<forall>(h, b) \<in> set (get_offenders n (s, q)). hit_ok h)"
  using select_top_correct [of "\<lambda>_. True" "m_hits s" n "{}"] assms
  by (auto simp: get_offenders_def table_wf_def open_index_def)

lemma hit_entry_ok:
  assumes "hit_ok h"
  shows "length (entry_u (hit_channel h, hit_hits h)) \<le> 11 \<and> CHR 0x00 \<notin> set (entry_u (hit_channel h, hit_hits h))"
    "length (entry_u (hit_channel h, hit_session h)) \<le> 11 \<and> CHR 0x00 \<notin> set (entry_u (hit_channel h, hit_session h))"
  using assms by (intro entry_u_ok; auto simp: hit_ok_def)+

lemma zrc_persist_byte: "zrc_persist cfg \<le> 255"
  by (simp add: zrc_persist_def flip: less_Suc_eq_le)

lemma offender_lines_complete:
  assumes "\<forall>(h, b) \<in> set off. hit_ok h" "length off \<le> n" "n \<le> 255" "length line = n * 12 + 1"
  shows "offender_lines off line = Some
    [listing ''persistently quarantined:  '' [entry_u (hit_channel h, hit_hits h). (h, kept) \<leftarrow> off, kept],
     listing ''collected since boot:   '' [entry_u (hit_channel h, hit_session h). (h, _) \<leftarrow> off, hit_session h \<noteq> 0]]"
proof -
  let ?kept = "map (\<lambda>(h, _). entry_u (hit_channel h, hit_hits h)) (filter snd off)"
  let ?session = "map (\<lambda>(h, _). entry_u (hit_channel h, hit_session h)) (filter (\<lambda>(h, _). hit_session h \<noteq> 0) off)"
  have len: "length ?kept \<le> n" "length ?session \<le> n"
    using assms(2) by (auto intro: order_trans [OF length_filter_le])
  have room: "12 * length es \<le> length b" "length b < 2 ^ 32" if "length es \<le> n" "length b = n * 12 + 1"
    for es :: "string list" and b :: string using that assms(3) by simp_all
  have ok: "\<forall>e \<in> set ?kept. length e \<le> 11 \<and> CHR 0x00 \<notin> set e" "\<forall>e \<in> set ?session. length e \<le> 11 \<and> CHR 0x00 \<notin> set e"
    using assms(1) hit_entry_ok by (auto split: prod.splits)
  from shown_complete [OF ok(1) room [OF len(1) assms(4)]] obtain line1 where
    l1: "print_entries True 0 ?kept line = Some line1" "length line1 = length line"
      "\<forall>head. shown_line head ?kept line1 = listing head ?kept" by blast
  then have "length line1 = n * 12 + 1" using assms(4) by simp
  from shown_complete [OF ok(2) room [OF len(2) this]] obtain line2 where
    l2: "print_entries True 0 ?session line1 = Some line2" "\<forall>head. shown_line head ?session line2 = listing head ?session" by blast
  have "[entry_u (hit_channel h, hit_hits h). (h, kept) \<leftarrow> off, kept] = ?kept"
    "[entry_u (hit_channel h, hit_session h). (h, _) \<leftarrow> off, hit_session h \<noteq> 0] = ?session"
    by (induction off) auto
  with l1 l2 show ?thesis unfolding offender_lines_def Let_def by simp
qed

text \<open>What the command asks for: the worst entries of the hit table, all of it when it is that short.\<close>

lemma get_offenders_top:
  fixes n s q cfg
  assumes "table_wf cfg (m_hits s)"
  defines "off \<equiv> get_offenders n (s, q)"
  shows "length off = min n (length (m_hits s)) \<and> distinct (map (hit_channel \<circ> fst) off)
    \<and> sorted_wrt (\<ge>) (map (hit_hits \<circ> fst) off)
    \<and> (\<forall>(h, kept) \<in> set off. h \<in> set (m_hits s) \<and> (kept \<longleftrightarrow> hit_channel h \<in> set (avoided q)))
    \<and> (\<forall>h \<in> set (m_hits s). h \<notin> fst ` set off \<longrightarrow> (\<forall>g \<in> fst ` set off. hit_hits h \<le> hit_hits g))"
proof -
  let ?hs = "m_hits s" and ?sel = "select_top (\<lambda>_. True) (m_hits s) n {}"
  note top = select_top_correct [of "\<lambda>_. True" ?hs n "{}", unfolded open_index_def, simplified]
  have sel: "distinct ?sel" "set ?sel \<subseteq> {..<length ?hs}" "length ?sel \<le> n" using top by auto
  have off: "map fst off = map ((!) ?hs) ?sel" by (simp add: off_def get_offenders_def)
  have "length ?sel = min n (length ?hs)"
  proof (cases "set ?sel = {..<length ?hs}")
    case True
    then have "length ?sel = length ?hs" using sel(1) by (metis card_lessThan distinct_card)
    then show ?thesis using sel(3) by simp
  next
    case False
    then have "length ?sel = n" using top sel(2) by blast
    moreover have "length ?sel \<le> length ?hs"
      using card_mono [OF _ sel(2)] by (simp add: distinct_card [OF sel(1)])
    ultimately show ?thesis by simp
  qed
  then have 1: "length off = min n (length ?hs)" using arg_cong [OF off, of length] by simp
  have "inj_on (hit_channel \<circ> (!) ?hs) (set ?sel)"
    using assms(1) sel(2) by (auto simp: inj_on_def table_wf_def distinct_conv_nth)
  then have "distinct (map hit_channel (map fst off))" using sel(1) by (simp add: off distinct_map)
  then have 2: "distinct (map (hit_channel \<circ> fst) off)" by simp
  have "map hit_hits (map fst off) = map (\<lambda>i. hit_hits (?hs ! i)) ?sel" by (simp add: off)
  then have 3: "sorted_wrt (\<ge>) (map (hit_hits \<circ> fst) off)" using top by simp
  have 4: "\<forall>(h, kept) \<in> set off. h \<in> set ?hs \<and> (kept \<longleftrightarrow> hit_channel h \<in> set (avoided q))"
    using sel(2) by (auto simp: off_def get_offenders_def contains_avoided)
  have out: "fst ` set off = (!) ?hs ` set ?sel" using arg_cong [OF off, of set] by simp
  have 5: "\<forall>h \<in> set ?hs. h \<notin> fst ` set off \<longrightarrow> (\<forall>g \<in> fst ` set off. hit_hits h \<le> hit_hits g)"
  proof (intro ballI impI)
    fix h g assume h: "h \<in> set ?hs" "h \<notin> fst ` set off" and g: "g \<in> fst ` set off"
    obtain i where i: "i < length ?hs" "h = ?hs ! i" using h(1) by (auto simp: in_set_conv_nth)
    then have "i \<notin> set ?sel" using h(2) by (auto simp: out)
    then show "hit_hits h \<le> hit_hits g" using top i g by (auto simp: out)
  qed
  show ?thesis using 1 2 3 4 5 by blast
qed

text \<open>
  C24. The status command shows the worst offenders and writes nowhere else: for every setting of the
  runtime option but zero (see below) and whatever is in its two buffers before, it prints the header, of
  the offenders it shows those that are kept in flash with all their hits and those hit in this
  session with their hits of it, and all known channels with their averages, eight to a line. The
  offenders it shows are as many as the option says, or the whole hit table when that is shorter,
  worst first, and none that is left out has more hits than one that is shown. No text is cut off by
  the size of a buffer, and no position leaves it.
\<close>

theorem status_text_complete:
  assumes "0 < zrc_persist cfg" "link_wf cfg l" "length offbuf = zrc_persist cfg * 12 + 1" "length rssibuf = 8 * 12 + 1"
  shows "let hits = m_hits (offs (hopm l));
             off = get_offenders (zrc_persist cfg) (offs (hopm l), quar (hopm l));
             known = channel_hop_ep_get_rssi channel_count (hopm l)
    in cmd_esb_status cfg now p e l offbuf rssibuf = Some (status_head cfg now p e l
      @ [[],
         listing ''persistently quarantined:  '' [entry_u (hit_channel h, hit_hits h). (h, kept) \<leftarrow> off, kept],
         listing ''collected since boot:   '' [entry_u (hit_channel h, hit_session h). (h, _) \<leftarrow> off, hit_session h \<noteq> 0]]
      @ (if known = [] then [''known channels:   <none>''] else rssi_text True known))
      \<and> length off = min (zrc_persist cfg) (length hits) \<and> distinct (map (hit_channel \<circ> fst) off)
      \<and> sorted_wrt (\<ge>) (map (hit_hits \<circ> fst) off)
      \<and> (\<forall>(h, kept) \<in> set off. h \<in> set hits \<and> (kept \<longleftrightarrow> hit_channel h \<in> set (avoided (quar (hopm l)))))
      \<and> (\<forall>h \<in> set hits. h \<notin> fst ` set off \<longrightarrow> (\<forall>g \<in> fst ` set off. hit_hits h \<le> hit_hits g))"
proof -
  have w: "table_wf cfg (m_hits (offs (hopm l)))" "rssi_wf (chan_rssi (hopm l))"
    using assms(2) by (simp_all add: link_wf_def hop_wf_def)
  note off = get_offenders_bounds [OF w(1), of "zrc_persist cfg" "quar (hopm l)"]
  have "length rssibuf = 97" using assms(4) by simp
  note rows = rssi_rows_complete [OF get_rssi_bounds [OF w(2)] this]
  note lines = offender_lines_complete [OF off [THEN conjunct2] off [THEN conjunct1] zrc_persist_byte assms(3)]
  show ?thesis
    unfolding Let_def
    by (rule conjI [OF _ get_offenders_top [OF w(1)]]) (use lines in \<open>simp add: cmd_esb_status_def rssi_lines_def Let_def rows\<close>)
qed

theorem status_text_complete_witness:
  "cmd_esb_status default_kconfig 7 pairing_boot endpoint_boot up_link (replicate 61 CHR ''x'') (replicate 97 CHR ''x'') \<noteq> None"
  using status_text_complete [where cfg = default_kconfig and l = up_link and offbuf = "replicate 61 CHR ''x''"
      and rssibuf = "replicate 97 CHR ''x''" and now = 7 and p = pairing_boot and e = endpoint_boot]
  by (simp add: up_link_wf Let_def zrc_persist_def)

text \<open>
  Zero is a setting that the registration of the option allows. It empties the avoided set, and makes
  the array of the status command one of no elements, which C leaves undefined.
\<close>

lemma zero_setting_empty_array:
  assumes "c_persist_rt cfg = Some 0"
  shows "zrc_persist cfg = 0 \<and> avoided (snd (persist_rebuild_avoided cfg rdv (s, q))) = []"
  using assms by (simp add: zrc_persist_def persist_n_def persist_rebuild_avoided_def avoided_def)

text \<open>
  The line of this session shows only channels that are among the worst of all time: a channel condemned
  since boot is missing as soon as enough others have more hits.
\<close>

lemma session_offender_hidden:
  assumes "c_persist_rt cfg = Some 1"
    and "m_hits s = [\<lparr>hit_channel = 7, hit_hits = 9, hit_session = 0\<rparr>, \<lparr>hit_channel = 12, hit_hits = 3, hit_session = 3\<rparr>]"
  shows "\<forall>(h, kept) \<in> set (get_offenders (zrc_persist cfg) (s, q)). hit_session h = 0"
proof -
  have "zrc_persist cfg = Suc 0" using assms(1) by (simp add: zrc_persist_def)
  moreover have "best_index (\<lambda>_. True) (m_hits s) {} = Some 0" by (simp add: assms(2) best_index_def)
  ultimately show ?thesis by (simp add: get_offenders_def assms(2))
qed

end
