(* ===== verification/Slot.thy ===== *)
theory Slot
  imports Sending
begin

text \<open>
  What a switch of the radio does to the hardware it shares with Bluetooth, in
  \<open>src/src/esb/esb_transport.c\<close>: the PPI channels of the link layer, the reference on the oscillator
  and the radio's entry in the vector table. The radio library's own part of the switch is in the
  theory of the sends (\<open>esb_transport_on_slot_start\<close>); here its outcome is an argument.
\<close>

section \<open>State\<close>

text \<open>
  \<open>hf_own\<close> and \<open>hf_others\<close> are the references that the clock driver counts for this file and for the
  rest of the firmware, the calibrator among them: the oscillator runs while there is one.
\<close>

record periph =
  ppi_chen :: u32
  saved_chen :: u32
  ll_suspended :: bool
  hf_own :: nat
  hf_others :: nat
  hfclk_held :: bool
  radio_vec :: u32
  saved_vec :: u32
  vtor_installed :: bool

definition bt_ll_ppi_mask :: u32 where
  "bt_ll_ppi_mask = 0x02CFFFC0"

definition hfxo_runs :: "periph \<Rightarrow> bool" where
  "hfxo_runs p \<longleftrightarrow> 0 < hf_own p + hf_others p"

section \<open>Operations\<close>

definition bt_ll_suspend :: "periph \<Rightarrow> periph" where
  "bt_ll_suspend p =
     (if ll_suspended p then p
      else p\<lparr>saved_chen := ppi_chen p AND bt_ll_ppi_mask, ppi_chen := ppi_chen p AND NOT bt_ll_ppi_mask, ll_suspended := True\<rparr>)"

definition bt_ll_resume :: "periph \<Rightarrow> periph" where
  "bt_ll_resume p =
     (if \<not> ll_suspended p then p else p\<lparr>ppi_chen := ppi_chen p OR saved_chen p, ll_suspended := False\<rparr>)"

text \<open>
  \<open>req\<close> is what \<open>onoff_request\<close> answers, \<open>res\<close> the outcome that the notification delivers in the end.
  The driver counts the reference when the start succeeds.
\<close>

definition hfxo_request :: "rc \<Rightarrow> rc \<Rightarrow> periph \<Rightarrow> rc \<times> periph" where
  "hfxo_request req res p =
     (if hfclk_held p then (OK, p)
      else if req \<noteq> OK then (req, p)
      else (res, p\<lparr>hf_own := (if res = OK then hf_own p + 1 else hf_own p), hfclk_held := (res = OK)\<rparr>))"

definition hfxo_release :: "periph \<Rightarrow> periph" where
  "hfxo_release p = (if \<not> hfclk_held p then p else p\<lparr>hf_own := hf_own p - 1, hfclk_held := False\<rparr>)"

text \<open>The copy of the table in RAM; \<open>flash\<close> is the radio's entry of the table in flash.\<close>

definition install_ram_vtor :: "u32 \<Rightarrow> periph \<Rightarrow> periph" where
  "install_ram_vtor flash p =
     (if vtor_installed p then p else p\<lparr>radio_vec := flash, saved_vec := flash, vtor_installed := True\<rparr>)"

text \<open>\<open>dispatch\<close> is the address of the handler that reaches ESB, \<open>init\<close> what the radio library answered.\<close>

definition slot_start_periph :: "u32 \<Rightarrow> rc \<Rightarrow> rc \<Rightarrow> rc \<Rightarrow> periph \<Rightarrow> periph" where
  "slot_start_periph dispatch req res init p =
     (let p1 = snd (hfxo_request req res (bt_ll_suspend p))
      in if init \<noteq> OK then p1 else p1\<lparr>radio_vec := dispatch\<rparr>)"

definition slot_stop_periph :: "periph \<Rightarrow> periph" where
  "slot_stop_periph p =
     (let p1 = (if vtor_installed p then p\<lparr>radio_vec := saved_vec p\<rparr> else p)
      in hfxo_release (bt_ll_resume p1))"

section \<open>A slot\<close>

text \<open>
  What may happen between the first start and the stop: further starts, with any outcome; ESB enabling
  and disabling its own PPI channels; references of others on the oscillator.
\<close>

datatype slot_event = Slot_Start rc rc rc | Slot_Ppi u32 | Slot_Hf nat

definition slot_step :: "u32 \<Rightarrow> slot_event \<Rightarrow> periph \<Rightarrow> periph" where
  "slot_step dispatch ev p = (case ev of
     Slot_Start req res init \<Rightarrow> slot_start_periph dispatch req res init p
   | Slot_Ppi chen \<Rightarrow> p\<lparr>ppi_chen := (ppi_chen p AND bt_ll_ppi_mask) OR (chen AND NOT bt_ll_ppi_mask)\<rparr>
   | Slot_Hf n \<Rightarrow> p\<lparr>hf_others := n\<rparr>)"

text \<open>The state that a slot starts from and returns to.\<close>

definition bt_owns :: "periph \<Rightarrow> bool" where
  "bt_owns p \<longleftrightarrow> \<not> ll_suspended p \<and> \<not> hfclk_held p \<and> hf_own p = 0 \<and> vtor_installed p \<and> radio_vec p = saved_vec p"

definition esb_owns :: "periph \<Rightarrow> periph \<Rightarrow> bool" where
  "esb_owns p0 p \<longleftrightarrow> ll_suspended p \<and> saved_chen p = ppi_chen p0 AND bt_ll_ppi_mask \<and> ppi_chen p AND bt_ll_ppi_mask = 0
     \<and> hf_own p = of_bool (hfclk_held p) \<and> vtor_installed p \<and> saved_vec p = saved_vec p0"

text \<open>The mask is what its comment says: channels 6 to 19, 22, 23 and 25.\<close>

lemma ppi_mask_channels: "bit bt_ll_ppi_mask n \<longleftrightarrow> n \<in> {6..19} \<union> {22, 23, 25}"
proof (cases "n < 32")
  case True
  have "list_all (\<lambda>n. bit bt_ll_ppi_mask n \<longleftrightarrow> n \<in> {6..19} \<union> {22, 23, 25}) [0..<32]"
    by (simp add: bt_ll_ppi_mask_def upt_conv_Cons del: upt_Suc)
  with True show ?thesis by (simp add: list_all_iff)
next
  case False
  then have "\<not> bit bt_ll_ppi_mask n" using bit_imp_le_length [of bt_ll_ppi_mask n] by auto
  with False show ?thesis by auto
qed

lemma masked [simp]: "(x AND NOT m) AND m = (0 :: u32)" "x AND NOT m OR (x AND m) = (x :: u32)"
  by (auto simp: bit_eq_iff bit_simps)

lemma start_owns:
  assumes "bt_owns p \<and> p0 = p \<or> esb_owns p0 p"
  shows "esb_owns p0 (slot_start_periph dispatch req res init p)"
  using assms by (auto simp: slot_start_periph_def bt_ll_suspend_def hfxo_request_def bt_owns_def esb_owns_def Let_def)

lemma step_owns:
  assumes "esb_owns p0 p"
  shows "esb_owns p0 (slot_step dispatch ev p)"
proof (cases ev)
  case (Slot_Start req res init)
  then show ?thesis using start_owns assms by (simp add: slot_step_def)
next
  case (Slot_Ppi chen)
  have "(0 OR (chen AND NOT bt_ll_ppi_mask)) AND bt_ll_ppi_mask = 0" by simp
  with Slot_Ppi assms show ?thesis by (simp add: slot_step_def esb_owns_def)
next
  case (Slot_Hf n)
  then show ?thesis using assms by (simp add: slot_step_def esb_owns_def)
qed

interpretation slot_kept: step_invariant "\<lambda>p p'. \<exists>ev. p' = slot_step dispatch ev p" "esb_owns p0" for dispatch p0
  by unfold_locales (auto simp: step_owns)

lemma stop_owns:
  assumes "esb_owns p0 p" "bt_owns p0"
  shows "bt_owns (slot_stop_periph p) \<and> ppi_chen (slot_stop_periph p) AND bt_ll_ppi_mask = ppi_chen p0 AND bt_ll_ppi_mask
    \<and> radio_vec (slot_stop_periph p) = radio_vec p0 \<and> hf_others (slot_stop_periph p) = hf_others p"
proof -
  have "(ppi_chen p OR (ppi_chen p0 AND bt_ll_ppi_mask)) AND bt_ll_ppi_mask
      = (ppi_chen p AND bt_ll_ppi_mask) OR (ppi_chen p0 AND bt_ll_ppi_mask)"
    by (auto simp: bit_eq_iff bit_simps)
  with assms show ?thesis
    by (auto simp: slot_stop_periph_def bt_ll_resume_def hfxo_release_def esb_owns_def bt_owns_def Let_def)
qed

text \<open>
  C20. A slot gives the hardware back as it found it. However often ESB starts before it stops, whatever
  the clock driver and the radio library answer, whatever ESB does to its own PPI channels and others
  to the oscillator: while the slot lasts the link layer's channels are all off and a reference is held
  exactly when the oscillator was started, so that it cannot stop; after the stop the link layer has the channels it
  had, the radio's vector is its own, no reference is left, and the next slot can start.
\<close>

theorem slot_returns_hardware:
  assumes "bt_owns p"
  shows "let during = fold (slot_step dispatch) evs (slot_start_periph dispatch req res init p);
             back = slot_stop_periph during
    in ppi_chen during AND bt_ll_ppi_mask = 0 \<and> (hfclk_held during \<longrightarrow> hfxo_runs during)
     \<and> bt_owns back \<and> ppi_chen back AND bt_ll_ppi_mask = ppi_chen p AND bt_ll_ppi_mask
     \<and> radio_vec back = radio_vec p \<and> hf_own back + hf_others back = hf_others during"
proof -
  have "esb_owns p (fold (slot_step dispatch) evs (slot_start_periph dispatch req res init p))"
    using start_owns assms by (intro slot_kept.run_keeps [where f = "slot_step dispatch"]) blast+
  with stop_owns [OF this assms] show ?thesis
    by (auto simp: Let_def esb_owns_def bt_owns_def hfxo_runs_def)
qed

definition demo_periph :: periph where
  "demo_periph = \<lparr>ppi_chen = 0x00C00FC1, saved_chen = 0, ll_suspended = False, hf_own = 0, hf_others = 1, hfclk_held = False,
     radio_vec = 0x8001, saved_vec = 0x8001, vtor_installed = True\<rparr>"

theorem slot_returns_hardware_witness:
  "ppi_chen (slot_stop_periph (slot_step 0x9001 (Slot_Start OK OK OK) (slot_start_periph 0x9001 OK OK OK demo_periph)))
     AND bt_ll_ppi_mask = 0x00C00FC0"
proof -
  have "bt_owns demo_periph" by (simp add: bt_owns_def demo_periph_def)
  from slot_returns_hardware [OF this, where dispatch = "0x9001" and evs = "[Slot_Start OK OK OK]" and req = OK and res = OK
      and init = OK]
  show ?thesis by (simp add: demo_periph_def bt_ll_ppi_mask_def Let_def)
qed

text \<open>The first thing that is installed is a slot's starting point.\<close>

lemma install_owns: "\<not> ll_suspended p \<Longrightarrow> \<not> hfclk_held p \<Longrightarrow> hf_own p = 0 \<Longrightarrow> \<not> vtor_installed p \<Longrightarrow> bt_owns (install_ram_vtor v p)"
  by (simp add: bt_owns_def install_ram_vtor_def)

section \<open>The slot as the transport sees it\<close>

text \<open>
  The transport's two flags are those of the shared hardware, through every start and stop: the state
  of the transport abstracts from the registers behind them.
\<close>

definition flags_agree :: "transport \<Rightarrow> periph \<Rightarrow> bool" where
  "flags_agree t p \<longleftrightarrow> bt_suspended t = ll_suspended p \<and> hfxo_held t = hfclk_held p"

lemma slot_start_refines:
  fixes req res :: rc and p :: periph
  assumes "flags_agree (tr l) p"
  defines "hf \<equiv> fst (hfxo_request req res p)"
  shows "flags_agree (tr (esb_transport_on_slot_start cfg hf tm ppi l)) (slot_start_periph dispatch req res init p)"
proof -
  have f: "(bt_suspended (tr l'), hfxo_held (tr l')) = (bt_suspended (tr k), hfxo_held (tr k))"
    if "esb_init_and_configure cfg tm ppi k = (r, l')" for r l' k
    using that by (cases "t_configured (tr k)") (simp_all add: esb_init_and_configure_def split_beta Let_def split: rc.splits, auto)
  have "hfclk_held (snd (hfxo_request req res (bt_ll_suspend p))) = (hfclk_held p \<or> hf = OK)"
    "ll_suspended (snd (hfxo_request req res (bt_ll_suspend p)))"
    by (auto simp: hf_def hfxo_request_def bt_ll_suspend_def)
  with assms(1) show ?thesis
    by (auto simp: flags_agree_def esb_transport_on_slot_start_def slot_start_periph_def Let_def dest!: f split: prod.split)
qed

lemma slot_stop_refines:
  "flags_agree (tr (esb_transport_on_slot_stop l)) (slot_stop_periph p)"
  by (simp add: flags_agree_def esb_transport_on_slot_stop_def slot_stop_periph_def bt_ll_resume_def hfxo_release_def Let_def)

end
