(* ===== verification/Waits.thy ===== *)
theory Waits
  imports Config
begin

text \<open>
  Time in the build and in the wait for a quiet radio: the build assertions on the timing options
  (\<open>src/src/esb/channel_hop_ep.c\<close>), and the loop in which \<open>esb_transport_flush_tx\<close>
  (\<open>src/src/esb/esb_transport.c\<close>) waits until the radio has been silent, or long enough.
\<close>

section \<open>Build assertions\<close>

text \<open>\<open>rdv_timeout\<close> is the timeout of the side trip, an option that only this check reads as a number.\<close>

definition build_asserts :: "kconfig \<Rightarrow> u32 \<Rightarrow> bool" where
  "build_asserts c rdv_timeout \<longleftrightarrow>
     (c_weak_link_ms c = 0 \<or> c_weak_link_ms c > c_tx_fail_window_ms c)
   \<and> (c_rdv_fallback_ms c = 0 \<or> c_rdv_fallback_ms c < c_hop_cooldown_ms c)
   \<and> c_motion_stale_ms c \<ge> c_post_quiet_ms c
   \<and> c_negotiate_interval_ms c > c_negotiate_retry_ms c
   \<and> rdv_timeout < c_burst_interval_ms c
   \<and> c_rssi_max c > c_rssi_min c
   \<and> c_rssi_alpha c \<le> c_rssi_scale c"

text \<open>What a valid configuration does not give by itself: the two that compare further intervals.\<close>

lemma build_asserts_ok:
  "kconfig_ok c \<Longrightarrow> build_asserts c t \<longleftrightarrow> c_negotiate_retry_ms c < c_negotiate_interval_ms c \<and> t < c_burst_interval_ms c"
  by (auto simp: kconfig_ok_def build_asserts_def)

section \<open>The wait before a flush\<close>

text \<open>
  \<open>clk n\<close> is the clock that turn \<open>n\<close> of the loop reads, \<open>ev n\<close> the time of the radio's last event as it
  finds it, which interrupts move on. The loop has no counter, so that not returning is \<open>None\<close>; its
  value is the turn that left it.
\<close>

partial_function (option) flush_wait :: "kconfig \<Rightarrow> u32 \<Rightarrow> (nat \<Rightarrow> u32) \<Rightarrow> (nat \<Rightarrow> u32) \<Rightarrow> nat \<Rightarrow> nat option" where
  "flush_wait cfg start clk ev n =
     (let now = clk n; since_evt = (if ev n = 0 then - 1 else now - ev n)
      in if c_flush_quiet_ms cfg \<le> since_evt then Some n
         else if c_flush_force_ms cfg \<le> now - start then Some n
         else flush_wait cfg start clk ev (n + 1))"

text \<open>When the quiet time is configured off, there is no loop.\<close>

definition flush_turns :: "kconfig \<Rightarrow> u32 \<Rightarrow> (nat \<Rightarrow> u32) \<Rightarrow> (nat \<Rightarrow> u32) \<Rightarrow> nat option" where
  "flush_turns cfg start clk ev = (if 0 < c_flush_quiet_ms cfg then flush_wait cfg start clk ev 0 else Some 0)"

text \<open>Turn \<open>n\<close> leaves the loop.\<close>

definition wait_over :: "kconfig \<Rightarrow> u32 \<Rightarrow> (nat \<Rightarrow> u32) \<Rightarrow> (nat \<Rightarrow> u32) \<Rightarrow> nat \<Rightarrow> bool" where
  "wait_over cfg start clk ev n \<longleftrightarrow> ev n = 0 \<or> c_flush_quiet_ms cfg \<le> clk n - ev n \<or> c_flush_force_ms cfg \<le> clk n - start"

lemma flush_wait_turn:
  "flush_wait cfg start clk ev n = (if wait_over cfg start clk ev n then Some n else flush_wait cfg start clk ev (n + 1))"
  by (subst flush_wait.simps) (simp add: wait_over_def Let_def)

lemma flush_wait_reaches:
  "n \<le> m \<Longrightarrow> wait_over cfg start clk ev m
    \<Longrightarrow> \<exists>k. flush_wait cfg start clk ev n = Some k \<and> n \<le> k \<and> k \<le> m \<and> wait_over cfg start clk ev k
      \<and> (\<forall>i. n \<le> i \<and> i < k \<longrightarrow> \<not> wait_over cfg start clk ev i)"
proof (induction "m - n" arbitrary: n)
  case 0
  then show ?case by (subst flush_wait_turn) auto
next
  case (Suc d)
  show ?case
  proof (cases "wait_over cfg start clk ev n")
    case True
    with Suc.prems show ?thesis by (subst flush_wait_turn) auto
  next
    case False
    with Suc.prems have "n + 1 \<le> m" by (metis Suc_eq_plus1 le_neq_implies_less Suc_leI)
    moreover have "d = m - (n + 1)" using Suc.hyps(2) by simp
    ultimately obtain k where "flush_wait cfg start clk ev (n + 1) = Some k" "n + 1 \<le> k" "k \<le> m" "wait_over cfg start clk ev k"
        "\<forall>i. n + 1 \<le> i \<and> i < k \<longrightarrow> \<not> wait_over cfg start clk ev i"
      using Suc.hyps(1) Suc.prems(2) by blast
    with False show ?thesis
      by (subst flush_wait_turn) (auto simp: not_less_eq_eq intro!: exI [of _ k] dest: le_neq_implies_less)
  qed
qed

text \<open>
  The wait before a flush ends. Given that a sleep of a millisecond takes at least one and less than
  a day, the loop leaves at the latest in the turn whose number is the forced timeout, whatever the
  radio does meanwhile and wherever the clock wraps; it leaves in the first turn that finds the radio
  silent for the quiet time, or the timeout over.
\<close>

lemma flush_wait_bounded:
  fixes elapsed :: "nat \<Rightarrow> nat"
  assumes "\<And>n. clk n = start + of_nat (elapsed n)"
    and "elapsed 0 < 86400000" "\<And>n. elapsed n < elapsed (n + 1) \<and> elapsed (n + 1) < elapsed n + 86400000"
    and "unat (c_flush_force_ms cfg) \<le> 86400000"
  shows "\<exists>k. flush_turns cfg start clk ev = Some k \<and> k \<le> unat (c_flush_force_ms cfg)
    \<and> (0 < c_flush_quiet_ms cfg \<longrightarrow> (ev k = 0 \<or> c_flush_quiet_ms cfg \<le> clk k - ev k \<or> c_flush_force_ms cfg \<le> clk k - start)
        \<and> (\<forall>i < k. ev i \<noteq> 0 \<and> clk i - ev i < c_flush_quiet_ms cfg \<and> clk i - start < c_flush_force_ms cfg))"
proof -
  let ?F = "unat (c_flush_force_ms cfg)"
  have grow: "n \<le> elapsed n" for n using assms(3) by (induction n) (auto simp: le_less_trans less_Suc_eq_le Suc_le_eq)
  define m where "m = (LEAST n. ?F \<le> elapsed n)"
  have m: "?F \<le> elapsed m" "m \<le> ?F"
    unfolding m_def using grow [of ?F] by (rule LeastI, rule Least_le)
  have "elapsed m < 2 ^ 32"
  proof (cases m)
    case (Suc j)
    then have "elapsed j < ?F" using not_less_Least [of j "\<lambda>n. ?F \<le> elapsed n"] by (simp add: m_def)
    with assms(3) [of j] assms(4) Suc show ?thesis by simp
  qed (use assms(2) in simp)
  then have "c_flush_force_ms cfg \<le> clk m - start"
    using m(1) by (simp add: assms(1) word_le_nat_alt unsigned_of_nat take_bit_nat_eq_self)
  then have "wait_over cfg start clk ev m" by (simp add: wait_over_def)
  from flush_wait_reaches [OF le0 this] obtain k where
    "flush_wait cfg start clk ev 0 = Some k" "k \<le> m" "wait_over cfg start clk ev k" "\<forall>i < k. \<not> wait_over cfg start clk ev i"
    by auto
  with m(2) show ?thesis
    by (cases "0 < c_flush_quiet_ms cfg") (auto simp: flush_turns_def wait_over_def not_le)
qed

end
