(* ===== verification/System.thy ===== *)
theory System
  imports Endpoint Senders
begin

text \<open>
  The whole endpoint: the control, the pairing, the link, the relay and the input processor in one
  state, the steps that interrupts, work items, threads and listeners take on it in any order, and
  what holds in every state that is reached.
\<close>

section \<open>What the hop manager's hooks leave alone\<close>

lemma link_up_hooks [simp]:
  "link_up (channel_hop_ep_note_user_tx cfg rdv now h) = link_up h"
  "link_up (channel_hop_ep_on_tx_success_isr cfg now h) = link_up h"
  "link_up (channel_hop_ep_on_tx_fail_isr cfg now h) = link_up h"
  "link_up (channel_hop_ep_on_link_degraded_isr now h) = link_up h"
  "link_up (channel_hop_ep_note_peer_rssi cfg cur e h) = link_up h"
  "link_up (channel_hop_ep_on_rx cfg now data h) = link_up h"
  "link_up (channel_hop_ep_on_request cfg h) = link_up h"
  by (simp_all add: channel_hop_ep_note_user_tx_def enter_active_state_def channel_hop_ep_on_tx_success_isr_def
      channel_hop_ep_on_tx_fail_isr_def tx_fail_hop_def channel_hop_ep_on_link_degraded_isr_def
      channel_hop_ep_note_peer_rssi_def channel_hop_ep_on_rx_def on_confirm_def on_accept_def
      channel_hop_ep_on_request_def hop_simps)

lemma link_up_pick [simp]:
  "link_up (snd (pick_candidate cfg now cyc cur h)) = link_up h"
  "link_up (snd (select_pending_candidate cfg now cyc cur h)) = link_up h"
  "link_up (snd (coop_hop_pick_target cfg now cyc cur h)) = link_up h"
  "link_up (snd (hop_decide cfg now cyc rdv cur h)) = link_up h"
  by (simp_all add: pick_candidate_def select_pending_candidate_def coop_hop_pick_target_def hop_decide_def split_beta Let_def)

lemma link_up_bookkeeping [simp]:
  "link_up (hop_resched w d h) = link_up h" "link_up (on_offs f h) = link_up h" "link_up (leave_active h) = link_up h"
  "link_up (hop_committed cfg now rdv cur kind target h) = link_up h" "link_up (coop_committed cfg now rdv cur h) = link_up h"
  "link_up (persist_work_fn cfg rdv h) = link_up h" "link_up (rssi_persist_work_fn cfg h) = link_up h"
  "link_up (hop_retry_work_fn h) = link_up h"
  by (simp_all add: leave_active_def hop_committed_def coop_committed_def commit_hop_bookkeeping_def
      start_post_hop_burst_def unban_def persist_work_fn_def rssi_persist_work_fn_def hop_retry_work_fn_def hop_simps
      split: hop_kind.split)

text \<open>The link as the hop manager sees it, through every call of the transport.\<close>

definition up :: "link \<Rightarrow> bool" where
  "up l = link_up (hopm l)"

lemma up_steps [simp]:
  "up (on_tr f l) = up l" "up (on_radio k l) = up l" "up (l\<lparr>radio := s\<rparr>) = up l" "up (l\<lparr>tr := t\<rparr>) = up l"
  "up (l\<lparr>bn := b\<rparr>) = up l" "up (on_bn e l) = up l" "up (esb_flush_tx_and_reset cfg l) = up l"
  "up (esb_restore_tx_or_drop cfg l) = up l" "up (consume_motion cfg now failed l) = up l"
  "up (consume_override l) = up l" "up (apply_jitter cfg now addr l) = up l"
  by (simp_all add: up_def on_bn_def consume_override_def restore_retransmit_count_def split_beta Let_def)

lemma up_on_hop: "up (on_hop g l) = link_up (g (hopm l))" "up (l\<lparr>hopm := h\<rparr>) = link_up h"
  by (simp_all add: up_def)

lemma up_send [simp]: "up (snd (esb_transport_send cfg now addr pipe data l)) = up l"
proof -
  have "up (snd (transmit cfg now pipe data k)) = up k" for k
    by (simp add: transmit_def split_beta Let_def) (simp add: up_def attach_parts note_send_parts)
  then show ?thesis by (simp add: esb_transport_send_def Let_def)
qed

lemma up_trip [simp]:
  "up (snd (send_blocking_begin cfg ch pipe data l)) = up l" "up (snd (send_blocking_finish cfg l)) = up l"
  "up (snd (esb_transport_set_channel cfg now ch l)) = up l" "up (esb_transport_flush_tx cfg l) = up l"
  by (simp_all add: send_blocking_begin_def send_blocking_finish_def esb_transport_set_channel_def retune_def
      esb_transport_flush_tx_def split_beta Let_def)

lemma up_send_pkt [simp]: "up (snd (send_pkt cfg now addr p l)) = up l" "up (send_proposal cfg now addr c l) = up l"
  "up (send_idle_packet cfg now addr l) = up l"
  by (simp_all add: send_pkt_def send_proposal_def send_idle_packet_def)

lemma up_burst_tail [simp]: "up (burst_tail cfg now addr l) = up l"
  by (simp add: burst_tail_def Let_def up_on_hop) (simp add: up_def)

lemma up_work [simp]:
  "up (negotiate_work_fn cfg now cyc addr l) = up l" "up (idle_check_work_fn cfg now addr l) = up l"
  "up (snd (post_hop_burst_work_fn cfg now cyc addr l)) = up l" "up (post_hop_burst_resume cfg now addr l) = up l"
  "up (hop_work_fn cfg now cyc l) = up l" "up (coop_hop_offer_work_fn cfg now cyc addr l) = up l"
  "up (coop_hop_commit_work_fn cfg now l) = up l"
  "up (bench_complete_fn cfg now addr l) = up l" "up (bench_result_poll_fn cfg now addr l) = up l"
proof -
  have h [simp]: "link_up (hopm (f l)) = up (f l)" for f :: "link \<Rightarrow> link" and l by (simp add: up_def)
  show "up (negotiate_work_fn cfg now cyc addr l) = up l"
    by (simp add: negotiate_work_fn_def split_beta Let_def up_on_hop flip: up_def)
  show "up (idle_check_work_fn cfg now addr l) = up l"
    by (simp add: idle_check_work_fn_def enter_idle_state_def up_on_hop) (simp add: up_def)
  show "up (snd (post_hop_burst_work_fn cfg now cyc addr l)) = up l"
    by (simp add: post_hop_burst_work_fn_def split_beta Let_def up_on_hop) (simp add: up_def)
  show "up (post_hop_burst_resume cfg now addr l) = up l" by (simp add: post_hop_burst_resume_def)
  show "up (hop_work_fn cfg now cyc l) = up l"
    by (auto simp: hop_work_fn_def split_beta Let_def up_on_hop split: option.split simp flip: up_def)
  show "up (coop_hop_offer_work_fn cfg now cyc addr l) = up l"
    by (simp add: coop_hop_offer_work_fn_def split_beta Let_def up_on_hop flip: up_def)
  show "up (coop_hop_commit_work_fn cfg now l) = up l"
    by (simp add: coop_hop_commit_work_fn_def split_beta Let_def up_on_hop flip: up_def)
  show "up (bench_complete_fn cfg now addr l) = up l" "up (bench_result_poll_fn cfg now addr l) = up l"
    by (simp_all add: bench_complete_fn_def bench_result_poll_fn_def Let_def)
qed

section \<open>Events of the radio\<close>

lemma rx_drain_frame: "t_channel (fst (rx_drain cfg (t, s))) = t_channel t \<and> boot_channel (fst (rx_drain cfg (t, s))) = boot_channel t
    \<and> t_configured (fst (rx_drain cfg (t, s))) = t_configured t"
proof (induction cfg "(t, s)" arbitrary: t s rule: rx_drain.induct)
  case (1 cfg t s)
  then show ?case
    by (subst (1 2 3) rx_drain.simps) (auto simp: rx_publish_def Let_def split: sum.split prod.split)
qed

lemma event_frame [simp]:
  "place (zmk_esb_transport_evt_cb cfg now ev l) = place l" "up (zmk_esb_transport_evt_cb cfg now ev l) = up l"
proof -
  have d: "place (degraded_check cfg now k) = place k" "up (degraded_check cfg now k) = up k" for k
    by (simp_all add: degraded_check_def Let_def place_def up_def)
  have o: "place (consume_override k) = place k" for k
    by (simp add: place_def consume_override_def restore_retransmit_count_def split_beta Let_def)
  have r: "place (record_success cfg now a k) = place k" "up (record_success cfg now a k) = up k" for a k
    by (simp_all add: record_success_def split_beta Let_def d) (simp_all add: place_def)
  have w: "place (weak_link cfg now (fail_window cfg now k)) = place k" "up (weak_link cfg now (fail_window cfg now k)) = up k" for k
    by (simp_all add: weak_link_def fail_window_def Let_def place_def up_def)
  have t: "place (on_tr f k) = place k" if "\<And>t. (t_channel (f t), boot_channel (f t), t_configured (f t)) = (t_channel t, boot_channel t, t_configured t)" for f k
    using that by (simp add: place_def)
  show "place (zmk_esb_transport_evt_cb cfg now ev l) = place l"
    by (cases ev) (simp_all add: zmk_esb_transport_evt_cb_def on_tx_success_def on_tx_failed_def Let_def o r w t split_beta
        rx_drain_frame, simp_all add: place_def rx_drain_frame)
  show "up (zmk_esb_transport_evt_cb cfg now ev l) = up l"
    by (cases ev) (simp_all add: zmk_esb_transport_evt_cb_def on_tx_success_def on_tx_failed_def Let_def r w split_beta,
        simp_all add: up_def)
qed

lemma interrupt_frame [simp]:
  "place (esb_event_interrupt cfg now l) = place l" "up (esb_event_interrupt cfg now l) = up l"
proof -
  have "place (fold (zmk_esb_transport_evt_cb cfg now) evs k) = place k \<and> up (fold (zmk_esb_transport_evt_cb cfg now) evs k) = up k" for evs k
    by (induction evs arbitrary: k) simp_all
  then show "place (esb_event_interrupt cfg now l) = place l" "up (esb_event_interrupt cfg now l) = up l"
    by (simp_all add: esb_event_interrupt_def split_beta)
qed

section \<open>Reception\<close>

lemma rx_link_frame:
  "place (snd (pairing_on_rx cfg now addr data (p, l))) = place l"
  by (simp add: pairing_on_rx_def Let_def on_pair_req_def on_verify_resp_def on_disconnect_def on_resync_def
      send_pair_resp_def connected_def esb_transport_on_rx_link_stats_def) (simp add: place_def)

lemma link_wf_connected: "link_wf cfg l \<Longrightarrow> link_wf cfg (connected cfg now l)"
  unfolding connected_def by (rule link_wf_hop) (auto intro: hop_wf_connected)

lemma link_wf_disconnected: "link_wf cfg l \<Longrightarrow> link_wf cfg (on_hop channel_hop_ep_on_disconnected l)"
  by (rule link_wf_hop) (auto intro: hop_wf_disconnected)

lemma link_wf_rx:
  assumes "kconfig_ok cfg" "link_wf cfg l"
  shows "link_wf cfg (snd (pairing_on_rx cfg now addr data (p, l)))"
  using assms(2)
  by (auto simp: pairing_on_rx_def Let_def on_pair_req_def on_verify_resp_def on_disconnect_def on_resync_def
      send_pair_resp_def intro!: link_wf_connected link_wf_disconnected link_wf_send_pkt link_wf_stats [OF assms(1)]
      link_wf_hop hop_wf_rx hop_wf_request)

text \<open>
  The hop manager is up while the pairing is connected and down while the pairing is stopped.
\<close>

definition agrees :: "pairing \<times> link \<Rightarrow> bool" where
  "agrees = (\<lambda>(p, l). (p_state p = PAIRING_STATE_CONNECTED \<longrightarrow> up l) \<and> (p_state p = PAIRING_STATE_IDLE \<longrightarrow> \<not> up l))"

lemma agrees_hop: "agrees (p, l) \<Longrightarrow> up l' = up l \<Longrightarrow> agrees (p, l')"
  by (simp add: agrees_def)

lemma agrees_handlers:
  assumes "agrees (p, l)"
  shows "agrees (on_pair_req cfg now addr data (p, l))" "agrees (on_verify_resp cfg now data (p, l))"
    "agrees (on_disconnect cfg (p, l))" "agrees (on_resync (p, l))"
proof -
  have c: "up (connected cfg now k)" "\<not> up (on_hop channel_hop_ep_on_disconnected k)" for k
    by (simp_all add: connected_def up_on_hop)
  show "agrees (on_pair_req cfg now addr data (p, l))"
    using assms by (simp add: on_pair_req_def Let_def) (simp add: agrees_def c save_paired_def)
  show "agrees (on_verify_resp cfg now data (p, l))"
    using assms by (simp add: on_verify_resp_def) (simp add: agrees_def c)
  show "agrees (on_disconnect cfg (p, l))"
    by (simp add: on_disconnect_def agrees_def c p_resched_def p_cancel_def forget_peer_def save_paired_def)
  show "agrees (on_resync (p, l))"
    using assms by (simp add: on_resync_def) (simp add: agrees_def c p_resched_def)
qed

lemma rx_agrees:
  assumes "agrees (p, l)"
  shows "agrees (pairing_on_rx cfg now addr data (p, l))"
proof -
  have h: "up (on_hop g l) = up l" if "\<And>h. link_up (g h) = link_up h" for g using that by (simp add: up_def)
  have "up (esb_transport_on_rx_link_stats cfg data l) = up l"
    by (simp add: esb_transport_on_rx_link_stats_def up_on_hop) (simp add: up_def)
  then show ?thesis
    using assms agrees_handlers [OF assms] agrees_hop [OF assms h] agrees_hop [OF assms]
    by (simp add: pairing_on_rx_def Let_def)
qed

section \<open>The state of the endpoint\<close>

record env =
  en_cfg :: kconfig
  en_hid :: hid_cfg
  en_codes :: input_codes
  en_ep :: ep_cfg

record system =
  sy_ep :: endpoint
  sy_p :: pairing
  sy_l :: link
  sy_h :: hid
  sy_d :: ip_data
  sy_away :: bool

definition on_link :: "(link \<Rightarrow> link) \<Rightarrow> system \<Rightarrow> system" where
  "on_link f s = s\<lparr>sy_l := f (sy_l s)\<rparr>"

definition on_pairing :: "(pairing \<times> link \<Rightarrow> pairing \<times> link) \<Rightarrow> system \<Rightarrow> system" where
  "on_pairing f s = (let (p, l) = f (sy_p s, sy_l s) in s\<lparr>sy_p := p, sy_l := l\<rparr>)"

definition on_hid :: "(hid \<times> link \<Rightarrow> hid \<times> link) \<Rightarrow> system \<Rightarrow> system" where
  "on_hid f s = (let (h, l) = f (sy_h s, sy_l s) in s\<lparr>sy_h := h, sy_l := l\<rparr>)"

definition on_ip :: "(ip_data \<times> link \<Rightarrow> ip_data \<times> link) \<Rightarrow> system \<Rightarrow> system" where
  "on_ip f s = (let (d, l) = f (sy_d s, sy_l s) in s\<lparr>sy_d := d, sy_l := l\<rparr>)"

definition on_control :: "(endpoint \<times> pairing \<times> link \<Rightarrow> endpoint \<times> pairing \<times> link) \<Rightarrow> system \<Rightarrow> system" where
  "on_control f s = (let (e, p, l) = f (sy_ep s, sy_p s, sy_l s) in s\<lparr>sy_ep := e, sy_p := p, sy_l := l\<rparr>)"

text \<open>A work item of the hop manager or of the benchmark, taken off its queue as it starts.\<close>

definition take_hop :: "hop_work_item \<Rightarrow> link \<Rightarrow> link" where
  "take_hop w l = on_hop (hop_cancel w) l"

fun hop_task :: "kconfig \<Rightarrow> u32 \<Rightarrow> u32 \<Rightarrow> u32 \<Rightarrow> hop_work_item \<Rightarrow> link \<Rightarrow> bool \<times> link" where
  "hop_task cfg now cyc addr W_negotiate l = (False, negotiate_work_fn cfg now cyc addr l)"
| "hop_task cfg now cyc addr W_idle_check l = (False, idle_check_work_fn cfg now addr l)"
| "hop_task cfg now cyc addr W_post_hop_burst l = post_hop_burst_work_fn cfg now cyc addr l"
| "hop_task cfg now cyc addr W_hop_retry l = (False, on_hop hop_retry_work_fn l)"
| "hop_task cfg now cyc addr W_hop l = (False, hop_work_fn cfg now cyc l)"
| "hop_task cfg now cyc addr W_coop_offer l = (False, coop_hop_offer_work_fn cfg now cyc addr l)"
| "hop_task cfg now cyc addr W_coop_commit l = (False, coop_hop_commit_work_fn cfg now l)"
| "hop_task cfg now cyc addr W_persist l = (False, on_hop (persist_work_fn cfg (boot_channel (tr l))) l)"
| "hop_task cfg now cyc addr W_rssi_persist l = (False, on_hop (rssi_persist_work_fn cfg) l)"

fun bench_task :: "kconfig \<Rightarrow> u32 \<Rightarrow> u32 \<Rightarrow> bench_work_item \<Rightarrow> link \<Rightarrow> link" where
  "bench_task cfg now addr W_bench_tx l = (let (b, s) = bench_tx_fn cfg (bn l, radio l) in l\<lparr>bn := b, radio := s\<rparr>)"
| "bench_task cfg now addr W_bench_complete l = bench_complete_fn cfg now addr l"
| "bench_task cfg now addr W_bench_poll l = bench_result_poll_fn cfg now addr l"
| "bench_task cfg now addr W_bench_timeout l = on_bn (bench_result_timeout_fn cfg) l"

text \<open>The frame that the reception work item hands to the endpoint, and the resync callbacks in order.\<close>

definition receive :: "kconfig \<Rightarrow> u32 \<Rightarrow> u32 \<Rightarrow> pairing \<times> link \<Rightarrow> pairing \<times> link" where
  "receive cfg now addr = (\<lambda>(p, l).
     let (frame, t) = rx_work_fn now ((tr l)\<lparr>t_wq := cancel W_rx (t_wq (tr l))\<rparr>); l1 = l\<lparr>tr := t\<rparr>
     in case frame of None \<Rightarrow> (p, l1) | Some data \<Rightarrow> on_transport_evt cfg now addr data (p, l1))"

definition resync_call :: "env \<Rightarrow> u32 \<Rightarrow> u32 \<Rightarrow> nat \<times> u8 \<Rightarrow> system \<Rightarrow> system" where
  "resync_call en now addr = (\<lambda>(cb, kinds) s.
     if cb = 0
     then on_hid (hid_resync_cb (en_hid en) (en_cfg en) now addr (esb_active (sy_ep s)) (sy_p s) kinds [] []) s
     else on_ip (esb_ip_resync_cb (en_cfg en) now addr (esb_active (sy_ep s)) (sy_p s) kinds []) s)"

definition resync_dispatch :: "env \<Rightarrow> u32 \<Rightarrow> u32 \<Rightarrow> system \<Rightarrow> system" where
  "resync_dispatch en now addr s =
     (let t = tr (sy_l s);
          (calls, t') = hid_resync_work_fn (t\<lparr>t_wq := cancel W_hid_resync (t_wq t)\<rparr>)
      in fold (resync_call en now addr) calls (on_link (\<lambda>l. l\<lparr>tr := t'\<rparr>) s))"

section \<open>Steps\<close>

text \<open>
  What can happen next. Work items run one after the other on the system work queue, so none starts
  while a burst tick waits on the rendezvous channel (\<open>sy_away\<close>); interrupts, the event and input
  threads and the control thread go on.
\<close>

inductive sys_step :: "env \<Rightarrow> system \<Rightarrow> system \<Rightarrow> bool" for en where
  sent_noack: "esb_st (radio (sy_l s)) = PTX_TX
    \<Longrightarrow> sys_step en s (on_link (\<lambda>l. l\<lparr>radio := on_radio_end_tx_noack (radio l)\<rparr>) s)"
| sent: "esb_st (radio (sy_l s)) = PTX_TX_ACK
    \<Longrightarrow> sys_step en s (on_link (\<lambda>l. l\<lparr>radio := on_radio_disabled_tx (radio l)\<rparr>) s)"
| answered: "esb_st (radio (sy_l s)) = PTX_RX_ACK
    \<Longrightarrow> sys_step en s (on_link (\<lambda>l. l\<lparr>radio := on_radio_disabled_tx_wait_for_ack (en_cfg en) ack (radio l)\<rparr>) s)"
| event: "sys_step en s (on_link (esb_event_interrupt (en_cfg en) now) s)"
| received: "\<not> sy_away s \<Longrightarrow> t_wq (tr (sy_l s)) W_rx \<noteq> None
    \<Longrightarrow> sys_step en s (on_pairing (receive (en_cfg en) now addr) s)"
| resync: "\<not> sy_away s \<Longrightarrow> t_wq (tr (sy_l s)) W_hid_resync \<noteq> None \<Longrightarrow> sys_step en s (resync_dispatch en now addr s)"
| adaptive: "\<not> sy_away s \<Longrightarrow> t_wq (tr (sy_l s)) W_adaptive \<noteq> None
    \<Longrightarrow> sys_step en s (on_link (adaptive_retry_work_fn (en_cfg en)) s)"
| hop_item: "\<not> sy_away s \<Longrightarrow> hop_wq (hopm (sy_l s)) w \<noteq> None
    \<Longrightarrow> hop_task (en_cfg en) now cyc addr w (take_hop w (sy_l s)) = (away, l)
    \<Longrightarrow> sys_step en s (s\<lparr>sy_l := l, sy_away := away\<rparr>)"
| returned: "sy_away s \<Longrightarrow> sys_step en s ((on_link (post_hop_burst_resume (en_cfg en) now addr) s)\<lparr>sy_away := False\<rparr>)"
| bench_item: "\<not> sy_away s \<Longrightarrow> bn_wq (bn (sy_l s)) b \<noteq> None
    \<Longrightarrow> sys_step en s (on_link (\<lambda>l. bench_task (en_cfg en) now addr b (on_bn (bench_cancel b) l)) s)"
| beacon: "\<not> sy_away s \<Longrightarrow> p_wq (sy_p s) W_beacon \<noteq> None
    \<Longrightarrow> sys_step en s (on_pairing (\<lambda>(p, l). beacon_work_fn (en_cfg en) now addr (p_cancel W_beacon p, l)) s)"
| verify: "\<not> sy_away s \<Longrightarrow> p_wq (sy_p s) W_verify \<noteq> None
    \<Longrightarrow> sys_step en s (on_pairing (\<lambda>(p, l). verify_work_fn (en_cfg en) now addr (p_cancel W_verify p, l)) s)"
| hid_item: "\<not> sy_away s \<Longrightarrow> hid_wq (sy_h s) W_hid_retry \<noteq> None
    \<Longrightarrow> length kbl \<le> c_kb_depth (en_cfg en) \<Longrightarrow> length consl \<le> c_cons_depth (en_cfg en)
    \<Longrightarrow> sys_step en s (on_hid (\<lambda>(h, l). hid_retry_work_fn (en_hid en) (en_cfg en) now addr kbl consl
           (h\<lparr>hid_wq := cancel W_hid_retry (hid_wq h)\<rparr>, l)) s)"
| ip_item: "\<not> sy_away s \<Longrightarrow> ip_wq (sy_d s) W_ip_retry \<noteq> None \<Longrightarrow> length live \<le> c_btn_depth (en_cfg en)
    \<Longrightarrow> sys_step en s (on_ip (\<lambda>(d, l). retry_work_fn (en_cfg en) now addr live (d\<lparr>ip_wq := cancel W_ip_retry (ip_wq d)\<rparr>, l)) s)"
| key: "length kbl \<le> c_kb_depth (en_cfg en) \<Longrightarrow> length consl \<le> c_cons_depth (en_cfg en)
    \<Longrightarrow> sys_step en s (on_hid (\<lambda>t. snd (hid_relay_cb (en_hid en) (en_cfg en) now addr (esb_active (sy_ep s)) (sy_p s) ev kbl consl t)) s)"
| input: "length live \<le> c_btn_depth (en_cfg en)
    \<Longrightarrow> sys_step en s (on_ip (\<lambda>t. snd (esb_ip_handle_event (en_codes en) (en_cfg en) now addr (esb_active (sy_ep s)) (sy_p s) live ie t)) s)"
| profile: "sys_step en s (s\<lparr>sy_ep := profile_listener_cb (en_ep en) index (sy_ep s)\<rparr>)"
| boot_check: "sys_step en s (s\<lparr>sy_ep := boot_profile_check_fn (en_ep en) index (sy_ep s)\<rparr>)"
| control: "sys_step en s (on_control (esb_ctrl_resume (en_ep en) (en_cfg en) hf tm ppi) s)"
| bench_cmd: "sys_step en s (on_link (\<lambda>l. snd (cmd_esb_bench (en_cfg en) (sy_ep s) l)) s)"
| unpair: "sys_step en s (s\<lparr>sy_p := cmd_esb_unpair (en_cfg en) (sy_p s)\<rparr>)"

abbreviation sys_reach :: "env \<Rightarrow> system \<Rightarrow> system \<Rightarrow> bool" where
  "sys_reach en \<equiv> (sys_step en)\<^sup>*\<^sup>*"

lemmas reach_boot = rtranclp.rtrancl_refl [where r = "sys_step en" for en]
lemmas reach_step = rtranclp.rtrancl_into_rtrancl [where r = "sys_step en" for en]

section \<open>The invariant\<close>

definition env_ok :: "env \<Rightarrow> bool" where
  "env_ok en \<longleftrightarrow> kconfig_ok (en_cfg en) \<and> ec_channel (en_ep en) < channel_count"

definition sys_ok :: "env \<Rightarrow> system \<Rightarrow> bool" where
  "sys_ok en s \<longleftrightarrow> link_wf (en_cfg en) (sy_l s) \<and> chan_wf (sy_l s) \<and> pairing_wf (sy_p s)
     \<and> hid_wf (en_hid en) (en_cfg en) (sy_h s)
     \<and> length (pending_buttons (sy_d s)) \<le> c_btn_depth (en_cfg en) \<and> motion_i32 (ip_motion (sy_d s))"

lemma sys_okI:
  assumes "hid_link_wf (en_hid en) (en_cfg en) (sy_h s, sy_l s)" "ip_link_wf (en_cfg en) (sy_d s, sy_l s)"
    "chan_wf (sy_l s)" "pairing_wf (sy_p s)"
  shows "sys_ok en s"
  using assms by (simp add: sys_ok_def hid_link_wf_def ip_link_wf_def)

lemma sys_okD:
  assumes "sys_ok en s"
  shows "link_wf (en_cfg en) (sy_l s)" "chan_wf (sy_l s)" "pairing_wf (sy_p s)"
    "hid_link_wf (en_hid en) (en_cfg en) (sy_h s, sy_l s)" "ip_link_wf (en_cfg en) (sy_d s, sy_l s)"
  using assms by (simp_all add: sys_ok_def hid_link_wf_def ip_link_wf_def)

lemma sys_ok_link:
  "sys_ok en s \<Longrightarrow> link_wf (en_cfg en) (f (sy_l s)) \<Longrightarrow> chan_wf (f (sy_l s)) \<Longrightarrow> sys_ok en (on_link f s)"
  by (simp add: sys_ok_def on_link_def)

lemma sys_ok_pairing:
  assumes "sys_ok en s" "pairing_wf (fst (f (sy_p s, sy_l s)))" "link_wf (en_cfg en) (snd (f (sy_p s, sy_l s)))"
    "chan_wf (snd (f (sy_p s, sy_l s)))"
  shows "sys_ok en (on_pairing f s)"
  using assms by (simp add: sys_ok_def on_pairing_def split_beta Let_def)

lemma sys_ok_hid:
  assumes "sys_ok en s" "hid_link_wf (en_hid en) (en_cfg en) (f (sy_h s, sy_l s))" "chan_wf (snd (f (sy_h s, sy_l s)))"
  shows "sys_ok en (on_hid f s)"
  using assms by (simp add: sys_ok_def on_hid_def hid_link_wf_def split_beta Let_def)

lemma sys_ok_ip:
  assumes "sys_ok en s" "ip_link_wf (en_cfg en) (f (sy_d s, sy_l s))" "chan_wf (snd (f (sy_d s, sy_l s)))"
  shows "sys_ok en (on_ip f s)"
  using assms by (simp add: sys_ok_def on_ip_def ip_link_wf_def split_beta Let_def)

section \<open>The relay and the input processor only send\<close>

definition still :: "link \<Rightarrow> link \<Rightarrow> bool" where
  "still l0 l \<longleftrightarrow> place l = place l0 \<and> up l = up l0"

interpretation sending: kept_by_sends "still l0" cfg for l0 cfg
  by unfold_locales (simp add: still_def)

lemma still_chan: "chan_wf l0 \<Longrightarrow> still l0 l \<Longrightarrow> chan_wf l"
  by (auto simp: still_def intro: chan_wf_place)

lemma still_self [simp]: "still l l"
  by (simp add: still_def)

section \<open>Every step keeps the invariant\<close>

lemma accumulate_i32: "motion_i32 (ip_motion d) \<Longrightarrow> motion_i32 (ip_motion (accumulate ic now ev d))"
  by (simp add: accumulate_def motion_i32_def Let_def)

lemma ip_wf_event:
  assumes "kconfig_ok cfg" "ip_link_wf cfg s" "length live \<le> c_btn_depth cfg"
  shows "ip_link_wf cfg (snd (esb_ip_handle_event ic cfg now addr ep p live ev s))"
proof -
  obtain d l where s: "s = (d, l)" by (cases s)
  have "ip_link_wf cfg (accumulate ic now ev d, l)" "ip_link_wf cfg (d\<lparr>ip_buttons := b\<rparr>, l)" for b
    using assms(2) accumulate_i32 [of d ic now ev] by (simp_all add: s ip_link_wf_def) (simp add: accumulate_def Let_def)
  then show ?thesis
    using assms(2) ip_wf_ops(2) [OF assms(1) _ assms(3)] by (simp add: s esb_ip_handle_event_def Let_def)
qed

lemma link_wf_take_hop: "link_wf cfg l \<Longrightarrow> link_wf cfg (take_hop w l)" and place_take_hop [simp]: "place (take_hop w l) = place l"
  and up_take_hop [simp]: "up (take_hop w l) = up l"
proof -
  show "link_wf cfg l \<Longrightarrow> link_wf cfg (take_hop w l)"
    unfolding take_hop_def by (rule link_wf_hop) (auto simp: hop_cancel_def)
  show "place (take_hop w l) = place l" "up (take_hop w l) = up l" by (simp_all add: take_hop_def up_def hop_cancel_def)
qed

lemma hop_task_wf:
  assumes k: "kconfig_ok cfg" and l: "link_wf cfg l" "chan_wf l"
  shows "link_wf cfg (snd (hop_task cfg now cyc addr w l)) \<and> chan_wf (snd (hop_task cfg now cyc addr w l))"
proof -
  have h: "link_wf cfg (on_hop hop_retry_work_fn l)" "link_wf cfg (on_hop (persist_work_fn cfg r) l)"
    "link_wf cfg (on_hop (rssi_persist_work_fn cfg) l)" for r
    by (rule link_wf_hop [OF l(1)]; simp add: hop_wf_persist hop_wf_rssi_persist hop_retry_work_fn_def hop_submit_def)+
  have c: "chan_wf l'" if "place l' = place l" for l' using chan_wf_place [OF that l(2)] .
  show ?thesis
    by (cases w) (simp_all add: h c link_wf_negotiate [OF k l(1)] link_wf_idle_check [OF l(1)] link_wf_burst [OF k l(1)]
        link_wf_hop_work [OF k l] chan_wf_hop_work [OF l(2)] link_wf_offer [OF k l(1)] link_wf_coop_commit [OF k l]
        chan_wf_coop_commit [OF l(2)])
qed

lemma hop_task_up: "up (snd (hop_task cfg now cyc addr w l)) = up l"
  by (cases w) (simp_all add: up_on_hop, simp_all add: up_def)

lemma link_wf_on_bn: "link_wf cfg (on_bn f l) = link_wf cfg l"
  by (simp add: link_wf_def on_bn_def)

lemma bench_fill_steps: "(radio_step cfg)\<^sup>*\<^sup>* s (snd (bench_fill cfg sq s))"
proof (induction cfg sq s rule: bench_fill.induct)
  case (1 cfg sq s)
  obtain r s' where w: "esb_write_payload cfg (bench_ping sq) s = (r, s')" by fastforce
  have st: "radio_step cfg s s'" using r_write [of cfg s "bench_ping sq"] w by simp
  have "r = OK \<Longrightarrow> (radio_step cfg)\<^sup>*\<^sup>* s' (snd (bench_fill cfg (sq + 1) s'))"
    using "1.IH" [OF w [symmetric] refl] by simp
  then show ?case
    using st by (subst bench_fill.simps) (auto simp: w intro: converse_rtranclp_into_rtranclp)
qed

lemma bench_task_wf:
  assumes l: "link_wf cfg l"
  shows "link_wf cfg (bench_task cfg now addr w l)" "place (bench_task cfg now addr w l) = place l"
    "up (bench_task cfg now addr w l) = up l"
proof -
  have "esb_wf cfg (snd (bench_tx_fn cfg (bn l, radio l))) \<and> esb_down (snd (bench_tx_fn cfg (bn l, radio l)))"
    using radio_kept.reached_keeps [OF bench_fill_steps, of cfg "radio l" "bn_seq (bn l)"] l by (simp add: bench_tx_fn_def link_wf_def split_beta)
  then show "link_wf cfg (bench_task cfg now addr w l)"
    using l by (cases w) (simp_all add: bench_complete_fn_def bench_result_poll_fn_def link_wf_on_bn link_wf_send_pkt
        split_beta Let_def, simp_all add: link_wf_def)
  show "place (bench_task cfg now addr w l) = place l" "up (bench_task cfg now addr w l) = up l"
    by (cases w; simp add: split_beta; simp add: place_def up_def)+
qed

lemma radio_isr_wf:
  assumes "link_wf cfg l" "radio_step cfg (radio l) s"
  shows "link_wf cfg (l\<lparr>radio := s\<rparr>)" "place (l\<lparr>radio := s\<rparr>) = place l" "up (l\<lparr>radio := s\<rparr>) = up l"
  using link_wf_radio_set [OF assms] by simp_all

lemma receive_wf:
  assumes k: "kconfig_ok cfg" and l: "link_wf cfg l" and p: "pairing_wf p"
  shows "link_wf cfg (snd (receive cfg now addr (p, l)))" "place (snd (receive cfg now addr (p, l))) = place l"
    "pairing_wf (fst (receive cfg now addr (p, l)))"
proof -
  let ?r = "rx_work_fn now ((tr l)\<lparr>t_wq := cancel W_rx (t_wq (tr l))\<rparr>)"
  have w: "link_wf cfg (l\<lparr>tr := snd ?r\<rparr>)" and pl: "place (l\<lparr>tr := snd ?r\<rparr>) = place l"
    using l by (auto simp: link_wf_def tr_wf_def rx_work_fn_def note_activity_def Let_def place_def)
  show "link_wf cfg (snd (receive cfg now addr (p, l)))" "place (snd (receive cfg now addr (p, l))) = place l"
    "pairing_wf (fst (receive cfg now addr (p, l)))"
    using w pl link_wf_rx [OF k w] rx_link_frame pairing_wf_rx [OF p] p
    by (auto simp: receive_def on_transport_evt_def split_beta Let_def link_wf_on_bn split: option.split)
qed

lemma resync_dispatch_wf:
  assumes k: "kconfig_ok (en_cfg en)" and s: "sys_ok en s"
  shows "sys_ok en (resync_dispatch en now addr s)"
proof -
  have call: "sys_ok en (resync_call en now addr c t)" if "sys_ok en t" for c t
  proof -
    obtain cb kinds where c: "c = (cb, kinds)" by (cases c)
    note t = sys_okD [OF that]
    have "sys_ok en (on_hid (hid_resync_cb (en_hid en) (en_cfg en) now addr (esb_active (sy_ep t)) (sy_p t) kinds [] []) t)"
      by (rule sys_ok_hid [OF that]) (use hid_ops_wf(2) [OF k t(4)] still_chan [OF t(2) sending.hid(1)] in simp_all)
    moreover have "sys_ok en (on_ip (esb_ip_resync_cb (en_cfg en) now addr (esb_active (sy_ep t)) (sy_p t) kinds []) t)"
      by (rule sys_ok_ip [OF that]) (use ip_wf_ops(3) [OF k t(5)] still_chan [OF t(2) sending.ip(3)] in simp_all)
    ultimately show ?thesis by (simp add: c resync_call_def)
  qed
  have calls: "sys_ok en (fold (resync_call en now addr) cs t)" if "sys_ok en t" for cs t
    using that call by (induction cs arbitrary: t) simp_all
  have "sys_ok en (on_link (\<lambda>l. l\<lparr>tr := snd (hid_resync_work_fn ((tr l)\<lparr>t_wq := cancel W_hid_resync (t_wq (tr l))\<rparr>))\<rparr>) s)"
    using sys_okD(1,2) [OF s]
    by (intro sys_ok_link [OF s]) (simp_all add: link_wf_def tr_wf_def hid_resync_work_fn_def chan_wf_def Let_def)
  from calls [OF this] show ?thesis by (simp add: resync_dispatch_def on_link_def split_beta Let_def)
qed

lemma control_wf:
  assumes e: "env_ok en" and s: "sys_ok en s"
  shows "sys_ok en (on_control (esb_ctrl_resume (en_ep en) (en_cfg en) hf tm ppi) s)"
proof -
  have k: "kconfig_ok (en_cfg en)" "ec_channel (en_ep en) < channel_count" using e by (simp_all add: env_ok_def)
  note l = sys_okD(1,2) [OF s] and p = sys_okD(3) [OF s]
  have a: "link_wf (en_cfg en) (esb_transport_on_slot_start (en_cfg en) hf tm ppi (configure_esb_addresses (en_ep en) (sy_l s)))"
    unfolding configure_esb_addresses_def by (intro link_wf_slot_start k link_wf_threads(1) l)
  have ac: "chan_wf (esb_transport_on_slot_start (en_cfg en) hf tm ppi (configure_esb_addresses (en_ep en) (sy_l s)))"
    using k(2) by (simp add: chan_wf_def configure_esb_addresses_def esb_transport_set_addresses_def)
  have d: "link_wf (en_cfg en) (on_tr esb_transport_deinit (on_hop channel_hop_ep_on_disconnected (esb_transport_on_slot_stop (sy_l s))))"
    by (intro link_wf_threads(3) link_wf_disconnected link_wf_slot_stop l k)
  have dc: "chan_wf (on_tr esb_transport_deinit (on_hop channel_hop_ep_on_disconnected (esb_transport_on_slot_stop (sy_l s))))"
    using l(2) by (simp add: chan_wf_def esb_transport_deinit_def)
  show ?thesis
    using a ac d dc s pairing_wf_start [OF p] pairing_wf_stop [OF p, of "esb_transport_on_slot_stop (sy_l s)"]
    by (auto simp: on_control_def ctrl_defs pairing_stop_def sys_ok_def Let_def
        split: ctrl_phase.split list.split ctrl_cmd.split)
qed

text \<open>The radio's own steps, and those of the link alone.\<close>

lemma sys_ok_radio:
  assumes s: "sys_ok en s" and st: "radio_step (en_cfg en) (radio (sy_l s)) (f (radio (sy_l s)))"
  shows "sys_ok en (on_link (\<lambda>l. l\<lparr>radio := f (radio l)\<rparr>) s)"
  using radio_isr_wf(1) [OF sys_okD(1) [OF s] st] chan_wf_place [OF radio_isr_wf(2) [OF sys_okD(1) [OF s] st] sys_okD(2) [OF s]]
  by (intro sys_ok_link [OF s]) simp_all

lemma sys_ok_place:
  assumes "sys_ok en s" "link_wf (en_cfg en) (f (sy_l s))" "place (f (sy_l s)) = place (sy_l s)"
  shows "sys_ok en (on_link f s)"
  using sys_ok_link [of en s f] chan_wf_place [OF assms(3) sys_okD(2) [OF assms(1)]] assms by simp

lemma sys_ok_hop_item:
  assumes k: "kconfig_ok (en_cfg en)" and s: "sys_ok en s"
    and st: "hop_task (en_cfg en) now cyc addr w (take_hop w (sy_l s)) = (away, l)"
  shows "sys_ok en (s\<lparr>sy_l := l, sy_away := a\<rparr>)"
proof -
  note d = sys_okD [OF s]
  have "link_wf (en_cfg en) l \<and> chan_wf l"
    using hop_task_wf [OF k link_wf_take_hop [OF d(1)] chan_wf_place [OF place_take_hop d(2)], of now cyc addr w w] st by simp
  with s show ?thesis by (simp add: sys_ok_def)
qed

lemma sys_ok_bench_item:
  assumes s: "sys_ok en s"
  shows "sys_ok en (on_link (\<lambda>l. bench_task (en_cfg en) now addr b (on_bn (bench_cancel b) l)) s)"
proof -
  have "link_wf (en_cfg en) (on_bn (bench_cancel b) (sy_l s))" using sys_okD(1) [OF s] by (simp add: link_wf_on_bn)
  from bench_task_wf(1,2) [OF this] show ?thesis by (intro sys_ok_place [OF s]) simp_all
qed

lemma sys_ok_pairing_items:
  assumes s: "sys_ok en s"
  shows "sys_ok en (on_pairing (\<lambda>(p, l). beacon_work_fn (en_cfg en) now addr (p_cancel W_beacon p, l)) s)"
    "sys_ok en (on_pairing (\<lambda>(p, l). verify_work_fn (en_cfg en) now addr (p_cancel W_verify p, l)) s)"
proof -
  note d = sys_okD [OF s]
  show "sys_ok en (on_pairing (\<lambda>(p, l). beacon_work_fn (en_cfg en) now addr (p_cancel W_beacon p, l)) s)"
    by (rule sys_ok_pairing [OF s])
      (use d pairing_wf_beacon [OF d(3), of "en_cfg en" now addr "sy_l s"] in \<open>auto simp: beacon_work_fn_def
        send_beacon_def intro: link_wf_send chan_wf_place [OF place_send]\<close>)
  show "sys_ok en (on_pairing (\<lambda>(p, l). verify_work_fn (en_cfg en) now addr (p_cancel W_verify p, l)) s)"
    by (rule sys_ok_pairing [OF s])
      (use d pairing_wf_verify [OF d(3), of "en_cfg en" now addr "sy_l s"] in \<open>auto simp: verify_work_fn_def
        intro: link_wf_send_pkt chan_wf_place [OF place_send_pkt]\<close>)
qed

lemma sys_ok_received:
  assumes "kconfig_ok (en_cfg en)" "sys_ok en s"
  shows "sys_ok en (on_pairing (receive (en_cfg en) now addr) s)"
  using receive_wf [OF assms(1) sys_okD(1,3) [OF assms(2)]] chan_wf_place [OF _ sys_okD(2) [OF assms(2)]]
  by (intro sys_ok_pairing [OF assms(2)]) simp_all

lemma sys_ok_hid_steps:
  assumes k: "kconfig_ok (en_cfg en)" and s: "sys_ok en s"
    and l: "length kbl \<le> c_kb_depth (en_cfg en)" "length consl \<le> c_cons_depth (en_cfg en)"
  shows "sys_ok en (on_hid (\<lambda>(h, l). hid_retry_work_fn (en_hid en) (en_cfg en) now addr kbl consl
           (h\<lparr>hid_wq := cancel W_hid_retry (hid_wq h)\<rparr>, l)) s)"
    "sys_ok en (on_hid (\<lambda>t. snd (hid_relay_cb (en_hid en) (en_cfg en) now addr ep p ev kbl consl t)) s)"
proof -
  note d = sys_okD [OF s]
  have "hid_link_wf (en_hid en) (en_cfg en) ((sy_h s)\<lparr>hid_wq := cancel W_hid_retry (hid_wq (sy_h s))\<rparr>, sy_l s)"
    using d(4) by (simp add: hid_link_wf_def hid_wf_def)
  from hid_ops_wf(1) [OF k this l] show "sys_ok en (on_hid (\<lambda>(h, l). hid_retry_work_fn (en_hid en) (en_cfg en) now addr kbl consl
           (h\<lparr>hid_wq := cancel W_hid_retry (hid_wq h)\<rparr>, l)) s)"
    by (intro sys_ok_hid [OF s]) (simp_all add: still_chan [OF d(2) sending.reports(3)])
  show "sys_ok en (on_hid (\<lambda>t. snd (hid_relay_cb (en_hid en) (en_cfg en) now addr ep p ev kbl consl t)) s)"
    using hid_ops_wf(3) [OF k d(4) l] by (intro sys_ok_hid [OF s]) (simp_all add: still_chan [OF d(2) sending.hid(2)])
qed

lemma sys_ok_ip_steps:
  assumes k: "kconfig_ok (en_cfg en)" and s: "sys_ok en s" and l: "length live \<le> c_btn_depth (en_cfg en)"
  shows "sys_ok en (on_ip (\<lambda>(d, l). retry_work_fn (en_cfg en) now addr live (d\<lparr>ip_wq := cancel W_ip_retry (ip_wq d)\<rparr>, l)) s)"
    "sys_ok en (on_ip (\<lambda>t. snd (esb_ip_handle_event ic (en_cfg en) now addr ep p live ie t)) s)"
proof -
  note d = sys_okD [OF s]
  have "ip_link_wf (en_cfg en) ((sy_d s)\<lparr>ip_wq := cancel W_ip_retry (ip_wq (sy_d s))\<rparr>, sy_l s)"
    using d(5) by (simp add: ip_link_wf_def)
  from ip_wf_ops(1) [OF k this l] show
      "sys_ok en (on_ip (\<lambda>(d, l). retry_work_fn (en_cfg en) now addr live (d\<lparr>ip_wq := cancel W_ip_retry (ip_wq d)\<rparr>, l)) s)"
    by (intro sys_ok_ip [OF s]) (simp_all add: still_chan [OF d(2) sending.ip(1)])
  show "sys_ok en (on_ip (\<lambda>t. snd (esb_ip_handle_event ic (en_cfg en) now addr ep p live ie t)) s)"
    using ip_wf_event [OF k d(5) l] by (intro sys_ok_ip [OF s]) (simp_all add: still_chan [OF d(2) sending.ip(4)])
qed

lemma sys_ok_threads:
  assumes k: "kconfig_ok (en_cfg en)" and s: "sys_ok en s"
  shows "sys_ok en (on_link (esb_event_interrupt (en_cfg en) now) s)" "sys_ok en (on_link (adaptive_retry_work_fn (en_cfg en)) s)"
    "sys_ok en ((on_link (post_hop_burst_resume (en_cfg en) now addr) s)\<lparr>sy_away := False\<rparr>)"
    "sys_ok en (on_link (\<lambda>l. snd (cmd_esb_bench (en_cfg en) (sy_ep s) l)) s)"
    "sys_ok en (s\<lparr>sy_p := cmd_esb_unpair (en_cfg en) (sy_p s)\<rparr>)" "sys_ok en (s\<lparr>sy_ep := e\<rparr>)"
proof -
  note d = sys_okD [OF s]
  show "sys_ok en (on_link (esb_event_interrupt (en_cfg en) now) s)"
    by (rule sys_ok_place [OF s]) (use link_wf_interrupt [OF k d(1)] in simp_all)
  show "sys_ok en (on_link (adaptive_retry_work_fn (en_cfg en)) s)"
    by (rule sys_ok_place [OF s])
      (use link_wf_threads(4) [OF d(1) k] in \<open>simp_all add: place_def adaptive_retry_work_fn_def split_beta Let_def\<close>)
  have "sys_ok en (on_link (post_hop_burst_resume (en_cfg en) now addr) s)"
    by (rule sys_ok_place [OF s]) (use link_wf_burst_resume [OF d(1)] in simp_all)
  then show "sys_ok en ((on_link (post_hop_burst_resume (en_cfg en) now addr) s)\<lparr>sy_away := False\<rparr>)"
    by (simp add: sys_ok_def)
  show "sys_ok en (on_link (\<lambda>l. snd (cmd_esb_bench (en_cfg en) (sy_ep s) l)) s)"
    by (rule sys_ok_place [OF s]) (use d(1) in \<open>auto simp: cmd_esb_bench_def link_wf_on_bn split: bench_state.split\<close>)
  show "sys_ok en (s\<lparr>sy_p := cmd_esb_unpair (en_cfg en) (sy_p s)\<rparr>)" "sys_ok en (s\<lparr>sy_ep := e\<rparr>)"
    using s by (simp_all add: sys_ok_def cmd_esb_unpair_def pairing_wf_unpair)
qed

lemmas sys_ok_rules = sys_ok_radio sys_ok_hop_item sys_ok_bench_item sys_ok_pairing_items sys_ok_received
  sys_ok_hid_steps sys_ok_ip_steps sys_ok_threads resync_dispatch_wf control_wf

lemma sys_ok_step:
  assumes e: "env_ok en" and s: "sys_ok en s" and st: "sys_step en s s'"
  shows "sys_ok en s'"
proof -
  have k: "kconfig_ok (en_cfg en)" using e by (simp add: env_ok_def)
  show ?thesis
    using st by cases (simp_all add: sys_ok_rules r_end_noack r_tx_done r_window e s k)
qed

section \<open>Boot\<close>

text \<open>The static variables of \<open>channel_hop_ep.c\<close>, and what the hop manager loads from flash.\<close>

definition hop_boot :: "kconfig \<Rightarrow> hop" where
  "hop_boot cfg = \<lparr>quar = \<lparr>expires_at = replicate channel_count 0,
       persistent = \<lparr>pq_channels = replicate (c_persist_n cfg) 0, pq_count = 0\<rparr>\<rparr>, offs = blank_offenders,
     chan_rssi = replicate channel_count 0, rssi_saved = replicate channel_count 0, nvs_rssi = None, prng_state = 0,
     committed_next = channel_invalid, committed_synced = False, link_up = False, prev_channel = channel_invalid,
     prev_known_channel = channel_invalid, hop_active = False, burst_remaining = 0, pending_candidate = channel_invalid,
     request_burst = 0, hop_cooldown_until = 0, last_link_event_ms = 0, rdv_fallback_pending = False, rdv_hold_until = 0,
     coop_st = COOP_IDLE, coop_target = 0, coop_seq = 0, last_tx_was_offer = False, coop_cooldown_until = 0,
     hop_wq = no_work\<rparr>"

record flash =
  fl_pairing :: "bytes option"
  fl_quars :: "bytes list"
  fl_rssi :: "rssi_state option"

definition flash_ok :: "flash \<Rightarrow> bool" where
  "flash_ok fl \<longleftrightarrow> (\<forall>rec \<in> set_option (fl_pairing fl). length rec = 7)
     \<and> (\<forall>r \<in> set_option (fl_rssi fl). \<forall>v \<in> set r. in_i8 v)"

text \<open>
  The input processor is a device, initialised before the applications; its resync callback is
  number 1, that of the relay number 0.
\<close>

definition system_boot :: "env \<Rightarrow> u32 \<Rightarrow> u32 \<Rightarrow> u32 \<Rightarrow> flash \<Rightarrow> system" where
  "system_boot en now lo hi fl =
     (let cfg = en_cfg en;
          l0 = \<lparr>tr = transport_boot cfg, radio = esb_boot cfg, hopm = hop_boot cfg, bn = bench_boot\<rparr>;
          (d, l1) = esb_ip_init 1 l0;
          (p, l2) = esb_endpoint_init cfg now lo hi (fl_quars fl) (fl_rssi fl) (pairing_boot\<lparr>p_nvs := fl_pairing fl\<rparr>, l1);
          (h, l3) = hid_relay_init 0 (hid_boot (en_hid en), l2)
      in \<lparr>sy_ep = endpoint_boot, sy_p = p, sy_l = l3, sy_h = h, sy_d = d, sy_away = False\<rparr>)"

lemma load_wf:
  assumes "quarantine_wf cfg q"
  shows "table_wf cfg (m_hits (fst (persist_load cfg rdv now recs (s, q))))
    \<and> quarantine_wf cfg (snd (persist_load cfg rdv now recs (s, q)))
    \<and> distinct (avoided (snd (persist_load cfg rdv now recs (s, q))))"
proof -
  have replay: "table_wf cfg (m_hits t) \<Longrightarrow> table_wf cfg (m_hits (fold (load_quar cfg) recs t))" for t
    by (induction recs arbitrary: t) (simp_all add: table_wf_load)
  define s2 where "s2 = fold (load_quar cfg) recs (s\<lparr>m_hits := [], off_buf := [], saved_off := [], decay_accum_min := 0,
    decay_frac_ms := 0, decay_last_uptime := now, saved_accum_min := 0\<rparr>)"
  have t: "table_wf cfg (m_hits s2)" unfolding s2_def by (rule replay) (simp add: table_wf_def)
  show ?thesis
    using decay_table decay_quarantine [OF quarantine_wf_rebuild [OF assms]] decay_avoided_distinct avoided_rebuild [OF t] t
    by (simp add: persist_load_def rebuild_simps Let_def split_beta flip: s2_def)
qed

lemma hop_wf_init:
  assumes "quarantine_wf cfg (quar h)" "channel_ok (pending_candidate h)" "\<And>r v. rec = Some r \<Longrightarrow> v \<in> set r \<Longrightarrow> in_i8 v"
  shows "hop_wf cfg (channel_hop_ep_init cfg rdv now quars rec h)"
proof -
  have "rssi_wf (load_rssi rec channel_rssi_reset)"
    using assms(3) by (intro load_rssi_wf) (auto simp: channel_rssi_reset_def rssi_wf_def in_i8_def)
  then show ?thesis
    using load_wf [OF quarantine_wf_reset [OF assms(1)]] assms(2)
    by (simp add: channel_hop_ep_init_def hop_simps hop_wf_def)
qed

lemma sys_ok_boot:
  assumes "env_ok en" "flash_ok fl"
  shows "sys_ok en (system_boot en now lo hi fl)"
proof -
  have k: "kconfig_ok (en_cfg en)" using assms(1) by (simp add: env_ok_def)
  have t: "tr_wf (en_cfg en) (snd (esb_transport_register_hid_resync_cb 0
      (esb_transport_init (snd (esb_transport_register_hid_resync_cb 1 (transport_boot (en_cfg en)))))))"
    using transport_boot_wf [OF k]
    by (simp add: esb_transport_register_hid_resync_cb_def esb_transport_init_def tr_wf_def lq_wf_def transport_boot_def Let_def
        lq_history_def)
  have h: "hop_wf (en_cfg en) (channel_hop_ep_init (en_cfg en) r now (fl_quars fl) (fl_rssi fl) (hop_boot (en_cfg en)))" for r
    using assms(2) by (intro hop_wf_init) (auto simp: hop_boot_def quarantine_wf_def flash_ok_def)
  have p: "pairing_wf (pairing_init lo hi (pairing_boot\<lparr>p_nvs := fl_pairing fl\<rparr>))"
    using assms(2) pairing_wf_boot by (intro pairing_wf_init) (simp_all add: pairing_wf_def pairing_boot_def flash_ok_def)
  have i: "hid_wf (en_hid en) (en_cfg en) ((hid_boot (en_hid en))\<lparr>hid_wq := no_work\<rparr>)"
    using hid_boot_wf [of "en_hid en" "en_cfg en"] by (simp add: hid_wf_def)
  have c: "t_channel (snd (esb_transport_register_hid_resync_cb n t)) = t_channel t"
    "boot_channel (snd (esb_transport_register_hid_resync_cb n t)) = boot_channel t" for n t
    by (simp_all add: esb_transport_register_hid_resync_cb_def)
  show ?thesis
    using t h p i esb_boot_wf [OF k]
    by (simp add: sys_ok_def system_boot_def esb_ip_init_def esb_endpoint_init_def hid_relay_init_def link_wf_def
        chan_wf_def c esb_transport_init_def ip_boot_def split_beta Let_def) (simp add: transport_boot_def)
qed

section \<open>The hop manager follows the pairing\<close>

definition sys_agrees :: "system \<Rightarrow> bool" where
  "sys_agrees s \<longleftrightarrow> agrees (sy_p s, sy_l s)"

lemma sys_agrees_link: "sys_agrees s \<Longrightarrow> up (f (sy_l s)) = up (sy_l s) \<Longrightarrow> sys_agrees (on_link f s)"
  by (simp add: sys_agrees_def on_link_def agrees_hop)

lemma sys_agrees_pairing: "agrees (f (sy_p s, sy_l s)) \<Longrightarrow> sys_agrees (on_pairing f s)"
  by (simp add: sys_agrees_def on_pairing_def split_beta Let_def)

lemma sys_agrees_sends:
  assumes "sys_agrees s"
  shows "still (sy_l s) (snd (f (sy_h s, sy_l s))) \<Longrightarrow> sys_agrees (on_hid f s)"
    "still (sy_l s) (snd (g (sy_d s, sy_l s))) \<Longrightarrow> sys_agrees (on_ip g s)"
  using assms by (simp_all add: sys_agrees_def on_hid_def on_ip_def still_def agrees_def split_beta Let_def)

lemma agrees_receive: "agrees (p, l) \<Longrightarrow> agrees (receive cfg now addr (p, l))"
proof -
  assume a: "agrees (p, l)"
  have "agrees (p, l\<lparr>tr := t\<rparr>)" for t using agrees_hop [OF a] by simp
  from a this rx_agrees [OF this] show ?thesis
    by (auto simp: receive_def on_transport_evt_def split_beta Let_def agrees_def split: option.split)
qed

lemma agrees_control:
  assumes "sys_agrees s"
  shows "sys_agrees (on_control (esb_ctrl_resume ec cfg hf tm ppi) s)"
proof -
  have h: "up (esb_transport_on_slot_start cfg hf tm ppi (configure_esb_addresses ec l)) = up l"
    "\<not> up (on_tr g (on_hop channel_hop_ep_on_disconnected l))" for l g
    by (simp_all add: configure_esb_addresses_def up_on_hop) (simp add: up_def)
  show ?thesis
    using assms h by (auto simp: on_control_def ctrl_defs pairing_stop_def pairing_start_def p_cancel_def p_resched_def
        sys_agrees_def agrees_def Let_def split: ctrl_phase.split list.split ctrl_cmd.split)
qed

lemma agrees_pairing_items:
  assumes "sys_agrees s"
  shows "sys_agrees (on_pairing (\<lambda>(p, l). beacon_work_fn cfg now addr (p_cancel W_beacon p, l)) s)"
    "sys_agrees (on_pairing (\<lambda>(p, l). verify_work_fn cfg now addr (p_cancel W_verify p, l)) s)"
    "sys_agrees (s\<lparr>sy_p := cmd_esb_unpair cfg (sy_p s)\<rparr>)"
  using assms by (simp_all add: sys_agrees_def on_pairing_def beacon_work_fn_def verify_work_fn_def send_beacon_def
      p_cancel_def p_resched_def agrees_def cmd_esb_unpair_def pairing_unpair_def forget_peer_def save_paired_def
      split_beta Let_def)

lemma agrees_resync:
  assumes "sys_agrees s"
  shows "sys_agrees (resync_dispatch en now addr s)"
proof -
  have call: "sys_agrees (resync_call en now addr c t)" if "sys_agrees t" for c t
    using sys_agrees_sends [OF that] sending.hid(1) sending.ip(3) by (cases c) (simp add: resync_call_def)
  have calls: "sys_agrees (fold (resync_call en now addr) cs t)" if "sys_agrees t" for cs t
    using that call by (induction cs arbitrary: t) simp_all
  show ?thesis
    unfolding resync_dispatch_def split_beta Let_def by (intro calls sys_agrees_link assms) simp
qed

lemma agrees_hop_item:
  assumes "sys_agrees s" "hop_task cfg now cyc addr w (take_hop w (sy_l s)) = (away, l)"
  shows "sys_agrees (s\<lparr>sy_l := l, sy_away := a\<rparr>)"
  using assms hop_task_up [of cfg now cyc addr w "take_hop w (sy_l s)"] by (simp add: sys_agrees_def agrees_def)

lemma sys_agrees_step:
  assumes s: "sys_agrees s" and st: "sys_step en s s'"
  shows "sys_agrees s'"
proof -
  have a: "sys_agrees (t\<lparr>sy_away := b\<rparr>)" "sys_agrees (t\<lparr>sy_ep := e\<rparr>)" if "sys_agrees t" for t b e
    using that by (simp_all add: sys_agrees_def)
  have b: "up (snd (cmd_esb_bench cfg e l)) = up l" "up (adaptive_retry_work_fn cfg l) = up l" for cfg e l
    by (simp_all add: cmd_esb_bench_def split: bench_state.split) (simp_all add: up_def adaptive_retry_work_fn_def split_beta Let_def)
  have c: "up (bench_task cfg now addr w l) = up l" for cfg now addr w l
    by (cases w) (simp_all add: split_beta)
  have r: "sys_agrees (on_pairing (receive cfg now addr) s)" for cfg now addr
    using s by (intro sys_agrees_pairing agrees_receive) (simp add: sys_agrees_def)
  show ?thesis
    using st by cases
      (simp_all add: sys_agrees_link [OF s] sys_agrees_sends [OF s] agrees_control [OF s] agrees_pairing_items [OF s]
        agrees_resync [OF s] agrees_hop_item [OF s] a s b c r sending.hid sending.ip sending.reports)
qed

lemma sys_agrees_boot: "sys_agrees (system_boot en now lo hi fl)"
proof -
  have "p_state (pairing_init lo hi p) = p_state p" for p
    by (simp add: pairing_init_def pairing_settings_load_cb_def Let_def split: option.split)
  moreover have "link_up (channel_hop_ep_init cfg r now qs rs (hop_boot cfg)) = False" for cfg r qs rs
    by (simp add: channel_hop_ep_init_def hop_simps hop_boot_def)
  ultimately show ?thesis
    by (simp add: sys_agrees_def agrees_def system_boot_def esb_ip_init_def esb_endpoint_init_def hid_relay_init_def
        split_beta Let_def up_on_hop pairing_boot_def)
qed

interpretation agrees_kept: step_invariant "sys_step en" sys_agrees for en
  by unfold_locales (rule sys_agrees_step)

interpretation ok_kept: step_invariant "sys_step en" "\<lambda>s. env_ok en \<longrightarrow> sys_ok en s" for en
  by unfold_locales (auto intro: sys_ok_step)

lemma reached_agrees:
  assumes "sys_reach en (system_boot en now lo hi fl) s"
  shows "sys_agrees s"
  using assms sys_agrees_boot by (rule agrees_kept.reached_keeps)

lemma reached_ok:
  assumes "env_ok en" "flash_ok fl" "sys_reach en (system_boot en now lo hi fl) s"
  shows "sys_ok en s"
  using ok_kept.reached_keeps [OF assms(3)] sys_ok_boot [OF assms(1,2)] assms(1) by blast

section \<open>Properties\<close>

text \<open>
  C1. From boot, with whatever the flash held, every state that any order of interrupts, work items,
  key and input events, profile switches and shell commands leads to is well formed: the FIFOs and
  the rings are within their sizes and hold frames of legal length on legal pipes, every channel
  number in use is a channel of the band or none, the offender table and the averages are in range,
  the handshake runs only on an active link, the pairing state has the work item that moves it on,
  and no queue of key, consumer or button edges exceeds its depth.
\<close>

theorem reachable_states_ok:
  fixes en :: env
  assumes "env_ok en" "flash_ok fl" "sys_reach en (system_boot en now lo hi fl) s"
  shows "link_wf (en_cfg en) (sy_l s) \<and> chan_wf (sy_l s) \<and> pairing_wf (sy_p s)
    \<and> hid_wf (en_hid en) (en_cfg en) (sy_h s)
    \<and> length (pending_buttons (sy_d s)) \<le> c_btn_depth (en_cfg en) \<and> motion_i32 (ip_motion (sy_d s))"
  using reached_ok [OF assms] by (simp add: sys_ok_def)

definition demo_env :: env where
  "demo_env = \<lparr>en_cfg = default_kconfig, en_hid = demo_hid_cfg,
     en_codes = \<lparr>ic_ev_rel = 2, ic_ev_key = 1, ic_rel_x = 0, ic_rel_y = 1, ic_wheel = 8, ic_hwheel = 6, ic_btn_0 = 256,
       ic_btn_4 = 260\<rparr>,
     en_ep = demo_ep_cfg\<rparr>"

definition demo_flash :: flash where
  "demo_flash = \<lparr>fl_pairing = Some [1, 9, 8, 7, 6, 5, 4], fl_quars = [[1, 17, 3, 0]], fl_rssi = None\<rparr>"

lemma demo_env_ok: "env_ok demo_env" "flash_ok demo_flash"
  by (simp_all add: env_ok_def demo_env_def demo_ep_cfg_def flash_ok_def demo_flash_def)

text \<open>The states after the switch to the ESB profile and the thread's three runs.\<close>

definition demo_boot :: system where
  "demo_boot = system_boot demo_env 5 1 2 demo_flash"

definition demo_control :: "system \<Rightarrow> system" where
  "demo_control = on_control (esb_ctrl_resume (en_ep demo_env) (en_cfg demo_env) OK OK OK)"

definition demo_started :: system where
  "demo_started = demo_control (demo_control (demo_control
     (demo_boot\<lparr>sy_ep := profile_listener_cb (en_ep demo_env) 4 (sy_ep demo_boot)\<rparr>)))"

lemma demo_started_reached: "sys_reach demo_env (system_boot demo_env 5 1 2 demo_flash) demo_started"
proof -
  have c: "sys_reach demo_env s0 (demo_control t)" if "sys_reach demo_env s0 t" for s0 t
    unfolding demo_control_def by (rule reach_step [OF that control])
  have "sys_reach demo_env demo_boot (demo_boot\<lparr>sy_ep := profile_listener_cb (en_ep demo_env) 4 (sy_ep demo_boot)\<rparr>)"
    by (rule reach_step [OF reach_boot profile])
  from c [OF c [OF c [OF this]]] show ?thesis by (simp add: demo_started_def flip: demo_boot_def)
qed

theorem reachable_states_ok_witness: "pairing_wf (sy_p demo_started) \<and> link_wf default_kconfig (sy_l demo_started)"
  using reachable_states_ok [OF demo_env_ok demo_started_reached] by (simp add: demo_env_def)

text \<open>
  C13. In every reached state the hop manager is up while the pairing is connected, so that a connected
  link is never without channel hopping, and it is down and inactive while the pairing is stopped.
\<close>

theorem hop_manager_follows_pairing:
  fixes en :: env
  assumes "env_ok en" "flash_ok fl" "sys_reach en (system_boot en now lo hi fl) s"
  shows "(p_state (sy_p s) = PAIRING_STATE_CONNECTED \<longrightarrow> link_up (hopm (sy_l s)))
    \<and> (p_state (sy_p s) = PAIRING_STATE_IDLE \<longrightarrow> \<not> link_up (hopm (sy_l s)) \<and> \<not> hop_active (hopm (sy_l s)))"
  using reached_agrees [OF assms(3)] reached_ok [OF assms]
  by (auto simp: sys_agrees_def agrees_def up_def sys_ok_def link_wf_def hop_wf_def)

theorem hop_manager_follows_pairing_witness: "\<not> hop_active (hopm (sy_l (system_boot demo_env 5 1 2 demo_flash)))"
proof -
  have "p_state (sy_p (system_boot demo_env 5 1 2 demo_flash)) = PAIRING_STATE_IDLE"
    by (simp add: system_boot_def esb_endpoint_init_def pairing_init_def pairing_settings_load_cb_def pairing_boot_def
        demo_flash_def split_beta Let_def)
  then show ?thesis using hop_manager_follows_pairing [OF demo_env_ok reach_boot, of 5 1 2] by simp
qed

text \<open>
  Between the two it may be up without a connection: a manual unpair of a connected link forgets the
  peer and beacons again, but does not tell the hop manager.
\<close>

lemma unpair_keeps_hop_manager:
  assumes "sys_reach en (system_boot en now lo hi fl) s" "p_state (sy_p s) = PAIRING_STATE_CONNECTED"
  defines "s' \<equiv> s\<lparr>sy_p := cmd_esb_unpair (en_cfg en) (sy_p s)\<rparr>"
  shows "sys_reach en (system_boot en now lo hi fl) s'" "p_state (sy_p s') = PAIRING_STATE_UNPAIRED"
    "link_up (hopm (sy_l s'))"
proof -
  show "sys_reach en (system_boot en now lo hi fl) s'"
    unfolding s'_def by (rule reach_step [OF assms(1) unpair])
  show "p_state (sy_p s') = PAIRING_STATE_UNPAIRED" "link_up (hopm (sy_l s'))"
    using reached_agrees [OF assms(1)] assms(2) by (simp_all add: s'_def sys_agrees_def agrees_def up_def cmd_esb_unpair_def pairing_unpair_def
        forget_peer_def save_paired_def p_cancel_def p_resched_def Let_def)
qed

end
