(* ===== verification/Hooks.thy ===== *)
theory Hooks
  imports System Burst
begin

text \<open>
  What the rest of the program does to the hop manager. Everything outside
  \<open>src/src/esb/channel_hop_ep.c\<close> changes its state only through the hooks that
  \<open>channel_hop_ep.h\<close> declares; each step of the whole system is a sequence of them, or one of the
  manager's own work items. An invariant of the manager is therefore proved over the hooks and the
  work items alone.
\<close>

section \<open>The hooks\<close>

inductive hop_hook :: "kconfig \<Rightarrow> hop \<Rightarrow> hop \<Rightarrow> bool" for cfg where
  hk_user_tx: "hop_hook cfg h (channel_hop_ep_note_user_tx cfg rdv now h)"
| hk_success: "hop_hook cfg h (channel_hop_ep_on_tx_success_isr cfg now h)"
| hk_fail: "hop_hook cfg h (channel_hop_ep_on_tx_fail_isr cfg now h)"
| hk_degraded: "hop_hook cfg h (channel_hop_ep_on_link_degraded_isr now h)"
| hk_rssi: "hop_hook cfg h (channel_hop_ep_note_peer_rssi cfg cur ewma h)"
| hk_rx: "hop_hook cfg h (channel_hop_ep_on_rx cfg now data h)"
| hk_request: "hop_hook cfg h (channel_hop_ep_on_request cfg h)"
| hk_connected: "hop_hook cfg h (channel_hop_ep_on_connected cfg rdv now h)"
| hk_disconnected: "hop_hook cfg h (channel_hop_ep_on_disconnected h)"

text \<open>What holds of the manager before an operation on the link holds of it afterwards.\<close>

locale hook_invariant = step_invariant "hop_hook cfg" P for cfg :: kconfig and P :: "hop \<Rightarrow> bool"
begin

lemmas hooks = step_keeps [OF hk_user_tx] step_keeps [OF hk_success] step_keeps [OF hk_fail]
  step_keeps [OF hk_degraded] step_keeps [OF hk_rssi] step_keeps [OF hk_rx] step_keeps [OF hk_request]
  step_keeps [OF hk_connected] step_keeps [OF hk_disconnected]

lemma sends: "P (hopm l) \<Longrightarrow> P (hopm (snd (esb_transport_send cfg now addr pipe data l)))"
proof -
  have "P (hopm (snd (transmit cfg now pipe data k)))" if "P (hopm k)" for k
    using that hooks(1) by (simp add: transmit_def split_beta Let_def attach_parts note_send_parts)
  then show "P (hopm l) \<Longrightarrow> ?thesis" by (simp add: esb_transport_send_def Let_def)
qed

lemma events: "P (hopm l) \<Longrightarrow> P (hopm (zmk_esb_transport_evt_cb cfg now ev l))"
proof -
  assume l: "P (hopm l)"
  have w: "P (hopm (weak_link cfg now (fail_window cfg now k)))" if "P (hopm k)" for k
    using that hooks(3) by (simp add: weak_link_def fail_window_def Let_def)
  have r: "P (hopm (record_success cfg now a k))" if "P (hopm k)" for a k
    using that hooks(4) by (simp add: record_success_def degraded_check_def split_beta Let_def)
  show ?thesis
    using l hooks(2) by (cases ev) (simp_all add: zmk_esb_transport_evt_cb_def on_tx_success_def on_tx_failed_def Let_def r w split_beta)
qed

lemma interrupts: "P (hopm l) \<Longrightarrow> P (hopm (esb_event_interrupt cfg now l))"
proof -
  have "P (hopm k) \<Longrightarrow> P (hopm (fold (zmk_esb_transport_evt_cb cfg now) evs k))" for evs k
    by (induction evs arbitrary: k) (simp_all add: events)
  then show "P (hopm l) \<Longrightarrow> ?thesis" by (simp add: esb_event_interrupt_def split_beta)
qed

sublocale hop_sends: kept_by_sends "\<lambda>l. P (hopm l)" cfg
  by unfold_locales (rule sends)

lemma packets: "P (hopm l) \<Longrightarrow> P (hopm (snd (pairing_on_rx cfg now addr data (p, l))))"
  using hooks hop_sends.pkts(5)
  by (simp add: pairing_on_rx_def on_pair_req_def on_verify_resp_def on_disconnect_def on_resync_def connected_def
      send_pair_resp_def esb_transport_on_rx_link_stats_def Let_def)

lemma received: "P (hopm l) \<Longrightarrow> P (hopm (snd (receive cfg now addr (p, l))))"
  using packets by (auto simp: receive_def on_transport_evt_def on_bn_def split_beta Let_def split: option.split)

lemma controls: "P (hopm l) \<Longrightarrow> P (hopm (snd (snd (esb_ctrl_resume ec cfg hf tm ppi (e, p, l)))))"
  using hooks(9) by (auto simp: ctrl_defs configure_esb_addresses_def pairing_stop_def split_beta Let_def
      split: ctrl_phase.split list.split ctrl_cmd.split)

lemma bench: "P (hopm l) \<Longrightarrow> P (hopm (bench_task cfg now addr b l))"
  using hop_sends.pkts(5)
  by (cases b) (simp_all add: bench_complete_fn_def bench_result_poll_fn_def on_bn_def split_beta Let_def)

lemma resyncs:
  assumes "en_cfg en = cfg" "P (hopm (sy_l s))"
  shows "P (hopm (sy_l (resync_dispatch en now addr s))) \<and> sy_away (resync_dispatch en now addr s) = sy_away s"
proof -
  have call: "P (hopm (sy_l (resync_call en now addr c t))) \<and> sy_away (resync_call en now addr c t) = sy_away t"
    if "P (hopm (sy_l t))" for c t
    using that hop_sends.hid(1) [of "(sy_h t, sy_l t)"] hop_sends.ip(3) [of "(sy_d t, sy_l t)"] assms(1)
    by (simp add: resync_call_def on_hid_def on_ip_def split_beta Let_def)
  have "P (hopm (sy_l (fold (resync_call en now addr) cs t))) \<and> sy_away (fold (resync_call en now addr) cs t) = sy_away t"
    if "P (hopm (sy_l t))" for cs t
    using that by (induction cs arbitrary: t) (simp_all add: call)
  then show ?thesis using assms(2) by (simp add: resync_dispatch_def on_link_def split_beta Let_def)
qed

text \<open>A step of the whole system runs hooks, a work item of the manager, or the rest of a burst tick.\<close>

lemma system_step:
  assumes st: "sys_step en s s'" and cfg: "en_cfg en = cfg" and P: "P (hopm (sy_l s))"
  obtains (hooked) "P (hopm (sy_l s'))" "sy_away s' = sy_away s"
  | (item) now cyc addr w where "\<not> sy_away s" "hop_task cfg now cyc addr w (take_hop w (sy_l s)) = (sy_away s', sy_l s')"
  | (rest) now addr where "sy_away s" "\<not> sy_away s'" "sy_l s' = post_hop_burst_resume cfg now addr (sy_l s)"
proof -
  note h = hop_sends.reports(3) hop_sends.hid(2) hop_sends.ip(1) hop_sends.ip(4) hop_sends.timers
  from st show thesis
  proof cases
    case (hop_item w now cyc addr away l)
    then show thesis using item cfg by simp
  next
    case (returned now addr)
    then show thesis using rest cfg by (simp add: on_link_def)
  next
    case (control hf tm ppi)
    then show thesis using controls [OF P] hooked cfg by (simp add: on_control_def split_beta Let_def)
  next
    case (resync now addr)
    then show thesis using resyncs [OF cfg P] hooked by simp
  qed (rule hooked; use P cfg in \<open>simp add: on_link_def on_pairing_def on_hid_def on_ip_def split_beta Let_def
        interrupts received bench h adaptive_retry_work_fn_def cmd_esb_bench_def on_bn_def split: bench_state.split\<close>)+
qed

end

section \<open>What is due\<close>

text \<open>
  The timers that the manager relies on: while it is active the next negotiation and the idle check,
  the next tick of a burst, the offer or its outcome while one is open, the commit of one that is
  armed, and for ever the two that write to flash. \<open>R\<close> holds the work item that is running.
\<close>

definition pending :: "hop_work_item set \<Rightarrow> hop \<Rightarrow> hop_work_item \<Rightarrow> bool" where
  "pending R h w \<longleftrightarrow> w \<in> R \<or> hop_wq h w \<noteq> None"

definition due :: "hop_work_item set \<Rightarrow> hop \<Rightarrow> bool" where
  "due R h \<longleftrightarrow>
     (hop_active h \<longrightarrow> link_up h \<and> pending R h W_negotiate \<and> pending R h W_idle_check)
   \<and> (0 < burst_remaining h \<longrightarrow> pending R h W_post_hop_burst)
   \<and> (coop_st h = COOP_OFFERED \<longrightarrow> pending R h W_coop_offer \<or> last_tx_was_offer h)
   \<and> (coop_st h = COOP_ARMED \<longrightarrow> pending R h W_coop_commit)
   \<and> pending R h W_persist \<and> pending R h W_rssi_persist"

lemmas due_simps = due_def pending_def hop_simps resched_def submit_def cancel_def

lemma due_timers:
  "due R h \<Longrightarrow> due R (hop_resched w d h)" "due R h \<Longrightarrow> due R (hop_submit w h)" "due R (on_offs f h) = due R h"
  "w \<notin> {W_negotiate, W_idle_check, W_post_hop_burst, W_coop_offer, W_coop_commit, W_persist, W_rssi_persist}
    \<Longrightarrow> due R h \<Longrightarrow> due R (hop_cancel w h)"
  by (auto simp: due_simps)

lemma due_enter: "due R h \<Longrightarrow> link_up h \<Longrightarrow> due R (enter_active_state cfg rdv now b h)"
  by (auto simp: enter_active_state_def due_simps)

lemma due_leave: "due R h \<Longrightarrow> due R (leave_active h)" "due R h \<Longrightarrow> due R (channel_hop_ep_on_disconnected h)"
  by (auto simp: leave_active_def channel_hop_ep_on_disconnected_def due_simps)

lemma due_fail: "due R h \<Longrightarrow> due R (channel_hop_ep_on_tx_fail_isr cfg now h)"
proof -
  have "due R (tx_fail_hop cfg now k)" if "due R k" for k
    using that by (auto simp: tx_fail_hop_def due_simps)
  moreover have "due R h \<Longrightarrow> coop_st h \<noteq> COOP_OFFERED \<Longrightarrow> due R (h\<lparr>last_tx_was_offer := False\<rparr>)"
    "due R h \<Longrightarrow> due R (h\<lparr>last_tx_was_offer := False, coop_st := COOP_IDLE\<rparr>)"
    by (auto simp: due_def pending_def)
  ultimately show "due R h \<Longrightarrow> ?thesis" by (simp add: channel_hop_ep_on_tx_fail_isr_def Let_def)
qed

lemma due_success: "due R h \<Longrightarrow> due R (channel_hop_ep_on_tx_success_isr cfg now h)"
  by (auto simp: channel_hop_ep_on_tx_success_isr_def due_simps)

lemma due_degraded: "due R h \<Longrightarrow> due R (channel_hop_ep_on_link_degraded_isr now h)"
  by (auto simp: channel_hop_ep_on_link_degraded_isr_def due_simps)

lemma due_packets: "due R h \<Longrightarrow> due R (channel_hop_ep_on_rx cfg now data h)" "due R h \<Longrightarrow> due R (channel_hop_ep_on_request cfg h)"
  "due R h \<Longrightarrow> due R (channel_hop_ep_note_peer_rssi cfg cur ewma h)"
  by (auto simp: channel_hop_ep_on_rx_def on_confirm_def on_accept_def channel_hop_ep_on_request_def
      channel_hop_ep_note_peer_rssi_def due_simps)

interpretation due_kept: hook_invariant cfg "due R" for cfg R
proof unfold_locales
  fix h h'
  assume "hop_hook cfg h h'" and d: "due R h"
  moreover have "due R (on_offs f (h\<lparr>link_up := True\<rparr>))" for f using d by (auto simp: due_simps)
  ultimately show "due R h'"
    by cases (simp_all add: due_fail due_success due_degraded due_packets due_leave due_enter
        channel_hop_ep_note_user_tx_def channel_hop_ep_on_connected_def on_offs_eq)
qed

lemma due_take: "due {} (hopm l) \<Longrightarrow> due {w} (hopm (take_hop w l))"
  by (auto simp: take_hop_def due_simps)

lemma due_more: "due {} h \<Longrightarrow> due R h"
  by (auto simp: due_def pending_def)

section \<open>The work items\<close>

lemma due_chosen:
  "due R (snd (pick_candidate cfg now cyc cur h)) = due R h"
  "due R (snd (select_pending_candidate cfg now cyc cur h)) = due R h"
  "due R (snd (coop_hop_pick_target cfg now cyc cur h)) = due R h"
  "due R (snd (hop_decide cfg now cyc rdv cur h)) = due R h"
  by (simp_all add: pick_candidate_def select_pending_candidate_def coop_hop_pick_target_def hop_decide_def
      due_def pending_def split_beta Let_def)

lemma due_negotiate: "due {W_negotiate} (hopm l) \<Longrightarrow> due {} (hopm (negotiate_work_fn cfg now cyc addr l))"
proof -
  assume d: "due {W_negotiate} (hopm l)"
  have up: "due {} (hop_resched W_negotiate ms h)" if "due {W_negotiate} h" for ms h using that by (auto simp: due_simps)
  have down: "due {} h" if "due {W_negotiate} h" "\<not> link_up h" for h using that by (auto simp: due_def pending_def)
  have c: "due {W_negotiate} (snd (pick_candidate cfg now cyc cur (h\<lparr>committed_synced := False\<rparr>)))"
    "due {W_negotiate} (h\<lparr>request_burst := n\<rparr>)" if "due {W_negotiate} h" for h cur n
    using that by (simp add: due_chosen, simp_all add: due_def pending_def)
  show ?thesis
    using d c by (auto simp: negotiate_work_fn_def split_beta Let_def intro!: up intro: down)
qed

lemma due_idle_check: "due {W_idle_check} (hopm l) \<Longrightarrow> due {} (hopm (idle_check_work_fn cfg now addr l))"
  by (auto simp: idle_check_work_fn_def enter_idle_state_def leave_active_def due_simps)

lemma due_burst_tail: "due {W_post_hop_burst} (hopm l) \<Longrightarrow> due {} (hopm (burst_tail cfg now addr l))"
  by (auto simp: burst_tail_def due_simps)

lemma due_burst:
  assumes "due {W_post_hop_burst} (hopm l)" "post_hop_burst_work_fn cfg now cyc addr l = (away, l')"
  shows "due (if away then {W_post_hop_burst} else {}) (hopm l')"
proof -
  have "due {} (hopm l)" if "burst_remaining (hopm l) = 0" using that assms(1) by (auto simp: due_def pending_def)
  then show ?thesis
    using assms due_burst_tail
    by (auto simp: post_hop_burst_work_fn_def due_chosen split_beta Let_def split: if_splits)
qed

lemma due_bookkeeping:
  "due {} h \<Longrightarrow> due {} (commit_hop_bookkeeping cfg now rdv prev ms h)" "due {} h \<Longrightarrow> due {} (start_post_hop_burst cfg h)"
  by (auto simp: commit_hop_bookkeeping_def start_post_hop_burst_def due_simps)

lemma due_fields:
  "due R (h\<lparr>prev_channel := c\<rparr>) = due R h" "due R (h\<lparr>offs := s\<rparr>) = due R h" "due R (h\<lparr>rdv_hold_until := u\<rparr>) = due R h"
  "due R (unban c h) = due R h" "due R (h\<lparr>coop_cooldown_until := u, coop_st := COOP_IDLE\<rparr>) \<longleftrightarrow> due R (h\<lparr>coop_st := COOP_IDLE\<rparr>)"
  by (simp_all add: due_simps unban_def)

lemma due_coop_idle: "due R h \<Longrightarrow> due R (h\<lparr>coop_st := COOP_IDLE\<rparr>)"
  by (auto simp: due_def pending_def)

lemma due_rendezvous:
  "due {} h \<Longrightarrow> due {} (h\<lparr>prev_channel := a, committed_next := b, committed_synced := c, hop_cooldown_until := d, last_link_event_ms := e\<rparr>)"
  by (simp add: due_def pending_def)

lemma due_committed: "due {} h \<Longrightarrow> due {} (hop_committed cfg now rdv cur kind target h)"
  "due {} h \<Longrightarrow> due {} (coop_committed cfg now rdv cur h)"
  by (cases kind; simp add: hop_committed_def Let_def due_timers(1) due_bookkeeping due_rendezvous due_fields)
    (simp add: coop_committed_def due_fields due_coop_idle due_bookkeeping)

lemma due_hop: "due {} (hopm l) \<Longrightarrow> due {} (hopm (hop_work_fn cfg now cyc l))"
  by (auto simp: hop_work_fn_def split_beta Let_def due_timers due_chosen due_committed split: option.split)

lemma due_coop_done: "due {w} h \<Longrightarrow> w \<in> {W_coop_offer, W_coop_commit} \<Longrightarrow> due {} (h\<lparr>coop_st := COOP_IDLE\<rparr>)"
  by (auto simp: due_def pending_def)

lemma due_offer: "due {W_coop_offer} (hopm l) \<Longrightarrow> due {} (hopm (coop_hop_offer_work_fn cfg now cyc addr l))"
proof -
  assume d: "due {W_coop_offer} (hopm l)"
  have "due {} h" if "due {W_coop_offer} h" "coop_st h \<noteq> COOP_OFFERED" for h using that by (auto simp: due_def pending_def)
  moreover have "due {} (h\<lparr>coop_target := c, coop_seq := s, last_tx_was_offer := True\<rparr>)"
    "due {} (h\<lparr>coop_target := c, coop_seq := s, last_tx_was_offer := False, coop_st := COOP_IDLE\<rparr>)"
    if "due {W_coop_offer} h" for h c s
    using that by (auto simp: due_def pending_def)
  ultimately show ?thesis
    using d by (auto simp: coop_hop_offer_work_fn_def send_pkt_def hopm_send_quiet is_user_traffic_def split_beta Let_def due_chosen
        due_coop_done)
qed

lemma due_commit: "due {W_coop_commit} (hopm l) \<Longrightarrow> due {} (hopm (coop_hop_commit_work_fn cfg now l))"
proof -
  assume d: "due {W_coop_commit} (hopm l)"
  have "due {} h" if "due {W_coop_commit} h" "coop_st h \<noteq> COOP_ARMED" for h using that by (auto simp: due_def pending_def)
  moreover have "due {} (coop_committed cfg now rdv cur h)" if "due {W_coop_commit} h" "coop_st h = COOP_ARMED" for rdv cur h
  proof -
    have "due {W_coop_commit} (coop_committed cfg now rdv cur h)"
      using that(1) by (auto simp: coop_committed_def commit_hop_bookkeeping_def start_post_hop_burst_def due_simps)
    then show ?thesis by (auto simp: due_def pending_def coop_committed_def)
  qed
  ultimately show ?thesis
    using d by (auto simp: coop_hop_commit_work_fn_def split_beta Let_def due_coop_done due_timers)
qed

lemma due_plain:
  "due {W_hop} h \<Longrightarrow> due {} h" "due {W_hop_retry} h \<Longrightarrow> due {} (hop_retry_work_fn h)"
  "due {W_persist} h \<Longrightarrow> due {} (persist_work_fn cfg rdv h)" "due {W_rssi_persist} h \<Longrightarrow> due {} (rssi_persist_work_fn cfg h)"
  by (auto simp: due_simps hop_retry_work_fn_def persist_work_fn_def rssi_persist_work_fn_def)

lemma due_task:
  assumes "due {} (hopm l)" "hop_task cfg now cyc addr w (take_hop w l) = (away, l')"
  shows "due (if away then {W_post_hop_burst} else {}) (hopm l')"
proof (cases "w = W_post_hop_burst")
  case True
  then show ?thesis using due_burst [of "take_hop w l"] due_take [OF assms(1)] assms(2) by simp
next
  case False
  then have "\<not> away" using assms(2) by (cases w) auto
  moreover have "due {} (hopm (snd (hop_task cfg now cyc addr w (take_hop w l))))"
    using False due_take [OF assms(1), of w]
    by (cases w) (simp_all add: due_negotiate due_idle_check due_hop due_offer due_commit due_plain)
  ultimately show ?thesis using assms(2) by simp
qed

section \<open>The manager never gets stuck\<close>

definition sys_due :: "system \<Rightarrow> bool" where
  "sys_due s \<longleftrightarrow> due (if sy_away s then {W_post_hop_burst} else {}) (hopm (sy_l s))"

interpretation due_reached: step_invariant "sys_step en" sys_due for en
proof unfold_locales
  fix s s'
  assume st: "sys_step en s s'" and d: "sys_due s"
  have hooked: "sys_due s'" if "due (if sy_away s then {W_post_hop_burst} else {}) (hopm (sy_l s'))" "sy_away s' = sy_away s"
    using that by (simp add: sys_due_def)
  have item: "sys_due s'" if "\<not> sy_away s" "hop_task (en_cfg en) now cyc addr w (take_hop w (sy_l s)) = (sy_away s', sy_l s')"
    for now cyc addr w using that due_task d by (simp add: sys_due_def)
  have rest: "sys_due s'" if "sy_away s" "\<not> sy_away s'" "sy_l s' = post_hop_burst_resume (en_cfg en) now addr (sy_l s)"
    for now addr using that due_burst_tail d by (simp add: sys_due_def post_hop_burst_resume_def)
  show "sys_due s'"
    by (rule due_kept.system_step [OF st refl d [unfolded sys_due_def]]) (fact hooked item rest)+
qed

lemma due_boot: "sys_due (system_boot en now lo hi fl)"
proof -
  have "due {} (channel_hop_ep_init cfg rdv now recs rec h)" for cfg rdv recs rec h
    by (simp add: channel_hop_ep_init_def due_simps no_work_def)
  then show ?thesis
    by (simp add: sys_due_def system_boot_def esb_endpoint_init_def esb_ip_init_def hid_relay_init_def split_beta Let_def)
qed

text \<open>
  C5. The hop manager is never stuck. In every state that the system reaches, whatever comes in whatever
  order: while the manager is active its link is up and the next negotiation and the idle check are
  scheduled; a burst that has ticks left has its next tick scheduled, or it waits on the rendezvous
  channel; an offer that is open is still to be sent or its outcome is awaited, and one that is armed
  has its commit scheduled; and the two work items that write to flash are always scheduled.
\<close>

theorem hop_manager_never_stuck:
  assumes "sys_reach en (system_boot en now lo hi fl) s"
  defines "h \<equiv> hopm (sy_l s)"
  shows "(hop_active h \<longrightarrow> link_up h \<and> hop_wq h W_negotiate \<noteq> None \<and> hop_wq h W_idle_check \<noteq> None)
    \<and> (0 < burst_remaining h \<longrightarrow> hop_wq h W_post_hop_burst \<noteq> None \<or> sy_away s)
    \<and> (coop_st h = COOP_OFFERED \<longrightarrow> hop_wq h W_coop_offer \<noteq> None \<or> last_tx_was_offer h)
    \<and> (coop_st h = COOP_ARMED \<longrightarrow> hop_wq h W_coop_commit \<noteq> None)
    \<and> hop_wq h W_persist \<noteq> None \<and> hop_wq h W_rssi_persist \<noteq> None"
  using due_reached.reached_keeps [OF assms(1) due_boot]
  by (auto simp: h_def sys_due_def due_def pending_def split: if_splits)

theorem hop_manager_never_stuck_witness:
  "hop_wq (hopm (sy_l (system_boot demo_env 5 1 2 demo_flash))) W_persist \<noteq> None"
  using hop_manager_never_stuck [OF reach_boot, of demo_env 5 1 2 demo_flash] by simp


section \<open>The hop that outlives its link\<close>

text \<open>
  A disconnect cancels the manager's timers, but not a hop that is already submitted, and the hop does
  not look whether the link is still up. Once the endpoint is switched off away from its rendezvous
  channel, the transport refuses the hop, which schedules its own retry; so it goes on for ever.
\<close>

lemma disconnect_keeps_submitted_hop: "hop_wq (channel_hop_ep_on_disconnected h) W_hop = hop_wq h W_hop"
  by (simp add: channel_hop_ep_on_disconnected_def hop_simps cancel_def)

definition hop_round :: "kconfig \<Rightarrow> u32 \<Rightarrow> u32 \<Rightarrow> link \<Rightarrow> link" where
  "hop_round cfg now cyc l =
     hop_work_fn cfg now cyc (take_hop W_hop (on_hop hop_retry_work_fn (take_hop W_hop_retry l)))"

lemma hop_decide_away:
  assumes "cur \<noteq> rdv"
  shows "\<exists>kind ch h'. hop_decide cfg now cyc rdv cur h = (Some (kind, ch), h')"
  using assms by (cases "rdv_fallback_pending h"; cases "prev_channel h \<noteq> channel_invalid \<and> prev_channel h \<noteq> cur";
      cases "usable_next now cur h (committed_next h)") (simp_all add: hop_decide_def Let_def)

lemma hop_refused:
  assumes "\<not> t_configured (tr l)" "t_channel (tr l) \<noteq> boot_channel (tr l)"
  shows "hop_wq (hopm (hop_work_fn cfg now cyc l)) W_hop_retry = Some (c_hop_retry_delay_ms cfg)
    \<and> place (hop_work_fn cfg now cyc l) = place l"
proof -
  let ?rdv = "boot_channel (tr l)" and ?cur = "t_channel (tr l)"
  let ?h = "on_offs (persist_decay_check cfg ?rdv now) (hopm l)"
  obtain kind ch h where d: "hop_decide cfg now cyc ?rdv ?cur ?h = (Some (kind, ch), h)"
    using hop_decide_away [OF assms(2)] by blast
  have "esb_transport_set_channel cfg now ch k = (Err ENODEV, k)" if "tr k = tr l" for k
    using assms(1) that by (simp add: esb_transport_set_channel_def)
  then have "hop_work_fn cfg now cyc l = on_hop (hop_resched W_hop_retry (c_hop_retry_delay_ms cfg))
      (on_tr esb_transport_reset_consecutive_fail (on_hop (on_offs (persist_decay_check cfg ?rdv now)) l\<lparr>hopm := h\<rparr>))"
    by (simp add: hop_work_fn_def d Let_def)
  then show ?thesis by (simp add: place_def esb_transport_reset_consecutive_fail_def hop_resched_def resched_def)
qed

lemma refused_hop_retries_for_ever:
  assumes "\<not> t_configured (tr l)" "t_channel (tr l) \<noteq> boot_channel (tr l)"
  shows "hop_wq (hopm ((hop_round cfg now cyc ^^ n) (hop_work_fn cfg now cyc l))) W_hop_retry = Some (c_hop_retry_delay_ms cfg)"
proof -
  let ?run = "\<lambda>n. (hop_round cfg now cyc ^^ n) (hop_work_fn cfg now cyc l)"
  have "hop_wq (hopm (?run n)) W_hop_retry = Some (c_hop_retry_delay_ms cfg) \<and> place (?run n) = place l"
  proof (induction n)
    case 0
    then show ?case using hop_refused [OF assms] by simp
  next
    case (Suc n)
    let ?l = "take_hop W_hop (on_hop hop_retry_work_fn (take_hop W_hop_retry (?run n)))"
    have p: "place ?l = place l" using Suc by simp
    then have "\<not> t_configured (tr ?l)" "t_channel (tr ?l) \<noteq> boot_channel (tr ?l)" using assms by (auto simp: place_def)
    from hop_refused [OF this, of cfg now cyc] p show ?case by (simp only: funpow.simps o_apply hop_round_def [of cfg now cyc "?run n"] simp_thms)
  qed
  then show ?thesis by simp
qed

end
