(* ===== verification/IdleLink.thy ===== *)
theory IdleLink
  imports Hooks Negotiate
begin

text \<open>
  The link without traffic of the user: what the hop manager does when it goes idle, and that it then
  leaves the radio and the transport alone until the user's next report.
\<close>

section \<open>The idle manager\<close>

definition asleep :: "hop \<Rightarrow> bool" where
  "asleep h \<longleftrightarrow> \<not> hop_active h \<and> burst_remaining h = 0 \<and> coop_st h = COOP_IDLE
     \<and> hop_wq h W_hop = None \<and> hop_wq h W_hop_retry = None"

lemma asleep_fields:
  "asleep (on_offs f h) = asleep h" "asleep (h\<lparr>chan_rssi := r\<rparr>) = asleep h" "asleep (h\<lparr>nvs_rssi := n, rssi_saved := r\<rparr>) = asleep h"
  "w \<notin> {W_hop, W_hop_retry} \<Longrightarrow> asleep (hop_resched w d h) = asleep h"
  "asleep h \<Longrightarrow> asleep (hop_cancel w h)" "asleep h \<Longrightarrow> asleep (h\<lparr>coop_st := COOP_IDLE\<rparr>)"
  by (auto simp: asleep_def hop_simps resched_def cancel_def)

text \<open>Whatever hook runs: the manager sleeps on unless the hook makes it active.\<close>

lemma asleep_hook: "hop_hook cfg h h' \<Longrightarrow> asleep h \<Longrightarrow> \<not> hop_active h' \<Longrightarrow> asleep h'"
  by (erule hop_hook.cases)
    (auto simp: asleep_def hop_simps resched_def cancel_def channel_hop_ep_note_user_tx_def enter_active_state_def
      channel_hop_ep_on_tx_success_isr_def channel_hop_ep_on_tx_fail_isr_def tx_fail_hop_def
      channel_hop_ep_on_link_degraded_isr_def channel_hop_ep_note_peer_rssi_def channel_hop_ep_on_rx_def on_accept_def
      on_confirm_def channel_hop_ep_on_request_def channel_hop_ep_on_connected_def channel_hop_ep_on_disconnected_def
      split: if_splits)

lemma asleep_task:
  assumes "asleep (hopm l)" "w \<notin> {W_hop, W_hop_retry}"
  shows "\<exists>h. hop_task cfg now cyc addr w l = (False, l\<lparr>hopm := h\<rparr>) \<and> asleep h"
proof -
  have "\<not> hop_active (hopm l)" "burst_remaining (hopm l) = 0" "coop_st (hopm l) = COOP_IDLE" using assms(1) by (simp_all add: asleep_def)
  then show ?thesis
    using assms by (cases w; cases "link_up (hopm l)"; intro exI [of _ "hopm (snd (hop_task cfg now cyc addr w l))"])
      (simp_all add: negotiate_work_fn_def idle_check_work_fn_def post_hop_burst_work_fn_def coop_hop_offer_work_fn_def
        coop_hop_commit_work_fn_def persist_work_fn_def rssi_persist_work_fn_def asleep_fields Let_def)
qed

lemma asleep_item:
  assumes "asleep (hopm l)" "hop_wq (hopm l) w \<noteq> None" "hop_task cfg now cyc addr w (take_hop w l) = (away, l')"
  shows "asleep (hopm l') \<and> radio l' = radio l \<and> tr l' = tr l \<and> \<not> away"
proof -
  have "asleep (hopm (take_hop w l))" using assms(1) by (simp add: take_hop_def asleep_fields)
  moreover have "w \<notin> {W_hop, W_hop_retry}" using assms(1,2) by (auto simp: asleep_def)
  ultimately obtain h where "hop_task cfg now cyc addr w (take_hop w l) = (False, take_hop w l\<lparr>hopm := h\<rparr>)" "asleep h"
    using asleep_task by blast
  then show ?thesis using assms(3) by (auto simp: take_hop_def)
qed

section \<open>Runs of the manager alone\<close>

text \<open>Its work items and the hooks other parts call, as long as none of these makes it active again.\<close>

inductive manager_step :: "kconfig \<Rightarrow> link \<Rightarrow> link \<Rightarrow> bool" for cfg where
  work: "hop_wq (hopm l) w \<noteq> None \<Longrightarrow> hop_task cfg now cyc addr w (take_hop w l) = (away, l') \<Longrightarrow> manager_step cfg l l'"
| hook: "hop_hook cfg (hopm l) h' \<Longrightarrow> \<not> hop_active h' \<Longrightarrow> manager_step cfg l (l\<lparr>hopm := h'\<rparr>)"

interpretation sleeping: step_invariant "manager_step cfg" "\<lambda>l. asleep (hopm l) \<and> radio l = s \<and> tr l = t" for cfg s t
  by unfold_locales (auto elim!: manager_step.cases dest: asleep_item asleep_hook)

section \<open>Going idle\<close>

lemma flushed:
  assumes "esb_initialized (radio l)"
  shows "tx_queue (radio (esb_flush_tx_and_reset cfg l)) = []" "esb_initialized (radio (esb_flush_tx_and_reset cfg l))"
    and "esb_transport_is_quiet t (tr (esb_flush_tx_and_reset cfg l)) = esb_transport_is_quiet t (tr l)"
proof -
  note q = same_queueD [OF resync_parts(6) [of "on_radio esb_flush_tx l" cfg]]
  show "tx_queue (radio (esb_flush_tx_and_reset cfg l)) = []" "esb_initialized (radio (esb_flush_tx_and_reset cfg l))"
    unfolding esb_flush_tx_and_reset_def q(1) q(3) using assms by (simp_all add: esb_flush_tx_def)
  show "esb_transport_is_quiet t (tr (esb_flush_tx_and_reset cfg l)) = esb_transport_is_quiet t (tr l)"
    using core_fields(4,5) [OF core_bookkeeping(3), of cfg l] by (simp add: esb_transport_is_quiet_def)
qed

lemma idle_sent:
  assumes "kconfig_ok cfg" "link_wf cfg l" "esb_initialized (radio l)" "\<not> esb_transport_is_quiet now (tr l)"
  shows "\<exists>p. tx_queue (radio (send_idle_packet cfg now addr l)) = [p] \<and> pl_data p = layout Idle"
proof -
  have f: "\<not> is_shell (layout Idle)" "length (layout Idle) \<le> 3" "layout Idle \<noteq> []" by (simp_all add: is_shell_def)
  have w: "link_wf cfg (esb_flush_tx_and_reset cfg l)" using assms(2) by (rule link_wf_flush)
  from frame_sent [OF assms(1) w flushed(2) _ f(3,2,1), of now addr] assms(3,4) flushed(1,3) [OF assms(3)] show ?thesis
    unfolding send_idle_packet_def send_pkt_def esb_transport_flush_tx_def by (auto split: if_splits)
qed

lemma leave_asleep:
  assumes "burst_remaining h = 0" "hop_wq h W_hop = None" "hop_wq h W_hop_retry = None"
  shows "asleep (leave_active h)"
  using assms by (simp add: asleep_def leave_active_def hop_simps cancel_def)

lemma user_wakes:
  assumes "link_up h" "\<not> hop_active h"
  shows "hop_active (channel_hop_ep_note_user_tx cfg rdv now h)
    \<and> hop_wq (channel_hop_ep_note_user_tx cfg rdv now h) W_negotiate = Some (c_negotiate_retry_ms cfg)
    \<and> hop_wq (channel_hop_ep_note_user_tx cfg rdv now h) W_idle_check = Some (c_idle_threshold_ms cfg)"
  using assms by (simp add: channel_hop_ep_note_user_tx_def enter_active_state_def hop_simps resched_def)

text \<open>
  C16. An idle link is left alone. When the idle check of an active manager finds no burst and no hop
  under way, everything still queued is dropped and the last frame the dongle gets is one IDLE packet;
  from then on no work item of the manager and no hook, in whatever order they come, touches the radio
  or the transport, until a hook makes the manager active: a burst, a hop or a handshake cannot start
  by itself. The user's next report does wake it, and sets the negotiation and the idle check going.
\<close>

theorem idle_link_left_alone:
  fixes cfg now addr l
  defines "l1 \<equiv> idle_check_work_fn cfg now addr l"
  assumes cfg: "kconfig_ok cfg" "link_wf cfg l" "esb_initialized (radio l)" "\<not> esb_transport_is_quiet now (tr l)"
    and active: "link_up (hopm l)" "hop_active (hopm l)"
    and still: "burst_remaining (hopm l) = 0" "hop_wq (hopm l) W_hop = None" "hop_wq (hopm l) W_hop_retry = None"
    and run: "(manager_step cfg)\<^sup>*\<^sup>* l1 l2"
  shows "(\<exists>p. tx_queue (radio l1) = [p] \<and> pl_data p = layout Idle)
    \<and> radio l2 = radio l1 \<and> tr l2 = tr l1 \<and> \<not> hop_active (hopm l2) \<and> coop_st (hopm l2) = COOP_IDLE
    \<and> (link_up (hopm l2) \<longrightarrow>
        (let h = channel_hop_ep_note_user_tx cfg rdv later (hopm l2)
         in hop_active h \<and> hop_wq h W_negotiate = Some (c_negotiate_retry_ms cfg)
          \<and> hop_wq h W_idle_check = Some (c_idle_threshold_ms cfg)))"
proof -
  have l1: "l1 = send_idle_packet cfg now addr (on_hop leave_active l)"
    using active by (simp add: l1_def idle_check_work_fn_def enter_idle_state_def)
  have "link_wf cfg (on_hop leave_active l)" using cfg(2) by (intro link_wf_hop hop_wf_leave)
  from idle_sent [OF cfg(1) this] have sent: "\<exists>p. tx_queue (radio l1) = [p] \<and> pl_data p = layout Idle"
    using cfg(3,4) by (simp add: l1)
  have "asleep (hopm l1)" by (simp add: l1 leave_asleep still)
  from sleeping.reached_keeps [OF run, of "radio l1" "tr l1"] this
  have l2: "asleep (hopm l2)" "radio l2 = radio l1" "tr l2 = tr l1" by simp_all
  then show ?thesis using sent user_wakes by (simp add: asleep_def Let_def)
qed

theorem idle_link_left_alone_witness:
  "\<not> hop_active (hopm (snd (hop_task default_kconfig 900 7 3 W_persist
     (take_hop W_persist (idle_check_work_fn default_kconfig 500 0x20001000
        (on_hop (hop_resched W_persist 60000) up_link))))))"
proof -
  let ?l = "on_hop (hop_resched W_persist 60000) up_link"
  let ?l1 = "idle_check_work_fn default_kconfig 500 0x20001000 ?l"
  have w: "link_wf default_kconfig ?l" using up_link_wf by (simp add: link_wf_def hop_resched_def)
  have h: "hop_wq (hopm ?l) W_hop = None" "hop_wq (hopm ?l) W_hop_retry = None" "hop_active (hopm ?l)" "link_up (hopm ?l)"
    "burst_remaining (hopm ?l) = 0"
    by (simp_all add: idle_hop_def hop_resched_def resched_def no_work_def)
  have "hop_wq (hopm ?l1) W_persist \<noteq> None"
    using h(3,4) by (simp add: idle_check_work_fn_def enter_idle_state_def leave_active_def hop_simps cancel_def resched_def)
  then have "(manager_step default_kconfig)\<^sup>*\<^sup>* ?l1 (snd (hop_task default_kconfig 900 7 3 W_persist (take_hop W_persist ?l1)))"
    by (intro r_into_rtranclp manager_step.work [where w = W_persist and away = False]) simp_all
  moreover have "esb_initialized (radio ?l)" "\<not> esb_transport_is_quiet 500 (tr ?l)" by (simp_all add: esb_transport_is_quiet_def)
  ultimately show ?thesis using idle_link_left_alone [OF kconfig_ok_default w _ _ h(4,3,5,1,2)] by blast
qed

end
