(* ===== verification/Wire.thy ===== *)
theory Wire
  imports RelayBuild
begin

text \<open>
  The packets on the wire against the code that receives them: the dispatch of the endpoint
  (\<open>pairing_on_rx\<close> and the benchmark behind \<open>on_transport_evt\<close>, \<open>relay_on_rx\<close> for the bytes of the shell)
  reads each field of the layouts of \<open>protocol.h\<close> where the sender has put it.
\<close>

text \<open>The packets the endpoint listens to; the others it only sends.\<close>

fun heard :: "pkt \<Rightarrow> bool" where
  "heard (Pair_Req dev) = True" | "heard (Verify_Resp dev) = True" | "heard Disconnect = True" | "heard Resync = True"
| "heard (Hop_Confirm a acc) = True" | "heard (Hop_Accept a acc sq) = True" | "heard Hop_Request = True"
| "heard (Link_Stats r e) = True" | "heard (Bench_Result a lo hi n) = True" | "heard k = False"

lemma on_bn_same [simp]: "on_bn (\<lambda>b. b) l = l"
  by (simp add: on_bn_def)

lemma bench_deaf: "data = [] \<or> data ! 0 \<noteq> pkt_bench_result \<Longrightarrow> on_bn (esb_bench_on_rx cfg data) l = l"
  by (auto simp: on_bn_def esb_bench_on_rx_def)

lemma bench_short: "length data < 8 \<Longrightarrow> on_bn (esb_bench_on_rx cfg data) l = l"
  by (simp add: on_bn_def esb_bench_on_rx_def)

lemma layout_head: "layout k ! 0 = pkt_bench_result \<longleftrightarrow> (\<exists>a lo hi n. k = Bench_Result a lo hi n)"
  by (cases k) simp_all

lemma evt_quiet: "on_bn (esb_bench_on_rx cfg data) (snd (pairing_on_rx cfg now addr data (p, l))) = snd (pairing_on_rx cfg now addr data (p, l))
    \<Longrightarrow> on_transport_evt cfg now addr data (p, l) = pairing_on_rx cfg now addr data (p, l)"
  by (simp add: on_transport_evt_def split_beta)

lemma evt_pairing:
  "\<not> (\<exists>a lo hi n. k = Bench_Result a lo hi n) \<Longrightarrow> on_transport_evt cfg now addr (layout k) (p, l) = pairing_on_rx cfg now addr (layout k) (p, l)"
  by (rule evt_quiet, rule bench_deaf) (simp add: layout_head)

lemma unheard: "\<not> heard k \<Longrightarrow> on_transport_evt cfg now addr (layout k) (p, l) = (p, l)"
proof -
  assume k: "\<not> heard k"
  then have "pairing_on_rx cfg now addr (layout k) (p, l) = (p, l)" by (cases k) (simp_all add: pairing_on_rx_def)
  moreover have "\<not> (\<exists>a lo hi n. k = Bench_Result a lo hi n)" using k by auto
  ultimately show ?thesis using evt_pairing [of k cfg now addr p l] by simp
qed

text \<open>A frame that breaks off is not acted on.\<close>

lemma truncated:
  assumes "pkt_ok k" "n < length (layout k)"
  shows "on_transport_evt cfg now addr (take n (layout k)) (p, l) = (p, l)"
proof (cases "n = 0")
  case True
  then show ?thesis by (simp add: on_transport_evt_def pairing_on_rx_def bench_deaf)
next
  case False
  then have h: "take n (layout k) ! 0 = layout k ! 0" "length (take n (layout k)) = n" using assms(2) by simp_all
  have "on_bn (esb_bench_on_rx cfg (take n (layout k))) m = m" for m
  proof (cases "layout k ! 0 = pkt_bench_result")
    case True
    then have "length (layout k) = 8" by (auto simp: layout_head)
    then show ?thesis using assms(2) by (intro bench_short) simp
  qed (simp add: bench_deaf h)
  then have e: "on_transport_evt cfg now addr (take n (layout k)) (p, l) = pairing_on_rx cfg now addr (take n (layout k)) (p, l)"
    by (rule evt_quiet)
  show ?thesis
    using False assms h unfolding e
    by (cases k) (auto simp: pairing_on_rx_def on_pair_req_def on_verify_resp_def channel_hop_ep_on_rx_def on_accept_def on_confirm_def
        esb_transport_on_rx_link_stats_def Let_def)
qed

text \<open>What each packet that is heard does, in terms of the fields its sender filled in.\<close>

definition read_back ::
  "kconfig \<Rightarrow> u32 \<Rightarrow> pkt \<Rightarrow> pairing \<times> link \<Rightarrow> pairing \<times> link \<Rightarrow> bool" where
  "read_back cfg now k = (\<lambda>(p, l) (p', l'). let h = hopm l; h' = hopm l' in (case k of
     Pair_Req dev \<Rightarrow> if p_state p = PAIRING_STATE_UNPAIRED
        then p_state p' = PAIRING_STATE_CONNECTED \<and> p_peer_id p' = dev \<and> p_nvs p' = Some (1 # dev) else (p', l') = (p, l)
   | Verify_Resp dev \<Rightarrow> p_peer_id p' = p_peer_id p
        \<and> (if p_state p = PAIRING_STATE_VERIFYING \<and> dev = p_peer_id p then p_state p' = PAIRING_STATE_CONNECTED
           else (p', l') = (p, l))
   | Disconnect \<Rightarrow> p_state p' = PAIRING_STATE_UNPAIRED \<and> \<not> p_has_peer p'
   | Resync \<Rightarrow> p_state p' = (if p_state p = PAIRING_STATE_CONNECTED then PAIRING_STATE_VERIFYING else p_state p)
        \<and> p_peer_id p' = p_peer_id p
   | Hop_Confirm agreed acc \<Rightarrow> p' = p
        \<and> (if unat agreed < channel_count \<and> \<not> quarantine_is now (quar h) (unat agreed)
           then committed_next h' = unat agreed \<and> committed_synced h' else committed_next h' = committed_next h)
   | Hop_Accept agreed acc sq \<Rightarrow> p' = p
        \<and> coop_target h' = (if sq = coop_seq h \<and> coop_st h \<noteq> COOP_IDLE \<and> unat agreed < channel_count
                            then unat agreed else coop_target h)
   | Hop_Request \<Rightarrow> p' = p \<and> (link_up h \<longrightarrow> \<not> committed_synced h' \<and> hop_wq h' W_negotiate = Some 0)
   | Link_Stats rssi ewma \<Rightarrow> p' = p \<and> esb_transport_get_peer_rssi (tr l') = Some (rssi, ewma)
        \<and> chan_rssi h' = channel_rssi_update cfg (chan_rssi h) (t_channel (tr l)) (i8 (- ewma))
   | Bench_Result avg lo hi n \<Rightarrow> p' = p
        \<and> (if bn_state (bn l) = BENCH_STOPPING
           then bn_state (bn l') = BENCH_DONE \<and> br_rssi_avg (bn_result (bn l')) = avg \<and> br_rssi_min (bn_result (bn l')) = lo
             \<and> br_rssi_max (bn_result (bn l')) = hi \<and> br_rssi_samples (bn_result (bn l')) = n
           else bn l' = bn l)
   | _ \<Rightarrow> (p', l') = (p, l)))"

lemma heard_read_back:
  assumes "pkt_ok k"
  shows "read_back cfg now k (p, l) (on_transport_evt cfg now addr (layout k) (p, l))"
proof (cases "\<exists>a lo hi n. k = Bench_Result a lo hi n")
  case True
  then obtain a lo hi n where k: "k = Bench_Result a lo hi n" by blast
  have "rd32 (drop 4 (layout k)) = n" by (simp add: k)
  then show ?thesis
    using assms k by (simp add: read_back_def on_transport_evt_def pairing_on_rx_def esb_bench_on_rx_def on_bn_def bench_cancel_def)
next
  case False
  show ?thesis unfolding evt_pairing [OF False]
    using False assms by (cases k; cases "coop_st (hopm l)")
      (auto simp: read_back_def pairing_on_rx_def on_pair_req_def on_verify_resp_def on_disconnect_def on_resync_def
        connected_def save_paired_def forget_peer_def p_cancel_def p_resched_def channel_hop_ep_on_rx_def on_confirm_def on_accept_def
        channel_hop_ep_on_request_def hop_simps resched_def esb_transport_on_rx_link_stats_def esb_transport_get_peer_rssi_def
        channel_hop_ep_note_peer_rssi_def Let_def)
qed

text \<open>The bytes of the shell, in the build with the relay: as many as the length byte says.\<close>

lemma shell_read_back:
  assumes "0 < n" "unat n \<le> length body" "length body \<le> shell_data_max"
  shows "relay_on_rx ro sc cfg now addr uptime stale (layout (Shell_Data n body)) (s, p, l)
    = (let (s', l') = esb_shell_relay_on_data ro sc cfg now addr uptime (take (unat n) body) (s, l) in (s', p, l'))"
  using assms by (simp add: relay_on_rx_def shell_on_rx_def Let_def)

text \<open>
  C29. Packets survive the air. A packet laid out as its struct is a frame of 1 to 32 bytes. When the
  endpoint receives it, its dispatch takes each field from where it was put: the dongle's id, the agreed
  channel and the number of the offer it answers, the signed signal strengths and the 32-bit count of a
  benchmark, the bytes of the shell. A frame that breaks off before its end changes nothing at all, and
  neither does a packet that only the endpoint sends.
\<close>

theorem packets_read_back:
  assumes "pkt_ok k"
  shows "1 \<le> length (layout k) \<and> length (layout k) \<le> 32
    \<and> read_back cfg now k (p, l) (on_transport_evt cfg now addr (layout k) (p, l))
    \<and> (\<forall>n < length (layout k). on_transport_evt cfg now addr (take n (layout k)) (p, l) = (p, l))
    \<and> (\<not> heard k \<longrightarrow> on_transport_evt cfg now addr (layout k) (p, l) = (p, l))
    \<and> (\<forall>n body. k = Shell_Data n body \<and> 0 < n \<and> unat n \<le> length body \<longrightarrow>
         relay_on_rx ro sc cfg now addr uptime stale (layout k) (s, p, l)
           = (let (s', l') = esb_shell_relay_on_data ro sc cfg now addr uptime (take (unat n) body) (s, l) in (s', p, l')))"
proof -
  have "1 \<le> length (layout k)" by (cases k) simp_all
  moreover have "relay_on_rx ro sc cfg now addr uptime stale (layout k) (s, p, l)
      = (let (s', l') = esb_shell_relay_on_data ro sc cfg now addr uptime (take (unat n) body) (s, l) in (s', p, l'))"
    if "k = Shell_Data n body" "0 < n" "unat n \<le> length body" for n body
    using shell_read_back [OF that(2,3)] assms that(1) by (simp add: shell_data_max_def)
  ultimately show ?thesis
    using length_layout_le [OF assms] heard_read_back [OF assms] truncated [OF assms] unheard by blast
qed

theorem packets_read_back_witness:
  "br_rssi_samples (bn_result (bn (snd (on_transport_evt default_kconfig 7 8 (layout (Bench_Result (- 40) (- 90) (- 3) 70000))
      (pairing_boot, up_link\<lparr>bn := bench_boot\<lparr>bn_state := BENCH_STOPPING\<rparr>\<rparr>))))) = 70000"
  using packets_read_back [of "Bench_Result (- 40) (- 90) (- 3) 70000" default_kconfig 7 pairing_boot
      "up_link\<lparr>bn := bench_boot\<lparr>bn_state := BENCH_STOPPING\<rparr>\<rparr>" 8] 
  by (simp add: in_i8_def read_back_def split_beta)

end
