(* ===== verification/Spec2Isabelle.thy ===== *)
theory Spec2Isabelle
  imports Prelude Config Protocol ChannelHop Queues EsbRadio Offenders HopState LinkQuality
    Motion Bench Transport Events Sending LinkInv Delivery HopWork Channel Pairing EdgeQueue
    HopTrans Burst Negotiate Handshake HidRelay HidDelivery InputProc Senders Endpoint ShellRelay RelayBuild Status Slot Waits System
    Hooks IdleLink Wire
begin

text \<open>
  Verification development of the ESB endpoint of a ZMK keyboard (\<open>src/src/esb\<close>): firmware that
  takes the keyboard's HID reports off Bluetooth and sends them to a dongle over Enhanced ShockBurst,
  with pairing, delivery bookkeeping and coordinated channel hopping.

  The parts of the program, and how they work together.
  A key or input event enters \<open>hid_relay.c\<close> or \<open>input_processor_esb.c\<close>, which keep the report and
  hand it to \<open>esb_transport_send\<close>, or park it while the transport is quiet. The transport
  (\<open>esb_transport.c\<close>) writes it to the radio library (\<open>vendor/nrf-esb/subsys/esb.c\<close>) and records it
  in three rings that run in lockstep with the radio's transmit queue. Interrupts of the radio end a
  transmission; the event handler consumes the rings, keeps the statistics of the link, gives motion
  that was lost back to the next report, asks the owners of lost reports to send again, and tells
  the channel-hop manager (\<open>channel_hop_ep.c\<close>, which chooses channels with \<open>channel_hop.c\<close>). That
  one negotiates the next channel, and moves the link when it fails or degrades. Received frames go
  through a mailbox to \<open>pairing.c\<close> and \<open>bench.c\<close>. \<open>esb_endpoint.c\<close> owns the thread that switches
  the radio between Bluetooth and ESB. With a build option, \<open>shell_relay.c\<close> runs a shell over the link.

  The theories, in the order of their imports.
  \<^item> Prelude: machine integers, the wrap-safe clock comparison, C division, return codes, tables of
    pending work items (for each item the delay it was scheduled with), shared lemmas; the locale
    \<open>step_invariant\<close>, through which the invariants of runs are proved (radio, pairing, shell relay, slot,
    whole endpoint).
  \<^item> Config: the Kconfig options as a record \<open>kconfig\<close>, the constraints their \<open>range\<close> lines and build
    assertions impose (\<open>kconfig_ok\<close>), and the defaults.
  \<^item> Protocol: the packets of \<open>include/zmk_esb/protocol.h\<close> and their layout in bytes.
  \<^item> ChannelHop: \<open>channel_hop.c\<close>: random numbers, signal averages, quarantine, weighted choice.
  \<^item> Queues: the array FIFO and the free-running ring, both as instances of the locale
    \<open>bounded_queue\<close>, whose facts the radio and the transport rest on.
  \<^item> EsbRadio: the transmitter of \<open>esb.c\<close>: API calls, interrupt handlers, \<open>radio_step\<close>, its invariant.
  \<^item> Offenders: hit table, avoided set, flash record and decay clock of \<open>channel_hop_ep.c\<close>.
  \<^item> HopState: the state record \<open>hop\<close> of the hop manager, its hooks, the reception of its packets, the
    hop decision and the bookkeeping of a hop.
  \<^item> LinkQuality, Motion, Bench: the sliding window and the adaptive retransmit count; the motion ring
    and the refund pool; the benchmark.
  \<^item> Transport, Events, Sending, LinkInv: the state \<open>transport\<close>, and \<open>link\<close>, which joins it with the
    radio, the hop manager and the benchmark because the C files call one another through it; the
    event handler; sends, slots and channel changes; \<open>link_wf\<close> and that every call keeps it.
  \<^item> Delivery, Channel: what one delivered packet, a channel change and a side trip to another channel
    do to queue and rings.
  \<^item> HopWork, HopTrans, Burst, Negotiate, Handshake: the work items of the hop manager over the link; the
    hop as a transaction; the ticks of the burst after it, with the radio's interrupts before and during them;
    the frames of the negotiation and how it settles; the cooperative handshake as a state machine.
  \<^item> Pairing: \<open>pairing.c\<close>, with the events that act on it as a datatype.
  \<^item> EdgeQueue, HidRelay, HidDelivery, InputProc: the queues of parked reports, with the locale
    \<open>frame_sender\<close> for the sender they drain into; \<open>hid_relay.c\<close>; the transport as such a sender
    (three interpretations); \<open>input_processor_esb.c\<close>.
  \<^item> Senders: the locale \<open>kept_by_sends\<close>: what a send on the link keeps, every operation of the reports
    and their queues keeps.
  \<^item> Endpoint: \<open>esb_endpoint.c\<close>: control thread, profile listener, dispatch, shell commands.
  \<^item> Status: what the shell commands print, with the buffers they print into.
  \<^item> ShellRelay, RelayBuild: \<open>src/src/shell/shell_relay.c\<close>; its hooks in pairing, transport and control
    thread, with the runs of that build; the keymap behaviours of \<open>src/src/behaviors\<close>.
  \<^item> Slot, Waits: the hardware shared with Bluetooth around a switch; the wait before a flush and the
    build assertions on the timing options.
  \<^item> System: everything in one state, the step relation \<open>sys_step\<close>, boot, and what holds in every
    state that is reached.
  \<^item> Hooks, IdleLink: the hooks through which the rest of the program acts on the hop manager, with the
    locale \<open>hook_invariant\<close> that lifts an invariant of hooks and work items to the whole system; that the
    manager is never stuck; and that it leaves the radio alone while the link is idle.
  \<^item> Wire: the packets against the code that receives them.

  Conventions. Definitions have the names of the C functions. An operation takes the configuration,
  the uptime \<open>now\<close> in milliseconds as a 32-bit word that wraps, and where the code reads them the
  cycle counter (\<open>cyc\<close>) and the address that seeds the retransmit jitter (\<open>addr\<close>). Counters and times
  keep their width; channel numbers are natural numbers below 101, or 255 for none; motion is an
  integer that the well-formedness keeps in 32 bits. What hardware answers is an argument. A handler
  that other contexts may interleave with at a known place takes what they did there as an argument
  (\<open>live\<close>: the reports enqueued while a drain was sending), or is cut in two at the place where it
  waits (the blocking send, the control thread).

  What the groups of lemmas show.
  \<^item> Well-formedness of each component, kept by each of its operations, up to \<open>reachable_states_ok\<close>,
    which has it for all interleavings from boot; \<open>hop_manager_follows_pairing\<close> joins two components,
    and by \<open>hop_manager_never_stuck\<close> whatever the hop manager waits for is scheduled.
  \<^item> Delivery: the transmit queue is a queue (\<open>radio_invariant\<close>,
    \<open>retransmission_bounded\<close>), a send and a delivery refine it and keep the rings in lockstep
    (\<open>send_keeps_lockstep\<close>, \<open>delivery_keeps_lockstep\<close>), what fails or is flushed is accounted for
    (\<open>failed_report_accounted\<close>, \<open>flush_notifies_owners\<close>, \<open>motion_accounting\<close>), edges stay in order while the transport is
    quiet (\<open>keyboard_edges_in_order\<close>, \<open>button_edges_in_order\<close>).
  \<^item> Hopping: choice, decision, handshake, channel change, the transaction that joins them
    (\<open>hop_work_transaction\<close>), the negotiation before it (\<open>negotiation_settles\<close>), silence without
    traffic (\<open>idle_link_left_alone\<close>), and that the rendezvous channel is never quarantined.
  \<^item> Reference definitions: modifier counts against the set of held keys (\<open>modifiers_are_held\<close>), the
    window of retries against its history (\<open>link_quality_correct\<close>), the avoided set against the top of
    the table (\<open>avoided_set_is_top\<close>), the printed status against its text without buffers
    (\<open>status_text_complete\<close>).
  \<^item> Round trips through packets (\<open>packets_read_back\<close>), flash records and the stash, and of the shared hardware through a slot
    (\<open>slot_returns_hardware\<close>).
  \<^item> The relay: its output is a stream (\<open>shell_output_in_order\<close>), its input lines (\<open>command_line_edited\<close>),
    its sessions end with the link (\<open>sessions_follow_link\<close>).
  \<^item> Beside the properties, lemmas that show where the code does not do what it says; the text before
    each says what happens.

  Bounds. No definition uses fuel: the loops of the code are recursions over lists, over the number of
  retries or of queued frames, or terminate by a measure (a benchmark burst by the free places of the
  transmit queue, the reception of frames by the length of the receive queue). Two loops have no bound
  of their own and are \<open>None\<close> when they do not return: the drain of the relay, which returns when the
  core is a stream of bytes, and the wait before a flush, which returns when the clock moves on.

  Not modelled.
  \<^item> The radio library below its queues: registers, PPI, timers and clocks, the receiver role. An
    interrupt is a step with what the air delivered as its argument.
  \<^item> The Bluetooth host, the clock driver and the relay core (a module outside the repository): their
    answers are arguments, the core is the record \<open>relay_ops\<close> of its calls.
  \<^item> ZMK's report layouts and usage codes, Zephyr's input codes and the devicetree: the records
    \<open>hid_cfg\<close>, \<open>input_codes\<close> and \<open>ep_cfg\<close>.
  \<^item> The adaptive-feedback events and the fast channel switching of the radio library: the build
    modelled has them off. The runtime configuration is modelled where the program reads it, as the
    field \<open>c_persist_rt\<close>; registering and storing settings is not. The options for hopping, cooperative hops,
    rendezvous, adaptive retries, signal weighting, persistence and the benchmark are on; whether HID
    frames go without acknowledge is a field of \<open>kconfig\<close>. The shell relay is off in \<open>sys_step\<close> and on in
    \<open>relay_step\<close>.
  \<^item> Log messages, and the registration of devices, listeners and commands.
  \<^item> Preemption inside a function, apart from the places named above. The code holds the scheduler lock
    or the interrupt lock where it matters.
\<close>

end
